theory Spec2Isabelle
  imports Main "HOL-Library.AList"
begin

section \<open>JavaScript values\<close>

text \<open>
  Every exception the modelled code can raise is a JavaScript TypeError: a property read
  on \<open>null\<close> or \<open>undefined\<close>, or a call of a method the receiver does not have.
  The string names the property or method at which the evaluation stops.
\<close>

datatype error = NullDereference string | NotAFunction string

text \<open>
  The result of a function that returns an object reference, \<open>undefined\<close> or \<open>null\<close>.
\<close>

datatype 'a jsref = Undefined | Null | Ref 'a

text \<open>
  A value that is a string or \<open>undefined\<close> is a \<open>string option\<close>. A condition
  \<open>if (s)\<close> on such a value holds for a non-empty string only.
\<close>

definition truthy :: "string option \<Rightarrow> bool" where
  "truthy s = (case s of None \<Rightarrow> False | Some t \<Rightarrow> t \<noteq> [])"

text \<open>
  String concatenation with a value that may be \<open>undefined\<close> prints it as
  the text \<open>undefined\<close>.
\<close>

definition js_str :: "string option \<Rightarrow> string" where
  "js_str s = (case s of None \<Rightarrow> ''undefined'' | Some t \<Rightarrow> t)"

text \<open>
  \<open>toLowerCase\<close> and \<open>toUpperCase\<close>, on strings of Latin-1 code units. Only the
  ASCII letters are mapped: the code compares the results with ASCII literals, and no
  other Latin-1 character is mapped to an ASCII letter by either function.
\<close>

definition lower_char :: "char \<Rightarrow> char" where
  "lower_char c =
     (case map_of (zip ''ABCDEFGHIJKLMNOPQRSTUVWXYZ'' ''abcdefghijklmnopqrstuvwxyz'') c of
        None \<Rightarrow> c | Some d \<Rightarrow> d)"

definition upper_char :: "char \<Rightarrow> char" where
  "upper_char c =
     (case map_of (zip ''abcdefghijklmnopqrstuvwxyz'' ''ABCDEFGHIJKLMNOPQRSTUVWXYZ'') c of
        None \<Rightarrow> c | Some d \<Rightarrow> d)"

definition toLowerCase :: "string \<Rightarrow> string" where
  "toLowerCase s = map lower_char s"

definition toUpperCase :: "string \<Rightarrow> string" where
  "toUpperCase s = map upper_char s"

text \<open>
  A JavaScript \<open>Map\<close> keeps its entries in insertion order; \<open>set\<close> on a key that is
  present replaces the value in place, \<open>get\<close> on a key that is absent is \<open>undefined\<close>.
\<close>

definition Map_set :: "'k \<Rightarrow> 'v \<Rightarrow> ('k \<times> 'v) list \<Rightarrow> ('k \<times> 'v) list" where
  "Map_set k v m = AList.update k v m"

definition Map_get :: "('k \<times> 'v) list \<Rightarrow> 'k \<Rightarrow> 'v option" where
  "Map_get m k = map_of m k"

definition Map_values :: "('k \<times> 'v) list \<Rightarrow> 'v list" where
  "Map_values m = map snd m"

text \<open>
  A number that the code obtains from text is an integer or \<open>NaN\<close>; a value that is
  used as a key of a lookup or as an operand of \<open>===\<close> is such a number, a string or
  a boolean. Numbers are modelled as mathematical integers, which is exact for payload
  types and 32-bit ssrcs.
\<close>

datatype jsval = Number int | NaN | String string | Boolean bool

text \<open>
  The operators \<open>!\<close> and \<open>===\<close>: \<open>!v\<close> is the boolean that is true when \<open>v\<close>
  is \<open>0\<close>, \<open>NaN\<close>, the empty string or \<open>false\<close>; \<open>a === b\<close> holds for two
  values of the same type that are equal, \<open>NaN\<close> excepted.
\<close>

definition logical_not :: "jsval \<Rightarrow> jsval" where
  "logical_not v =
     (case v of Number n \<Rightarrow> Boolean (n = 0) | NaN \<Rightarrow> Boolean True
      | String t \<Rightarrow> Boolean (t = []) | Boolean b \<Rightarrow> Boolean (\<not> b))"

definition strict_equals :: "jsval \<Rightarrow> jsval \<Rightarrow> bool" where
  "strict_equals a b = (a = b \<and> a \<noteq> NaN)"

text \<open>
  \<open>s.split(sep)\<close> for a separator of one character: the pieces between the
  occurrences of the separator, at least one piece.
\<close>

fun split :: "char \<Rightarrow> string \<Rightarrow> string list" where
  "split sep [] = [[]]"
| "split sep (c # cs) =
     (if c = sep then [] # split sep cs
      else (case split sep cs of [] \<Rightarrow> [[c]] | x # xs \<Rightarrow> (c # x) # xs))"

text \<open>\<open>a.join(sep)\<close> on an array of strings.\<close>

fun join :: "string \<Rightarrow> string list \<Rightarrow> string" where
  "join sep [] = []"
| "join sep [x] = x"
| "join sep (x # y # ys) = x @ sep @ join sep (y # ys)"

text \<open>
  \<open>s.trim()\<close> removes white space and line terminators from both ends; in Latin-1
  these are the code units 9 to 13, 32 and 160.
\<close>

definition is_white :: "char \<Rightarrow> bool" where
  "is_white c = (c \<in> set [CHR 0x09, CHR 0x0A, CHR 0x0B, CHR 0x0C, CHR 0x0D, CHR 0x20, CHR 0xA0])"

definition trim :: "string \<Rightarrow> string" where
  "trim s = rev (dropWhile is_white (rev (dropWhile is_white s)))"

text \<open>
  \<open>parseInt(s)\<close> with no radix: leading white space is skipped, a sign is read, a
  prefix \<open>0x\<close> or \<open>0X\<close> selects radix 16, and the longest prefix of digits of the
  radix is the number; \<open>NaN\<close> when there is no digit.
\<close>

definition digit :: "nat \<Rightarrow> char \<Rightarrow> nat option" where
  "digit radix c =
     (case map_of
        [(CHR ''0'', 0), (CHR ''1'', 1), (CHR ''2'', 2), (CHR ''3'', 3),
         (CHR ''4'', 4), (CHR ''5'', 5), (CHR ''6'', 6), (CHR ''7'', 7),
         (CHR ''8'', 8), (CHR ''9'', 9), (CHR ''a'', 10), (CHR ''b'', 11),
         (CHR ''c'', 12), (CHR ''d'', 13), (CHR ''e'', 14), (CHR ''f'', 15),
         (CHR ''A'', 10), (CHR ''B'', 11), (CHR ''C'', 12), (CHR ''D'', 13),
         (CHR ''E'', 14), (CHR ''F'', 15)] c of
        None \<Rightarrow> None
      | Some d \<Rightarrow> if d < radix then Some d else None)"

fun digits_prefix :: "nat \<Rightarrow> string \<Rightarrow> nat list" where
  "digits_prefix radix [] = []"
| "digits_prefix radix (c # cs) =
     (case digit radix c of None \<Rightarrow> [] | Some d \<Rightarrow> d # digits_prefix radix cs)"

definition parseInt :: "string \<Rightarrow> jsval" where
  "parseInt s =
     (let s1 = dropWhile is_white s;
          neg = (case s1 of [] \<Rightarrow> False | c # r \<Rightarrow> c = CHR ''-'');
          s2 = (case s1 of [] \<Rightarrow> [] | c # r \<Rightarrow> if c = CHR ''-'' \<or> c = CHR ''+'' then r else s1);
          hex = (case s2 of a # b # r \<Rightarrow> a = CHR ''0'' \<and> (b = CHR ''x'' \<or> b = CHR ''X'') | _ \<Rightarrow> False);
          radix = (if hex then 16 else 10);
          ds = digits_prefix radix (if hex then drop 2 s2 else s2)
      in if ds = [] then NaN
         else Number ((if neg then - 1 else 1) * int (foldl (\<lambda>a d. a * radix + d) 0 ds)))"

text \<open>
  \<open>parseInt\<close> of a value that may be \<open>undefined\<close>: the text \<open>undefined\<close> has no
  digit.
\<close>

definition parseInt_opt :: "string option \<Rightarrow> jsval" where
  "parseInt_opt s = (case s of None \<Rightarrow> NaN | Some t \<Rightarrow> parseInt t)"

text \<open>The decimal text of an integer, as string concatenation and \<open>join\<close> print it.\<close>

definition digit_char :: "nat \<Rightarrow> char" where
  "digit_char d = ''0123456789'' ! d"

fun string_of_nat :: "nat \<Rightarrow> string" where
  "string_of_nat n =
     (if n < 10 then [digit_char n] else string_of_nat (n div 10) @ [digit_char (n mod 10)])"

declare string_of_nat.simps [simp del]

definition Number_toString :: "int \<Rightarrow> string" where
  "Number_toString i = (if i < 0 then CHR ''-'' # string_of_nat (nat (- i)) else string_of_nat (nat i))"

definition jsval_toString :: "jsval \<Rightarrow> string" where
  "jsval_toString v =
     (case v of Number n \<Rightarrow> Number_toString n | NaN \<Rightarrow> ''NaN'' | String t \<Rightarrow> t
      | Boolean b \<Rightarrow> if b then ''true'' else ''false'')"

section \<open>Value classes\<close>

subsection \<open>ICEInfo (lib/ICEInfo.js)\<close>

text \<open>
  The class has the fields \<open>ufrag\<close>, \<open>pwd\<close> and \<open>lite\<close> and the methods
  \<open>getUfrag\<close>, \<open>getPwd\<close>, \<open>getLite\<close> and \<open>setLite\<close>. It defines no method
  \<open>isLite\<close>, \<open>clone\<close> or \<open>plain\<close>, which SDPInfo calls on the object it holds as
  its \<open>ice\<close>. The field of a session is untyped, so the record also says what the
  object held there answers to a call of \<open>isLite()\<close>: \<open>None\<close> when it has no such
  method, as every object made by the constructor of this class.
\<close>

record ICEInfo =
  ufrag :: "string option"
  pwd :: "string option"
  lite :: bool
  isLite :: "bool option"

definition ICEInfo_new :: "string option \<Rightarrow> string option \<Rightarrow> ICEInfo" where
  "ICEInfo_new u p = \<lparr>ufrag = u, pwd = p, lite = False, isLite = None\<rparr>"

definition ICEInfo_isLite :: "ICEInfo \<Rightarrow> error + bool" where
  "ICEInfo_isLite i = (case isLite i of None \<Rightarrow> Inl (NotAFunction ''isLite'') | Some b \<Rightarrow> Inr b)"

definition ICEInfo_clone :: "ICEInfo \<Rightarrow> error + ICEInfo" where
  "ICEInfo_clone i = Inl (NotAFunction ''clone'')"

definition ICEInfo_plain :: "ICEInfo \<Rightarrow> error + ICEInfo" where
  "ICEInfo_plain i = Inl (NotAFunction ''plain'')"

subsection \<open>Classes of the repository that SDPInfo uses\<close>

text \<open>
  Modelled from the spec: Setup, the enumeration of the DTLS setup attribute with its
  conversions from and to the attribute's text (lib/Setup.js is not among the sources).
\<close>

datatype Setup = ACTIVE | PASSIVE | ACTPASS | INACTIVE

definition Setup_byValue :: "string \<Rightarrow> Setup option" where
  "Setup_byValue s =
     map_of [(''ACTIVE'', ACTIVE), (''PASSIVE'', PASSIVE), (''ACTPASS'', ACTPASS),
             (''INACTIVE'', INACTIVE)] (toUpperCase s)"

definition Setup_toString :: "Setup option \<Rightarrow> string option" where
  "Setup_toString s =
     (case s of None \<Rightarrow> None
      | Some ACTIVE \<Rightarrow> Some ''active'' | Some PASSIVE \<Rightarrow> Some ''passive''
      | Some ACTPASS \<Rightarrow> Some ''actpass'' | Some INACTIVE \<Rightarrow> Some ''inactive'')"

text \<open>
  Modelled from the spec: Direction, the enumeration of the media direction attribute
  (lib/Direction.js is not among the sources).
\<close>

datatype Direction = SENDRECV | SENDONLY | RECVONLY | DIR_INACTIVE

definition Direction_byValue :: "string \<Rightarrow> Direction option" where
  "Direction_byValue s =
     map_of [(''SENDRECV'', SENDRECV), (''SENDONLY'', SENDONLY), (''RECVONLY'', RECVONLY),
             (''INACTIVE'', DIR_INACTIVE)] (toUpperCase s)"

definition Direction_toString :: "Direction option \<Rightarrow> string option" where
  "Direction_toString d =
     (case d of None \<Rightarrow> None
      | Some SENDRECV \<Rightarrow> Some ''sendrecv'' | Some SENDONLY \<Rightarrow> Some ''sendonly''
      | Some RECVONLY \<Rightarrow> Some ''recvonly'' | Some DIR_INACTIVE \<Rightarrow> Some ''inactive'')"

text \<open>
  Modelled from the spec: DirectionWay, the direction of a RID or of a simulcast stream
  list (lib/DirectionWay.js is not among the sources).
\<close>

datatype DirectionWay = SEND | RECV

definition DirectionWay_byValue :: "string \<Rightarrow> DirectionWay option" where
  "DirectionWay_byValue s = map_of [(''SEND'', SEND), (''RECV'', RECV)] (toUpperCase s)"

definition DirectionWay_toString :: "DirectionWay option \<Rightarrow> string option" where
  "DirectionWay_toString d =
     (case d of None \<Rightarrow> None | Some SEND \<Rightarrow> Some ''send'' | Some RECV \<Rightarrow> Some ''recv'')"

text \<open>
  Modelled from the spec: DTLSInfo and CandidateInfo, plain value records with getters
  (lib/DTLSInfo.js and lib/CandidateInfo.js are not among the sources). Numbers are
  integers.
\<close>

record DTLSInfo =
  dtls_setup :: "Setup option"
  dtls_hash :: "string option"
  dtls_fingerprint :: "string option"

record CandidateInfo =
  cand_foundation :: string
  cand_componentId :: int
  cand_transport :: string
  cand_priority :: int
  cand_address :: string
  cand_port :: int
  cand_type :: string

text \<open>
  Modelled from the spec: CodecInfo, a codec name, its payload type, its format
  parameters and the payload type of its RTX stream, if it has one (lib/CodecInfo.js is
  not among the sources).
\<close>

record CodecInfo =
  codec_name :: string
  codec_type :: int
  codec_params :: "(string \<times> string) list"
  codec_rtx :: "int option"

definition CodecInfo_new :: "string \<Rightarrow> int \<Rightarrow> (string \<times> string) list \<Rightarrow> CodecInfo" where
  "CodecInfo_new c t ps = \<lparr>codec_name = c, codec_type = t, codec_params = ps, codec_rtx = None\<rparr>"

definition hasRTX :: "CodecInfo \<Rightarrow> bool" where
  "hasRTX c = (codec_rtx c \<noteq> None)"

definition setRTX :: "int \<Rightarrow> CodecInfo \<Rightarrow> CodecInfo" where
  "setRTX r c = c\<lparr>codec_rtx := Some r\<rparr>"

text \<open>
  Modelled from the spec: RIDInfo, SimulcastStreamInfo, SimulcastInfo and
  TrackEncodingInfo (none of them is among the sources). A SimulcastInfo holds the
  alternative stream lists of each direction; a list added under a direction that is
  \<open>undefined\<close> is read by neither of the two getters the code uses.
\<close>

record RIDInfo =
  rid_id :: string
  rid_direction :: "DirectionWay option"
  rid_formats :: "string list"
  rid_params :: "(string \<times> string) list"

record SimulcastStreamInfo =
  scid :: string
  paused :: bool

record SimulcastInfo =
  sim_send :: "SimulcastStreamInfo list list"
  sim_recv :: "SimulcastStreamInfo list list"

definition addSimulcastAlternativeStreams ::
  "DirectionWay option \<Rightarrow> SimulcastStreamInfo list \<Rightarrow> SimulcastInfo \<Rightarrow> SimulcastInfo" where
  "addSimulcastAlternativeStreams d alts s =
     (case d of
        Some SEND \<Rightarrow> s\<lparr>sim_send := sim_send s @ [alts]\<rparr>
      | Some RECV \<Rightarrow> s\<lparr>sim_recv := sim_recv s @ [alts]\<rparr>
      | None \<Rightarrow> s)"

record TrackEncodingInfo =
  enc_id :: string
  enc_paused :: bool
  enc_codecs :: "CodecInfo list"
  enc_params :: "(string \<times> string) list"

text \<open>
  Modelled from the spec: SourceGroupInfo, the semantics of an ssrc group and its
  ssrcs as numbers (the constructor reads each of the strings it is given as a number),
  and TrackInfo (lib/SourceGroupInfo.js and lib/TrackInfo.js are not
  among the sources). The id of a track is \<open>undefined\<close> when SDPInfo.process reads it
  from an msid with no second word.
\<close>

record SourceGroupInfo =
  group_semantics :: string
  group_ssrcs :: "jsval list"

record TrackInfo =
  track_media :: string
  track_id :: "string option"
  track_mediaId :: "string option"
  track_ssrcs :: "int list"
  track_groups :: "SourceGroupInfo list"
  track_encodings :: "TrackEncodingInfo list list"

definition SourceGroupInfo_new :: "string \<Rightarrow> string list \<Rightarrow> SourceGroupInfo" where
  "SourceGroupInfo_new sem ss = \<lparr>group_semantics = sem, group_ssrcs = map parseInt ss\<rparr>"

definition TrackInfo_new :: "string \<Rightarrow> string option \<Rightarrow> TrackInfo" where
  "TrackInfo_new m i =
     \<lparr>track_media = m, track_id = i, track_mediaId = None, track_ssrcs = [],
      track_groups = [], track_encodings = []\<rparr>"

definition addSSRC :: "int \<Rightarrow> TrackInfo \<Rightarrow> TrackInfo" where
  "addSSRC s t = t\<lparr>track_ssrcs := track_ssrcs t @ [s]\<rparr>"

definition addSourceGroup :: "SourceGroupInfo \<Rightarrow> TrackInfo \<Rightarrow> TrackInfo" where
  "addSourceGroup g t = t\<lparr>track_groups := track_groups t @ [g]\<rparr>"

subsection \<open>StreamInfo\<close>

text \<open>
  The class has an id and a Map of its tracks by track id. It defines \<open>getId\<close>,
  \<open>addTrack\<close>, \<open>getFirstTrack\<close>, \<open>getTracks\<close>, \<open>removeAllTracks\<close> and
  \<open>getTrack\<close>, and no \<open>clone\<close> or \<open>plain\<close>.
\<close>

record StreamInfo =
  stream_id :: string
  tracks :: "(string option \<times> TrackInfo) list"

definition StreamInfo_new :: "string \<Rightarrow> StreamInfo" where
  "StreamInfo_new i = \<lparr>stream_id = i, tracks = []\<rparr>"

definition addTrack :: "TrackInfo \<Rightarrow> StreamInfo \<Rightarrow> StreamInfo" where
  "addTrack t s = s\<lparr>tracks := Map_set (track_id t) t (tracks s)\<rparr>"

definition getTrack :: "StreamInfo \<Rightarrow> string option \<Rightarrow> TrackInfo option" where
  "getTrack s i = Map_get (tracks s) i"

definition StreamInfo_clone :: "StreamInfo \<Rightarrow> error + StreamInfo" where
  "StreamInfo_clone s = Inl (NotAFunction ''clone'')"

definition StreamInfo_plain :: "StreamInfo \<Rightarrow> error + StreamInfo" where
  "StreamInfo_plain s = Inl (NotAFunction ''plain'')"

subsection \<open>MediaInfo\<close>

text \<open>
  Modelled from the spec: MediaInfo, one media section with its id (the mid), type,
  direction, codecs by payload type, header extensions, RIDs, simulcast and bitrate
  (lib/MediaInfo.js is not among the sources). \<open>getCodecForType\<close> looks a codec up by
  equality of the payload type with its argument: the codecs are keyed by number, so
  \<open>NaN\<close> and a string find none.
\<close>

record MediaInfo =
  media_id :: string
  media_type :: string
  media_direction :: "Direction option"
  media_codecs :: "(int \<times> CodecInfo) list"
  media_extensions :: "(int \<times> string) list"
  media_rids :: "(string \<times> RIDInfo) list"
  media_simulcast :: "SimulcastInfo option"
  media_bitrate :: int

definition MediaInfo_new :: "string \<Rightarrow> string \<Rightarrow> MediaInfo" where
  "MediaInfo_new i t =
     \<lparr>media_id = i, media_type = t, media_direction = Some SENDRECV, media_codecs = [],
      media_extensions = [], media_rids = [], media_simulcast = None, media_bitrate = 0\<rparr>"

definition addCodec :: "CodecInfo \<Rightarrow> MediaInfo \<Rightarrow> MediaInfo" where
  "addCodec c m = m\<lparr>media_codecs := Map_set (codec_type c) c (media_codecs m)\<rparr>"

definition getCodecForType :: "MediaInfo \<Rightarrow> jsval \<Rightarrow> CodecInfo option" where
  "getCodecForType m t = (case t of Number n \<Rightarrow> Map_get (media_codecs m) n | _ \<Rightarrow> None)"

section \<open>SDPInfo (lib/SDPInfo.js)\<close>

record SDPInfo =
  version :: int
  streams :: "(string \<times> StreamInfo) list"
  medias :: "MediaInfo list"
  candidates :: "CandidateInfo list"
  ice :: "ICEInfo option"
  dtls :: "DTLSInfo option"

text \<open>The constructor: \<open>version || 1\<close> is 1 for no argument and for 0.\<close>

definition SDPInfo_new :: "int option \<Rightarrow> SDPInfo" where
  "SDPInfo_new v =
     \<lparr>version = (case v of None \<Rightarrow> 1 | Some n \<Rightarrow> if n = 0 then 1 else n),
      streams = [], medias = [], candidates = [], ice = None, dtls = None\<rparr>"

definition setVersion :: "int \<Rightarrow> SDPInfo \<Rightarrow> SDPInfo" where
  "setVersion v s = s\<lparr>version := v\<rparr>"

definition addMedia :: "MediaInfo \<Rightarrow> SDPInfo \<Rightarrow> SDPInfo" where
  "addMedia m s = s\<lparr>medias := medias s @ [m]\<rparr>"

definition setDTLS :: "DTLSInfo option \<Rightarrow> SDPInfo \<Rightarrow> SDPInfo" where
  "setDTLS d s = s\<lparr>dtls := d\<rparr>"

definition setICE :: "ICEInfo option \<Rightarrow> SDPInfo \<Rightarrow> SDPInfo" where
  "setICE i s = s\<lparr>ice := i\<rparr>"

definition addCandidate :: "CandidateInfo \<Rightarrow> SDPInfo \<Rightarrow> SDPInfo" where
  "addCandidate c s = s\<lparr>candidates := candidates s @ [c]\<rparr>"

definition addCandidates :: "CandidateInfo list \<Rightarrow> SDPInfo \<Rightarrow> SDPInfo" where
  "addCandidates cs s = fold addCandidate cs s"

definition getStream :: "SDPInfo \<Rightarrow> string \<Rightarrow> StreamInfo option" where
  "getStream s i = Map_get (streams s) i"

definition addStream :: "StreamInfo \<Rightarrow> SDPInfo \<Rightarrow> SDPInfo" where
  "addStream st s = s\<lparr>streams := Map_set (stream_id st) st (streams s)\<rparr>"

subsection \<open>getMediaById\<close>

text \<open>
  The loop returns \<open>this.media\<close> at the first media whose id matches. SDPInfo has the
  fields \<open>version\<close>, \<open>streams\<close>, \<open>medias\<close>, \<open>candidates\<close>, \<open>ice\<close> and \<open>dtls\<close>
  and no field \<open>media\<close>, so that value is \<open>undefined\<close>.
\<close>

fun getMediaById_loop :: "MediaInfo list \<Rightarrow> string \<Rightarrow> MediaInfo jsref" where
  "getMediaById_loop [] msid = Null"
| "getMediaById_loop (media # rest) msid =
     (if toLowerCase (media_id media) = toLowerCase msid then Undefined
      else getMediaById_loop rest msid)"

definition getMediaById :: "SDPInfo \<Rightarrow> string \<Rightarrow> MediaInfo jsref" where
  "getMediaById s msid = getMediaById_loop (medias s) msid"

subsection \<open>clone and plain\<close>

text \<open>
  Modelled from the spec: the deep copy and the plain-object projection of MediaInfo,
  CandidateInfo and DTLSInfo (their classes are not among the sources). Both return an
  equally structured value, which for the values of this theory is the value itself.
\<close>

definition MediaInfo_clone :: "MediaInfo \<Rightarrow> MediaInfo" where
  "MediaInfo_clone m = m"

definition CandidateInfo_clone :: "CandidateInfo \<Rightarrow> CandidateInfo" where
  "CandidateInfo_clone c = c"

definition DTLSInfo_clone :: "DTLSInfo \<Rightarrow> DTLSInfo" where
  "DTLSInfo_clone d = d"

definition MediaInfo_plain :: "MediaInfo \<Rightarrow> MediaInfo" where
  "MediaInfo_plain m = m"

definition CandidateInfo_plain :: "CandidateInfo \<Rightarrow> CandidateInfo" where
  "CandidateInfo_plain c = c"

definition DTLSInfo_plain :: "DTLSInfo \<Rightarrow> DTLSInfo" where
  "DTLSInfo_plain d = d"

text \<open>
  clone copies the medias, then the streams, then the candidates, and then calls
  \<open>this.ice.clone()\<close> and \<open>this.dtls.clone()\<close> with no test of either field.
\<close>

fun clone_streams :: "StreamInfo list \<Rightarrow> SDPInfo \<Rightarrow> error + SDPInfo" where
  "clone_streams [] cloned = Inr cloned"
| "clone_streams (stream # rest) cloned =
     (case StreamInfo_clone stream of
        Inl e \<Rightarrow> Inl e
      | Inr c \<Rightarrow> clone_streams rest (addStream c cloned))"

definition clone :: "SDPInfo \<Rightarrow> error + SDPInfo" where
  "clone s =
     (let cloned = SDPInfo_new (Some (version s));
          cloned = fold (\<lambda>m. addMedia (MediaInfo_clone m)) (medias s) cloned
      in case clone_streams (Map_values (streams s)) cloned of
           Inl e \<Rightarrow> Inl e
         | Inr cloned \<Rightarrow>
             (let cloned = fold (\<lambda>c. addCandidate (CandidateInfo_clone c)) (candidates s) cloned
              in case ice s of
                   None \<Rightarrow> Inl (NullDereference ''clone'')
                 | Some i \<Rightarrow>
                     (case ICEInfo_clone i of
                        Inl e \<Rightarrow> Inl e
                      | Inr i' \<Rightarrow>
                          (case dtls s of
                             None \<Rightarrow> Inl (NullDereference ''clone'')
                           | Some d \<Rightarrow>
                               Inr (setDTLS (Some (DTLSInfo_clone d))
                                      (setICE (Some i') cloned))))))"

text \<open>
  plain builds an object with the version and three arrays, fills the arrays from the
  \<open>plain()\<close> of every media, stream and candidate, and sets \<open>ice\<close> and \<open>dtls\<close> to
  \<open>this.ice && this.ice.plain()\<close> and \<open>this.dtls && this.dtls.plain()\<close>: \<open>null\<close>
  for a field that is \<open>null\<close>.
\<close>

record SDPInfo_plain =
  plain_version :: int
  plain_streams :: "StreamInfo list"
  plain_medias :: "MediaInfo list"
  plain_candidates :: "CandidateInfo list"
  plain_ice :: "ICEInfo option"
  plain_dtls :: "DTLSInfo option"

fun plain_streams_loop :: "StreamInfo list \<Rightarrow> StreamInfo list \<Rightarrow> error + StreamInfo list" where
  "plain_streams_loop [] acc = Inr acc"
| "plain_streams_loop (stream # rest) acc =
     (case StreamInfo_plain stream of
        Inl e \<Rightarrow> Inl e
      | Inr p \<Rightarrow> plain_streams_loop rest (acc @ [p]))"

definition plain :: "SDPInfo \<Rightarrow> error + SDPInfo_plain" where
  "plain s =
     (let ms = map MediaInfo_plain (medias s)
      in case plain_streams_loop (Map_values (streams s)) [] of
           Inl e \<Rightarrow> Inl e
         | Inr sts \<Rightarrow>
             (let cs = map CandidateInfo_plain (candidates s)
              in case (case ice s of None \<Rightarrow> Inr None
                       | Some i \<Rightarrow> (case ICEInfo_plain i of Inl e \<Rightarrow> Inl e | Inr p \<Rightarrow> Inr (Some p))) of
                   Inl e \<Rightarrow> Inl e
                 | Inr pi \<Rightarrow>
                     Inr \<lparr>plain_version = version s, plain_streams = sts, plain_medias = ms,
                          plain_candidates = cs, plain_ice = pi,
                          plain_dtls = map_option DTLSInfo_plain (dtls s)\<rparr>))"

subsection \<open>answer\<close>

text \<open>
  The parameters of answer: each of \<open>ice\<close>, \<open>dtls\<close>, \<open>candidates\<close> and
  \<open>capabilities\<close> may be missing from the object. \<open>capabilities\<close> is read with
  \<open>params.capabilities[media.getType()]\<close>: a function from the media type to the
  value found there, \<open>None\<close> for \<open>undefined\<close>.
\<close>

record 'c answer_params =
  params_ice :: "ICEInfo option"
  params_dtls :: "DTLSInfo option"
  params_candidates :: "CandidateInfo list option"
  params_capabilities :: "(string \<Rightarrow> 'c option) option"

text \<open>
  The loop over the offered medias. \<open>media.answer\<close> belongs to MediaInfo, which is not
  among the sources: it is the parameter \<open>ans\<close>, which may raise.
\<close>

fun answer_medias ::
  "(MediaInfo \<Rightarrow> 'c option \<Rightarrow> error + MediaInfo) \<Rightarrow> (string \<Rightarrow> 'c option) option \<Rightarrow>
   MediaInfo list \<Rightarrow> SDPInfo \<Rightarrow> error + SDPInfo" where
  "answer_medias ans caps [] a = Inr a"
| "answer_medias ans caps (media # rest) a =
     (case caps of
        None \<Rightarrow> Inl (NullDereference (media_type media))
      | Some c \<Rightarrow>
          (case ans media (c (media_type media)) of
             Inl e \<Rightarrow> Inl e
           | Inr m \<Rightarrow> answer_medias ans caps rest (addMedia m a)))"

definition answer ::
  "(MediaInfo \<Rightarrow> 'c option \<Rightarrow> error + MediaInfo) \<Rightarrow> SDPInfo \<Rightarrow> 'c answer_params \<Rightarrow>
   error + SDPInfo" where
  "answer ans s params =
     (let a = SDPInfo_new None;
          a = (if params_ice params \<noteq> None then setDTLS (params_dtls params) a else a);
          a = (if params_dtls params \<noteq> None then setICE (params_ice params) a else a);
          a = (case params_candidates params of None \<Rightarrow> a | Some cs \<Rightarrow> addCandidates cs a)
      in answer_medias ans (params_capabilities params) (medias s) a)"

section \<open>The attribute tree of the text layer\<close>

text \<open>
  SDPInfo.process reads the tree that \<open>SDPTransform.parse\<close> returns for the text, and
  SDPInfo.toString builds the tree that it hands to \<open>SDPTransform.write\<close>. The text
  layer is a library outside the repository; the model starts and ends at the tree. The
  records hold the fields the two functions read or write. A field that the code tests
  before it reads it may be absent (\<open>None\<close>); an array that is absent is read like an
  empty one, a loop \<open>for (let j in a)\<close> over \<open>undefined\<close> having no iteration.
\<close>

record rtp_attr =
  rtp_payload :: int
  rtp_codec :: string
  rtp_rate :: "int option"
  rtp_encoding :: "int option"

record fmtp_attr =
  fmtp_payload :: int
  fmtp_config :: string

record rtcpFb_attr =
  fb_payload :: int
  fb_type :: string
  fb_subtype :: "string option"

record ext_attr =
  ext_value :: int
  ext_uri :: string

record bandwidth_attr =
  bw_type :: string
  bw_limit :: int

record candidate_attr =
  ca_foundation :: string
  ca_component :: int
  ca_transport :: string
  ca_priority :: int
  ca_ip :: string
  ca_port :: int
  ca_type :: string

record fingerprint_attr =
  fp_type :: "string option"
  fp_hash :: "string option"

record rid_attr =
  ra_id :: string
  ra_direction :: "string option"
  ra_params :: "string option"

record simulcast_attr =
  dir1 :: "string option"
  list1 :: "string option"
  dir2 :: "string option"
  list2 :: "string option"

record ssrc_attr =
  ssrc_id :: int
  ssrc_attribute :: string
  ssrc_value :: "string option"

record ssrcGroup_attr =
  sg_semantics :: string
  sg_ssrcs :: string

record media_description =
  md_type :: string
  md_port :: int
  md_protocol :: string
  md_payloads :: string
  md_direction :: "string option"
  md_rtcpMux :: "string option"
  md_rtcpRsize :: "string option"
  md_mid :: string
  md_bandwidth :: "bandwidth_attr list"
  md_candidates :: "candidate_attr list"
  md_iceUfrag :: "string option"
  md_icePwd :: "string option"
  md_fingerprint :: "fingerprint_attr option"
  md_setup :: "string option"
  md_rtp :: "rtp_attr list"
  md_fmtp :: "fmtp_attr list"
  md_rtcpFb :: "rtcpFb_attr list"
  md_ext :: "ext_attr list"
  md_rids :: "rid_attr list"
  md_simulcast :: "simulcast_attr option"
  md_ssrcGroups :: "ssrcGroup_attr list"
  md_ssrcs :: "ssrc_attr list"
  md_msid :: "string option"

record origin_attr =
  o_username :: string
  o_sessionId :: int
  o_sessionVersion :: int
  o_netType :: string
  o_ipVer :: int
  o_address :: string

record group_attr =
  g_type :: string
  g_mids :: string

record sdp_tree =
  sdp_version :: int
  sdp_origin :: "origin_attr option"
  sdp_name :: "string option"
  sdp_connection :: "(int \<times> string) option"
  sdp_timing :: "(int \<times> int) option"
  sdp_icelite :: "string option"
  sdp_msidSemantic :: "(string \<times> string) option"
  sdp_groups :: "group_attr list"
  sdp_fingerprint :: "fingerprint_attr option"
  sdp_media :: "media_description list"

section \<open>SDPInfo.process\<close>

subsection \<open>Codecs\<close>

text \<open>
  The format parameters of a payload type: every fmtp entry of that payload type is
  split at \<open>;\<close>, each piece is split at \<open>=\<close>, and
  \<open>params[param[0].trim()] = (param[1] || "").trim()\<close> stores the trimmed first part
  as key with the trimmed second part, or the empty string when there is none, as
  value. \<open>params\<close> is a plain object: a finite map in the order of first assignment.
  (\<open>split\<close> returns at least one piece, so the first case below is never taken.)
\<close>

definition set_param :: "string \<Rightarrow> (string \<times> string) list \<Rightarrow> (string \<times> string) list" where
  "set_param item params =
     (case split CHR ''='' item of
        [] \<Rightarrow> params
      | [k] \<Rightarrow> Map_set (trim k) (trim []) params
      | k # v # _ \<Rightarrow> Map_set (trim k) (trim v) params)"

definition parse_config :: "string \<Rightarrow> (string \<times> string) list \<Rightarrow> (string \<times> string) list" where
  "parse_config config params = fold set_param (split CHR '';'' config) params"

definition fmtp_params :: "fmtp_attr list \<Rightarrow> int \<Rightarrow> (string \<times> string) list" where
  "fmtp_params fmtps t =
     fold (\<lambda>fmtp params. if fmtp_payload fmtp = t then parse_config (fmtp_config fmtp) params
                          else params) fmtps []"

text \<open>
  The loop over the rtp entries: RED and ULPFEC are skipped, an RTX entry records
  \<open>apts.set(parseInt(params.apt), type)\<close>, every other entry adds a codec.
\<close>

fun process_rtp ::
  "fmtp_attr list \<Rightarrow> rtp_attr list \<Rightarrow> MediaInfo \<times> (jsval \<times> int) list \<Rightarrow>
   MediaInfo \<times> (jsval \<times> int) list" where
  "process_rtp fmtps [] st = st"
| "process_rtp fmtps (fmt # rest) (mediaInfo, apts) =
     (let t = rtp_payload fmt; codec = rtp_codec fmt
      in if toUpperCase codec = ''RED'' \<or> toUpperCase codec = ''ULPFEC''
         then process_rtp fmtps rest (mediaInfo, apts)
         else
           (let params = fmtp_params fmtps t
            in if toUpperCase codec = ''RTX''
               then process_rtp fmtps rest
                      (mediaInfo, Map_set (parseInt_opt (Map_get params ''apt'')) t apts)
               else process_rtp fmtps rest
                      (addCodec (CodecInfo_new codec t params) mediaInfo, apts)))"

text \<open>
  The loop over the recorded apts: \<open>codecInfo.setRTX\<close> changes the codec object that
  \<open>getCodecForType\<close> found in the media; the model writes the changed codec back under
  the key it was found at.
\<close>

definition store_codec :: "jsval \<Rightarrow> CodecInfo \<Rightarrow> MediaInfo \<Rightarrow> MediaInfo" where
  "store_codec t c m =
     (case t of Number n \<Rightarrow> m\<lparr>media_codecs := Map_set n c (media_codecs m)\<rparr> | _ \<Rightarrow> m)"

definition set_rtx :: "jsval \<times> int \<Rightarrow> MediaInfo \<Rightarrow> MediaInfo" where
  "set_rtx apt mediaInfo =
     (case getCodecForType mediaInfo (fst apt) of
        None \<Rightarrow> mediaInfo
      | Some codecInfo \<Rightarrow> store_codec (fst apt) (setRTX (snd apt) codecInfo) mediaInfo)"

definition process_codecs :: "media_description \<Rightarrow> MediaInfo \<Rightarrow> MediaInfo" where
  "process_codecs md mediaInfo =
     (case process_rtp (md_fmtp md) (md_rtp md) (mediaInfo, []) of
        (mediaInfo', apts) \<Rightarrow> fold set_rtx apts mediaInfo')"

subsection \<open>Extensions, RIDs and simulcast\<close>

definition addExtension :: "int \<Rightarrow> string \<Rightarrow> MediaInfo \<Rightarrow> MediaInfo" where
  "addExtension i uri m = m\<lparr>media_extensions := Map_set i uri (media_extensions m)\<rparr>"

definition addRID :: "RIDInfo \<Rightarrow> MediaInfo \<Rightarrow> MediaInfo" where
  "addRID r m = m\<lparr>media_rids := Map_set (rid_id r) r (media_rids m)\<rparr>"

definition getRID :: "MediaInfo \<Rightarrow> string \<Rightarrow> RIDInfo option" where
  "getRID m i = Map_get (media_rids m) i"

text \<open>
  Modelled from the spec: \<open>SDPTransform.parseParams\<close> and
  \<open>SDPTransform.parseSimulcastStreamList\<close>, two functions of the text layer. The first
  reads a parameter string with the grammar of the fmtp parameters; the second reads
  alternative sets separated by \<open>;\<close>, the choices of a set separated by \<open>,\<close>, each an
  id with \<open>~\<close> in front when it is paused.
\<close>

definition parseParams :: "string \<Rightarrow> (string \<times> string) list" where
  "parseParams str = parse_config str []"

definition parseSimulcastStream :: "string \<Rightarrow> SimulcastStreamInfo" where
  "parseSimulcastStream f =
     (case f of
        [] \<Rightarrow> \<lparr>scid = [], paused = False\<rparr>
      | c # r \<Rightarrow> if c = CHR ''~'' then \<lparr>scid = r, paused = True\<rparr>
                 else \<lparr>scid = f, paused = False\<rparr>)"

definition parseSimulcastStreamList :: "string \<Rightarrow> SimulcastStreamInfo list list" where
  "parseSimulcastStreamList str =
     map (\<lambda>alt. map parseSimulcastStream (split CHR '','' alt)) (split CHR '';'' str)"

definition process_rid :: "rid_attr \<Rightarrow> MediaInfo \<Rightarrow> MediaInfo" where
  "process_rid rid mediaInfo =
     (let ridInfo = \<lparr>rid_id = ra_id rid, rid_direction = DirectionWay_byValue (js_str (ra_direction rid)),
                     rid_formats = [], rid_params = []\<rparr>
      in if truthy (ra_params rid)
         then
           (let l = parseParams (js_str (ra_params rid));
                formats = fold (\<lambda>(k, v) fs. if k = ''pt'' then split CHR '','' v else fs) l [];
                params = fold (\<lambda>(k, v) ps. if k = ''pt'' then ps else Map_set k v ps) l []
            in addRID (ridInfo\<lparr>rid_formats := formats, rid_params := params\<rparr>) mediaInfo)
         else addRID ridInfo mediaInfo)"

definition process_simulcast_dir ::
  "string option \<Rightarrow> string option \<Rightarrow> SimulcastInfo \<Rightarrow> error + SimulcastInfo" where
  "process_simulcast_dir d l simulcast =
     (if truthy d
      then
        (case l of
           None \<Rightarrow> Inl (NullDereference ''split'')
         | Some str \<Rightarrow>
             Inr (fold (addSimulcastAlternativeStreams (DirectionWay_byValue (js_str d)))
                    (parseSimulcastStreamList str) simulcast))
      else Inr simulcast)"

text \<open>
  The sending encodings: one TrackEncodingInfo per stream of a sending alternative
  whose id is a RID of the media, with the codecs of the formats of the RID that
  \<open>getCodecForType\<close> finds; an alternative with no such stream is left out.
\<close>

definition make_encoding :: "MediaInfo \<Rightarrow> SimulcastStreamInfo \<Rightarrow> TrackEncodingInfo option" where
  "make_encoding mediaInfo st =
     (case getRID mediaInfo (scid st) of
        None \<Rightarrow> None
      | Some ridInfo \<Rightarrow>
          Some \<lparr>enc_id = scid st, enc_paused = paused st,
                enc_codecs = List.map_filter (\<lambda>f. getCodecForType mediaInfo (String f))
                               (rid_formats ridInfo),
                enc_params = rid_params ridInfo\<rparr>)"

definition make_encodings :: "MediaInfo \<Rightarrow> SimulcastInfo \<Rightarrow> TrackEncodingInfo list list" where
  "make_encodings mediaInfo simulcast =
     filter (\<lambda>alternatives. alternatives \<noteq> [])
       (map (List.map_filter (make_encoding mediaInfo)) (sim_send simulcast))"

definition process_simulcast ::
  "media_description \<Rightarrow> MediaInfo \<Rightarrow> error + MediaInfo \<times> TrackEncodingInfo list list" where
  "process_simulcast md mediaInfo =
     (case md_simulcast md of
        None \<Rightarrow> Inr (mediaInfo, [])
      | Some a \<Rightarrow>
          (case process_simulcast_dir (dir1 a) (list1 a) \<lparr>sim_send = [], sim_recv = []\<rparr> of
             Inl e \<Rightarrow> Inl e
           | Inr s1 \<Rightarrow>
               (case process_simulcast_dir (dir2 a) (list2 a) s1 of
                  Inl e \<Rightarrow> Inl e
                | Inr simulcast \<Rightarrow>
                    Inr (mediaInfo\<lparr>media_simulcast := Some simulcast\<rparr>,
                         make_encodings mediaInfo simulcast))))"

subsection \<open>Sources, streams and tracks\<close>

text \<open>
  Modelled from the spec: SourceInfo, the scratch record of one ssrc with its cname and
  the ids of its stream and track (lib/SourceInfo.js is not among the sources).
\<close>

record SourceInfo =
  source_ssrc :: int
  source_cname :: "string option"
  source_streamId :: "string option"
  source_trackId :: "string option"

definition SourceInfo_new :: "int \<Rightarrow> SourceInfo" where
  "SourceInfo_new s =
     \<lparr>source_ssrc = s, source_cname = None, source_streamId = None, source_trackId = None\<rparr>"

text \<open>
  The second word of an msid, \<open>ids[1]\<close>: \<open>undefined\<close> when the text has no space.
\<close>

definition second :: "string list \<Rightarrow> string option" where
  "second ids = (case ids of _ # t # _ \<Rightarrow> Some t | _ \<Rightarrow> None)"

definition first :: "string list \<Rightarrow> string" where
  "first ids = (case ids of [] \<Rightarrow> [] | s # _ \<Rightarrow> s)"

text \<open>
  The source of an ssrc, and the stream and the track of an msid, are looked up and
  made when they are missing.
  A track that is made gets the encodings, and the media id when the msid is the one of
  the media line. The code then changes the track object in place (\<open>addSSRC\<close>); objects
  are shared by reference, so the change shows in the stream and in the session, and the
  model writes the changed track back under its key.
\<close>

definition lookup_stream :: "SDPInfo \<Rightarrow> string \<Rightarrow> StreamInfo \<times> SDPInfo" where
  "lookup_stream sdpInfo streamId =
     (case getStream sdpInfo streamId of
        None \<Rightarrow> (StreamInfo_new streamId, addStream (StreamInfo_new streamId) sdpInfo)
      | Some stream \<Rightarrow> (stream, sdpInfo))"

definition lookup_track ::
  "StreamInfo \<Rightarrow> string option \<Rightarrow> TrackInfo \<Rightarrow> TrackInfo \<times> StreamInfo" where
  "lookup_track stream trackId fresh =
     (case getTrack stream trackId of
        None \<Rightarrow> (fresh, addTrack fresh stream)
      | Some track \<Rightarrow> (track, stream))"

definition store_track :: "string \<Rightarrow> string option \<Rightarrow> TrackInfo \<Rightarrow> StreamInfo \<Rightarrow> SDPInfo \<Rightarrow> SDPInfo" where
  "store_track streamId trackId track stream sdpInfo =
     sdpInfo\<lparr>streams :=
       Map_set streamId (stream\<lparr>tracks := Map_set trackId track (tracks stream)\<rparr>)
         (streams sdpInfo)\<rparr>"

definition lookup_source ::
  "(int \<times> SourceInfo) list \<Rightarrow> int \<Rightarrow> SourceInfo \<times> (int \<times> SourceInfo) list" where
  "lookup_source sources ssrc =
     (case Map_get sources ssrc of
        None \<Rightarrow> (SourceInfo_new ssrc, Map_set ssrc (SourceInfo_new ssrc) sources)
      | Some source \<Rightarrow> (source, sources))"

definition process_ssrc ::
  "string \<Rightarrow> TrackEncodingInfo list list \<Rightarrow> ssrc_attr \<Rightarrow>
   SDPInfo \<times> (int \<times> SourceInfo) list \<Rightarrow> error + SDPInfo \<times> (int \<times> SourceInfo) list" where
  "process_ssrc media encodings ssrcAttr st =
     (let sdpInfo = fst st;
          ssrc = ssrc_id ssrcAttr; key = ssrc_attribute ssrcAttr; v = ssrc_value ssrcAttr;
          (source, sources) = lookup_source (snd st) ssrc
      in if toLowerCase key = ''cname''
         then Inr (sdpInfo, Map_set ssrc (source\<lparr>source_cname := v\<rparr>) sources)
         else if toLowerCase key = ''msid''
         then
           (case v of
              None \<Rightarrow> Inl (NullDereference ''split'')
            | Some txt \<Rightarrow>
                (let ids = split CHR '' '' txt;
                     streamId = first ids;
                     trackId = second ids;
                     source' = source\<lparr>source_streamId := Some streamId, source_trackId := trackId\<rparr>;
                     (stream, sdpInfo1) = lookup_stream sdpInfo streamId;
                     (track, stream1) =
                        lookup_track stream trackId
                          ((TrackInfo_new media trackId)\<lparr>track_encodings := encodings\<rparr>)
                 in Inr (store_track streamId trackId (addSSRC ssrc track) stream1 sdpInfo1,
                         Map_set ssrc source' sources)))
         else Inr (sdpInfo, sources))"

fun process_ssrcs ::
  "string \<Rightarrow> TrackEncodingInfo list list \<Rightarrow> ssrc_attr list \<Rightarrow>
   SDPInfo \<times> (int \<times> SourceInfo) list \<Rightarrow> error + SDPInfo \<times> (int \<times> SourceInfo) list" where
  "process_ssrcs media encodings [] st = Inr st"
| "process_ssrcs media encodings (a # rest) st =
     (case process_ssrc media encodings a st of
        Inl e \<Rightarrow> Inl e
      | Inr st' \<Rightarrow> process_ssrcs media encodings rest st')"

text \<open>
  The msid of the media line: every source with no stream id yet (\<open>undefined\<close> or
  empty) is given the stream and track of the msid, and its ssrc is added to the track.
\<close>

definition process_msid ::
  "media_description \<Rightarrow> TrackEncodingInfo list list \<Rightarrow>
   SDPInfo \<times> (int \<times> SourceInfo) list \<Rightarrow> SDPInfo \<times> (int \<times> SourceInfo) list" where
  "process_msid md encodings st =
     (if truthy (md_msid md)
      then
        (let sdpInfo = fst st; sources = snd st;
             ids = split CHR '' '' (js_str (md_msid md));
             streamId = first ids;
             trackId = second ids;
             (stream, sdpInfo1) = lookup_stream sdpInfo streamId;
             (track, stream1) =
                lookup_track stream trackId
                  ((TrackInfo_new (md_type md) trackId)
                     \<lparr>track_mediaId := Some (md_mid md), track_encodings := encodings\<rparr>);
             free = filter (\<lambda>(ssrc, source). \<not> truthy (source_streamId source)) sources;
             track' = fold addSSRC (map fst free) track;
             sources' = map (\<lambda>(ssrc, source).
                              (ssrc, if \<not> truthy (source_streamId source)
                                     then source\<lparr>source_streamId := Some streamId,
                                                 source_trackId := trackId\<rparr>
                                     else source)) sources
         in (store_track streamId trackId track' stream1 sdpInfo1, sources'))
      else st)"

text \<open>
  An ssrc group is added to the track that the source of its first ssrc names:
  \<open>sources.get(parseInt(ssrcs[0]))\<close>, then \<open>getStream\<close> of its stream id, then
  \<open>getTrack\<close> of its track id, each result used with no test.
\<close>

definition get_source :: "(int \<times> SourceInfo) list \<Rightarrow> jsval \<Rightarrow> SourceInfo option" where
  "get_source sources k = (case k of Number n \<Rightarrow> Map_get sources n | _ \<Rightarrow> None)"

definition process_ssrcGroup ::
  "(int \<times> SourceInfo) list \<Rightarrow> ssrcGroup_attr \<Rightarrow> SDPInfo \<Rightarrow> error + SDPInfo" where
  "process_ssrcGroup sources ssrcGroupAttr sdpInfo =
     (let ssrcs = split CHR '' '' (sg_ssrcs ssrcGroupAttr);
          group = SourceGroupInfo_new (sg_semantics ssrcGroupAttr) ssrcs
      in case get_source sources (parseInt (first ssrcs)) of
           None \<Rightarrow> Inl (NullDereference ''getStreamId'')
         | Some source \<Rightarrow>
             (case source_streamId source of
                None \<Rightarrow> Inl (NullDereference ''getTrack'')
              | Some streamId \<Rightarrow>
                  (case getStream sdpInfo streamId of
                     None \<Rightarrow> Inl (NullDereference ''getTrack'')
                   | Some stream \<Rightarrow>
                       (case getTrack stream (source_trackId source) of
                          None \<Rightarrow> Inl (NullDereference ''addSourceGroup'')
                        | Some track \<Rightarrow>
                            Inr (store_track streamId (source_trackId source)
                                   (addSourceGroup group track) stream sdpInfo)))))"

fun process_ssrcGroups ::
  "(int \<times> SourceInfo) list \<Rightarrow> ssrcGroup_attr list \<Rightarrow> SDPInfo \<Rightarrow> error + SDPInfo" where
  "process_ssrcGroups sources [] sdpInfo = Inr sdpInfo"
| "process_ssrcGroups sources (g # rest) sdpInfo =
     (case process_ssrcGroup sources g sdpInfo of
        Inl e \<Rightarrow> Inl e
      | Inr sdpInfo' \<Rightarrow> process_ssrcGroups sources rest sdpInfo')"

subsection \<open>One media line, and the session\<close>

definition process_media ::
  "fingerprint_attr option \<Rightarrow> media_description \<Rightarrow> SDPInfo \<Rightarrow> error + SDPInfo" where
  "process_media global_fingerprint md sdpInfo0 =
     (let media = md_type md; mid = md_mid md;
          mediaInfo = MediaInfo_new mid media;
          sdpInfo1 = setICE (Some (ICEInfo_new (md_iceUfrag md) (md_icePwd md))) sdpInfo0
      in case (case md_fingerprint md of None \<Rightarrow> global_fingerprint | Some f \<Rightarrow> Some f) of
           None \<Rightarrow> Inl (NullDereference ''type'')
         | Some fingerprintAttr \<Rightarrow>
             (let setup = (if truthy (md_setup md) then Setup_byValue (js_str (md_setup md))
                           else Some ACTPASS);
                  sdpInfo2 = setDTLS (Some \<lparr>dtls_setup = setup, dtls_hash = fp_type fingerprintAttr,
                                            dtls_fingerprint = fp_hash fingerprintAttr\<rparr>) sdpInfo1;
                  direction = (if truthy (md_direction md)
                               then Direction_byValue (js_str (md_direction md))
                               else Some SENDRECV);
                  mediaInfo1 = mediaInfo\<lparr>media_direction := direction\<rparr>;
                  mediaInfo2 = process_codecs md mediaInfo1;
                  mediaInfo3 = fold (\<lambda>extmap. addExtension (ext_value extmap) (ext_uri extmap))
                                 (md_ext md) mediaInfo2;
                  mediaInfo4 = fold process_rid (md_rids md) mediaInfo3
              in case process_simulcast md mediaInfo4 of
                   Inl e \<Rightarrow> Inl e
                 | Inr (mediaInfo5, encodings) \<Rightarrow>
                     (case process_ssrcs media encodings (md_ssrcs md) (sdpInfo2, []) of
                        Inl e \<Rightarrow> Inl e
                      | Inr st \<Rightarrow>
                          (case process_msid md encodings st of
                             (sdpInfo3, sources) \<Rightarrow>
                               (case process_ssrcGroups sources (md_ssrcGroups md) sdpInfo3 of
                                  Inl e \<Rightarrow> Inl e
                                | Inr sdpInfo4 \<Rightarrow> Inr (addMedia mediaInfo5 sdpInfo4))))))"

fun process_medias ::
  "fingerprint_attr option \<Rightarrow> media_description list \<Rightarrow> SDPInfo \<Rightarrow> error + SDPInfo" where
  "process_medias fp [] sdpInfo = Inr sdpInfo"
| "process_medias fp (md # rest) sdpInfo =
     (case process_media fp md sdpInfo of
        Inl e \<Rightarrow> Inl e
      | Inr sdpInfo' \<Rightarrow> process_medias fp rest sdpInfo')"

text \<open>
  process, from the tree that \<open>SDPTransform.parse\<close> returned for its argument.
\<close>

definition process :: "sdp_tree \<Rightarrow> error + SDPInfo" where
  "process sdp =
     process_medias (sdp_fingerprint sdp) (sdp_media sdp)
       (setVersion (sdp_version sdp) (SDPInfo_new None))"

section \<open>SDPInfo.toString\<close>

subsection \<open>One media line\<close>

definition candidate_line :: "CandidateInfo \<Rightarrow> candidate_attr" where
  "candidate_line candidate =
     \<lparr>ca_foundation = cand_foundation candidate, ca_component = cand_componentId candidate,
      ca_transport = cand_transport candidate, ca_priority = cand_priority candidate,
      ca_ip = cand_address candidate, ca_port = cand_port candidate,
      ca_type = cand_type candidate\<rparr>"

text \<open>
  The body of the loop over the codecs of a media. The condition of the feedback block
  is written \<open>!"flex-fec"===codec.getCodec().toLowerCase()\<close>: the operator \<open>!\<close> binds
  tighter than \<open>===\<close>, so it compares the boolean \<open>!"flex-fec"\<close> with a string.
\<close>

definition toString_codec :: "string \<Rightarrow> CodecInfo \<Rightarrow> media_description \<Rightarrow> media_description" where
  "toString_codec mtype codec md =
     (let md1 =
        (if ''video'' = toLowerCase mtype
         then
           (let md' = md\<lparr>md_rtp := md_rtp md @
                        [\<lparr>rtp_payload = codec_type codec, rtp_codec = codec_name codec,
                          rtp_rate = Some 90000, rtp_encoding = None\<rparr>]\<rparr>
            in if strict_equals (logical_not (String ''flex-fec''))
                    (String (toLowerCase (codec_name codec)))
               then md'\<lparr>md_rtcpFb := md_rtcpFb md' @
                      [\<lparr>fb_payload = codec_type codec, fb_type = ''nack'', fb_subtype = Some ''pli''\<rparr>,
                       \<lparr>fb_payload = codec_type codec, fb_type = ''goog-remb'', fb_subtype = None\<rparr>]\<rparr>
               else md')
         else if ''opus'' = toLowerCase (codec_name codec)
         then md\<lparr>md_rtp := md_rtp md @
                  [\<lparr>rtp_payload = codec_type codec, rtp_codec = codec_name codec,
                    rtp_rate = Some 48000, rtp_encoding = Some 2\<rparr>]\<rparr>
         else md\<lparr>md_rtp := md_rtp md @
                  [\<lparr>rtp_payload = codec_type codec, rtp_codec = codec_name codec,
                    rtp_rate = Some 8000, rtp_encoding = None\<rparr>]\<rparr>);
          md2 = md1\<lparr>md_rtcpFb := md_rtcpFb md1 @
                  [\<lparr>fb_payload = codec_type codec, fb_type = ''transport-cc'', fb_subtype = None\<rparr>]\<rparr>
      in case codec_rtx codec of
           None \<Rightarrow> md2
         | Some rtx \<Rightarrow>
             md2\<lparr>md_rtp := md_rtp md2 @
                   [\<lparr>rtp_payload = rtx, rtp_codec = ''rtx'', rtp_rate = Some 90000,
                     rtp_encoding = None\<rparr>],
                 md_fmtp := md_fmtp md2 @
                   [\<lparr>fmtp_payload = rtx,
                     fmtp_config = ''apt='' @ Number_toString (codec_type codec)\<rparr>]\<rparr>)"

text \<open>
  The parameter string of a RID, and the stream list of a simulcast direction: each
  piece is appended with a separator in front when the text so far is not empty.
\<close>

definition rid_line :: "RIDInfo \<Rightarrow> rid_attr" where
  "rid_line ridInfo =
     \<lparr>ra_id = rid_id ridInfo,
      ra_direction = DirectionWay_toString (rid_direction ridInfo),
      ra_params = Some
        (fold (\<lambda>(key, v) params. params @ (if params \<noteq> [] then '';'' else []) @ key @ ''='' @ v)
           (rid_params ridInfo)
           (if rid_formats ridInfo \<noteq> [] then ''pt='' @ join '','' (rid_formats ridInfo) else []))\<rparr>"

definition alternatives_text :: "SimulcastStreamInfo list \<Rightarrow> string" where
  "alternatives_text alts =
     fold (\<lambda>st alternatives.
             alternatives @ (if alternatives \<noteq> [] then '','' else [])
               @ (if paused st then ''~'' else []) @ scid st) alts []"

definition stream_list_text :: "SimulcastStreamInfo list list \<Rightarrow> string" where
  "stream_list_text sts =
     fold (\<lambda>alts l. l @ (if l \<noteq> [] then '';'' else []) @ alternatives_text alts) sts []"

definition simulcast_line :: "SimulcastInfo \<Rightarrow> simulcast_attr" where
  "simulcast_line simulcast =
     (let send = sim_send simulcast; recv = sim_recv simulcast
      in if send \<noteq> []
         then
           (if recv \<noteq> []
            then \<lparr>dir1 = Some ''send'', list1 = Some (stream_list_text send),
                  dir2 = Some ''recv'', list2 = Some (stream_list_text recv)\<rparr>
            else \<lparr>dir1 = Some ''send'', list1 = Some (stream_list_text send),
                  dir2 = None, list2 = None\<rparr>)
         else
           (if recv \<noteq> []
            then \<lparr>dir1 = Some ''recv'', list1 = Some (stream_list_text recv),
                  dir2 = None, list2 = None\<rparr>
            else \<lparr>dir1 = None, list1 = None, dir2 = None, list2 = None\<rparr>))"

text \<open>
  The media description of one media. \<open>this.getDTLS().getHash()\<close> raises when the
  session has no dtls; the ice object was used before the loop and is not \<open>null\<close> here.
\<close>

definition toString_media :: "SDPInfo \<Rightarrow> ICEInfo \<Rightarrow> MediaInfo \<Rightarrow> error + media_description" where
  "toString_media s i media =
     (case dtls s of
        None \<Rightarrow> Inl (NullDereference ''getHash'')
      | Some d \<Rightarrow>
          (let md = \<lparr>md_type = media_type media, md_port = 9, md_protocol = ''UDP/TLS/RTP/SAVPF'',
                     md_payloads = [],
                     md_direction = Direction_toString (media_direction media),
                     md_rtcpMux = Some ''rtcp-mux'', md_rtcpRsize = Some ''rtcp-rsize'',
                     md_mid = media_id media,
                     md_bandwidth = (if media_bitrate media > 0
                                     then [\<lparr>bw_type = ''AS'', bw_limit = media_bitrate media\<rparr>]
                                     else []),
                     md_candidates = map candidate_line (candidates s),
                     md_iceUfrag = ufrag i, md_icePwd = pwd i,
                     md_fingerprint = Some \<lparr>fp_type = dtls_hash d, fp_hash = dtls_fingerprint d\<rparr>,
                     md_setup = Setup_toString (dtls_setup d),
                     md_rtp = [], md_fmtp = [], md_rtcpFb = [], md_ext = [], md_rids = [],
                     md_simulcast = None, md_ssrcGroups = [], md_ssrcs = [], md_msid = None\<rparr>;
               md1 = fold (toString_codec (media_type media)) (Map_values (media_codecs media)) md;
               md2 = md1\<lparr>md_payloads :=
                       join '' '' (map (\<lambda>r. Number_toString (rtp_payload r)) (md_rtp md1))\<rparr>;
               md3 = md2\<lparr>md_ext := map (\<lambda>(i, uri). \<lparr>ext_value = i, ext_uri = uri\<rparr>)
                                        (media_extensions media)\<rparr>;
               md4 = md3\<lparr>md_rids := map rid_line (Map_values (media_rids media))\<rparr>
           in Inr (md4\<lparr>md_simulcast := map_option simulcast_line (media_simulcast media)\<rparr>)))"

fun toString_medias :: "SDPInfo \<Rightarrow> ICEInfo \<Rightarrow> MediaInfo list \<Rightarrow> error + media_description list" where
  "toString_medias s i [] = Inr []"
| "toString_medias s i (media # rest) =
     (case toString_media s i media of
        Inl e \<Rightarrow> Inl e
      | Inr md \<Rightarrow>
          (case toString_medias s i rest of
             Inl e \<Rightarrow> Inl e
           | Inr mds \<Rightarrow> Inr (md # mds)))"

subsection \<open>The pass over the streams and tracks\<close>

definition group_line :: "SourceGroupInfo \<Rightarrow> ssrcGroup_attr" where
  "group_line g =
     \<lparr>sg_semantics = group_semantics g,
      sg_ssrcs = join '' '' (map jsval_toString (group_ssrcs g))\<rparr>"

definition cname_line :: "string \<Rightarrow> int \<Rightarrow> ssrc_attr" where
  "cname_line streamId ssrc =
     \<lparr>ssrc_id = ssrc, ssrc_attribute = ''cname'', ssrc_value = Some streamId\<rparr>"

definition msid_text :: "string \<Rightarrow> TrackInfo \<Rightarrow> string" where
  "msid_text streamId track = streamId @ '' '' @ js_str (track_id track)"

definition msid_line :: "string \<Rightarrow> TrackInfo \<Rightarrow> int \<Rightarrow> ssrc_attr" where
  "msid_line streamId track ssrc =
     \<lparr>ssrc_id = ssrc, ssrc_attribute = ''msid'', ssrc_value = Some (msid_text streamId track)\<rparr>"

text \<open>
  What a track adds to the media description it is bound to by its media id (the
  unified form), and to one of its media type (the plan B form).
\<close>

definition attach_unified :: "string \<Rightarrow> TrackInfo \<Rightarrow> media_description \<Rightarrow> media_description" where
  "attach_unified streamId track md =
     md\<lparr>md_ssrcGroups := md_ssrcGroups md @ map group_line (track_groups track),
        md_ssrcs := md_ssrcs md @ map (cname_line streamId) (track_ssrcs track),
        md_msid := Some (msid_text streamId track)\<rparr>"

definition attach_planB :: "string \<Rightarrow> TrackInfo \<Rightarrow> media_description \<Rightarrow> media_description" where
  "attach_planB streamId track md =
     md\<lparr>md_ssrcGroups := md_ssrcGroups md @ map group_line (track_groups track),
        md_ssrcs := md_ssrcs md @
          concat (map (\<lambda>ssrc. [cname_line streamId ssrc, msid_line streamId track ssrc])
                    (track_ssrcs track))\<rparr>"

text \<open>
  The loop over the media descriptions for one track. Both branches that attach the
  track end with \<open>break\<close>: the descriptions after the first match are not visited.
\<close>

fun attach_track :: "string \<Rightarrow> TrackInfo \<Rightarrow> media_description list \<Rightarrow> media_description list" where
  "attach_track streamId track [] = []"
| "attach_track streamId track (md # rest) =
     (if truthy (track_mediaId track)
      then
        (if track_mediaId track = Some (md_mid md)
         then attach_unified streamId track md # rest
         else md # attach_track streamId track rest)
      else if toLowerCase (md_type md) = toLowerCase (track_media track)
      then attach_planB streamId track md # rest
      else md # attach_track streamId track rest)"

definition toString_tracks ::
  "(string \<times> StreamInfo) list \<Rightarrow> media_description list \<Rightarrow> media_description list" where
  "toString_tracks sts mds =
     fold (\<lambda>stream. fold (attach_track (stream_id stream)) (Map_values (tracks stream)))
       (Map_values sts) mds"

subsection \<open>The session\<close>

text \<open>
  toString, up to the tree it hands to \<open>SDPTransform.write\<close>. The session id of the
  origin is \<open>(new Date()).getTime()\<close>: the reading of the clock is the parameter
  \<open>now\<close>. The first use of the ice object is the call \<open>this.getICE().isLite()\<close>.
\<close>

definition toString :: "int \<Rightarrow> SDPInfo \<Rightarrow> error + sdp_tree" where
  "toString now s =
     (case ice s of
        None \<Rightarrow> Inl (NullDereference ''isLite'')
      | Some i \<Rightarrow>
          (case ICEInfo_isLite i of
             Inl e \<Rightarrow> Inl e
           | Inr l \<Rightarrow>
               (case toString_medias s i (medias s) of
                  Inl e \<Rightarrow> Inl e
                | Inr mds \<Rightarrow>
                    Inr \<lparr>sdp_version = 0,
                         sdp_origin = Some \<lparr>o_username = ''-'', o_sessionId = now,
                                            o_sessionVersion = version s, o_netType = ''IN'',
                                            o_ipVer = 4, o_address = ''127.0.0.1''\<rparr>,
                         sdp_name = Some ''semantic-sdp'',
                         sdp_connection = Some (4, ''0.0.0.0''),
                         sdp_timing = Some (0, 0),
                         sdp_icelite = (if l then Some ''ice-lite'' else None),
                         sdp_msidSemantic = Some (''WMS'', ''*''),
                         sdp_groups = [\<lparr>g_type = ''BUNDLE'',
                                         g_mids = join '' '' (map media_id (medias s))\<rparr>],
                         sdp_fingerprint = None,
                         sdp_media = toString_tracks (streams s) mds\<rparr>)))"

section \<open>Example inputs\<close>

text \<open>
  A media description with a fingerprint and no other attribute, and a tree with given
  media descriptions: the inputs of the examples below are made from them.
\<close>

definition example_md :: "string \<Rightarrow> string \<Rightarrow> media_description" where
  "example_md t mid =
     \<lparr>md_type = t, md_port = 9, md_protocol = ''UDP/TLS/RTP/SAVPF'', md_payloads = [],
      md_direction = None, md_rtcpMux = None, md_rtcpRsize = None, md_mid = mid,
      md_bandwidth = [], md_candidates = [], md_iceUfrag = Some ''u'', md_icePwd = Some ''p'',
      md_fingerprint = Some \<lparr>fp_type = Some ''sha-256'', fp_hash = Some ''AB:CD''\<rparr>,
      md_setup = None, md_rtp = [], md_fmtp = [], md_rtcpFb = [], md_ext = [], md_rids = [],
      md_simulcast = None, md_ssrcGroups = [], md_ssrcs = [], md_msid = None\<rparr>"

definition example_tree :: "media_description list \<Rightarrow> sdp_tree" where
  "example_tree mds =
     \<lparr>sdp_version = 0, sdp_origin = None, sdp_name = None, sdp_connection = None,
      sdp_timing = None, sdp_icelite = None, sdp_msidSemantic = None, sdp_groups = [],
      sdp_fingerprint = None, sdp_media = mds\<rparr>"

definition example_rtp :: "int \<Rightarrow> string \<Rightarrow> rtp_attr" where
  "example_rtp t c = \<lparr>rtp_payload = t, rtp_codec = c, rtp_rate = Some 90000, rtp_encoding = None\<rparr>"

text \<open>
  An ice object that answers \<open>isLite()\<close>, an object of the class ICEInfo, a dtls, and a
  session with given medias and streams.
\<close>

definition example_ice :: ICEInfo where
  "example_ice = \<lparr>ufrag = Some ''u'', pwd = Some ''p'', lite = False, isLite = Some False\<rparr>"

definition example_dtls :: DTLSInfo where
  "example_dtls =
     \<lparr>dtls_setup = Some ACTPASS, dtls_hash = Some ''sha-256'', dtls_fingerprint = Some ''AB:CD''\<rparr>"

definition example_media :: "string \<Rightarrow> string \<Rightarrow> CodecInfo list \<Rightarrow> MediaInfo" where
  "example_media mid t cs = fold addCodec cs (MediaInfo_new mid t)"

definition example_session :: "ICEInfo \<Rightarrow> MediaInfo list \<Rightarrow> StreamInfo list \<Rightarrow> SDPInfo" where
  "example_session i ms sts =
     fold addStream sts (fold addMedia ms
       (setDTLS (Some example_dtls) (setICE (Some i) (SDPInfo_new None))))"

definition example_track :: "string \<Rightarrow> string \<Rightarrow> string option \<Rightarrow> int list \<Rightarrow> TrackInfo" where
  "example_track t i mid ssrcs = fold addSSRC ssrcs ((TrackInfo_new t (Some i))\<lparr>track_mediaId := mid\<rparr>)"

definition example_stream :: "string \<Rightarrow> TrackInfo list \<Rightarrow> StreamInfo" where
  "example_stream i ts = fold addTrack ts (StreamInfo_new i)"

text \<open>
  A video line with an rtp entry VP9 of payload type 100, an rtp entry RTX of payload
  type 101 and an fmtp entry of payload type 101 with a given configuration.
\<close>

definition example_rtx_md :: "string \<Rightarrow> media_description" where
  "example_rtx_md config =
     (example_md ''video'' ''v'')
       \<lparr>md_rtp := [example_rtp 100 ''VP9'', example_rtp 101 ''RTX''],
        md_fmtp := [\<lparr>fmtp_payload = 101, fmtp_config = config\<rparr>]\<rparr>"

text \<open>
  An audio line with given ssrc attributes and the ssrc group \<open>FID 1111 2222\<close>; the
  sources and the session that the attributes \<open>1111 cname:x\<close> and
  \<open>1111 msid:stream1 track1\<close> leave.
\<close>

definition example_ssrc :: "int \<Rightarrow> string \<Rightarrow> string \<Rightarrow> ssrc_attr" where
  "example_ssrc i a v = \<lparr>ssrc_id = i, ssrc_attribute = a, ssrc_value = Some v\<rparr>"

definition example_group :: ssrcGroup_attr where
  "example_group = \<lparr>sg_semantics = ''FID'', sg_ssrcs = ''1111 2222''\<rparr>"

definition example_group_md :: "ssrc_attr list \<Rightarrow> media_description" where
  "example_group_md ssrcs =
     (example_md ''audio'' ''a'')
       \<lparr>md_rtp := [\<lparr>rtp_payload = 111, rtp_codec = ''opus'', rtp_rate = Some 48000,
                    rtp_encoding = Some 2\<rparr>],
        md_ssrcs := ssrcs, md_ssrcGroups := [example_group]\<rparr>"

definition example_sources :: "(int \<times> SourceInfo) list" where
  "example_sources =
     [(1111, \<lparr>source_ssrc = 1111, source_cname = Some ''x'', source_streamId = Some ''stream1'',
              source_trackId = Some ''track1''\<rparr>)]"

definition example_group_session :: SDPInfo where
  "example_group_session =
     example_session (ICEInfo_new (Some ''u'') (Some ''p'')) []
       [example_stream ''stream1'' [example_track ''audio'' ''track1'' None [1111]]]"

text \<open>
  A session with one video media that has the codec VP8 of payload type 96; a session
  with two audio medias and one stream with one audio track that has no media id; a
  stand-in for the answer of a media, and parameters of an answer.
\<close>

definition example_video_session :: "ICEInfo \<Rightarrow> SDPInfo" where
  "example_video_session i =
     example_session i [example_media ''v'' ''video'' [CodecInfo_new ''VP8'' 96 []]] []"

definition example_planB_session :: SDPInfo where
  "example_planB_session =
     example_session example_ice
       [example_media ''a1'' ''audio'' [], example_media ''a2'' ''audio'' []]
       [example_stream ''s1'' [example_track ''audio'' ''t1'' None [1]]]"

definition example_answer :: "MediaInfo \<Rightarrow> nat option \<Rightarrow> error + MediaInfo" where
  "example_answer m c = Inr (m\<lparr>media_bitrate := (case c of None \<Rightarrow> 0 | Some n \<Rightarrow> int n)\<rparr>)"

definition example_candidate :: CandidateInfo where
  "example_candidate =
     \<lparr>cand_foundation = ''1'', cand_componentId = 1, cand_transport = ''udp'',
      cand_priority = 2122260223, cand_address = ''192.168.0.196'', cand_port = 56143,
      cand_type = ''host''\<rparr>"

definition example_params :: "nat answer_params" where
  "example_params =
     \<lparr>params_ice = Some example_ice, params_dtls = Some example_dtls,
      params_candidates = Some [example_candidate],
      params_capabilities = Some (\<lambda>t. if t = ''audio'' then Some 64 else None)\<rparr>"

section \<open>Predicates of the properties\<close>

text \<open>
  A source table in which the ssrc \<open>n\<close> has no stream id, and an ssrc group whose first
  ssrc has no source with a stream id in a source table.
\<close>

definition no_stream :: "(int \<times> SourceInfo) list \<Rightarrow> int \<Rightarrow> bool" where
  "no_stream sources n =
     (case Map_get sources n of None \<Rightarrow> True | Some source \<Rightarrow> source_streamId source = None)"

definition unresolved :: "(int \<times> SourceInfo) list \<Rightarrow> ssrcGroup_attr \<Rightarrow> bool" where
  "unresolved sources g =
     (case get_source sources (parseInt (first (split CHR '' '' (sg_ssrcs g)))) of
        None \<Rightarrow> True
      | Some source \<Rightarrow> source_streamId source = None)"

text \<open>
  The media description that the loop for a track attaches the track to: the one with
  the media id of the track when the track has one, one of the media type of the track
  otherwise.
\<close>

definition track_matches :: "TrackInfo \<Rightarrow> media_description \<Rightarrow> bool" where
  "track_matches track md =
     (if truthy (track_mediaId track) then track_mediaId track = Some (md_mid md)
      else toLowerCase (md_type md) = toLowerCase (track_media track))"

definition attach :: "string \<Rightarrow> TrackInfo \<Rightarrow> media_description \<Rightarrow> media_description" where
  "attach streamId track md =
     (if truthy (track_mediaId track) then attach_unified streamId track md
      else attach_planB streamId track md)"

text \<open>The tree with the session id of its origin replaced.\<close>

definition with_sessionId :: "int \<Rightarrow> sdp_tree \<Rightarrow> sdp_tree" where
  "with_sessionId n t = t\<lparr>sdp_origin := map_option (\<lambda>orig. orig\<lparr>o_sessionId := n\<rparr>) (sdp_origin t)\<rparr>"

text \<open>The type and the ssrc attributes of every media description of a result of toString.\<close>

definition tree_ssrcs :: "error + sdp_tree \<Rightarrow> error + (string \<times> ssrc_attr list) list" where
  "tree_ssrcs r = map_sum id (\<lambda>t. map (\<lambda>md. (md_type md, md_ssrcs md)) (sdp_media t)) r"

text \<open>The decimal digits.\<close>

definition dec :: "char set" where
  "dec = set ''0123456789''"

text \<open>
  The track that a session holds under a stream id and a track id, and the step that
  looks a stream and a track up, makes them when they are missing, and changes the track.
\<close>

definition track_at :: "SDPInfo \<Rightarrow> string \<times> string option \<Rightarrow> TrackInfo option" where
  "track_at s key =
     (case Map_get (streams s) (fst key) of
        None \<Rightarrow> None
      | Some st \<Rightarrow> Map_get (tracks st) (snd key))"

definition upsert_track ::
  "string \<Rightarrow> string option \<Rightarrow> TrackInfo \<Rightarrow> (TrackInfo \<Rightarrow> TrackInfo) \<Rightarrow> SDPInfo \<Rightarrow> SDPInfo" where
  "upsert_track streamId trackId fresh f s =
     (let (stream, s1) = lookup_stream s streamId;
          (track, stream1) = lookup_track stream trackId fresh
      in store_track streamId trackId (f track) stream1 s1)"

text \<open>
  A track with the id of its stream; whether it is bound to a media line by a media id;
  the key of the track in a session; the ssrc attributes and the ssrc groups that
  toString writes for it.
\<close>

definition unified :: "TrackInfo \<Rightarrow> bool" where
  "unified t = truthy (track_mediaId t)"

definition track_key :: "string \<times> TrackInfo \<Rightarrow> string \<times> string option" where
  "track_key p = (fst p, track_id (snd p))"

definition ssrc_block :: "string \<times> TrackInfo \<Rightarrow> ssrc_attr list" where
  "ssrc_block p =
     (if unified (snd p) then map (cname_line (fst p)) (track_ssrcs (snd p))
      else concat (map (\<lambda>ssrc. [cname_line (fst p) ssrc, msid_line (fst p) (snd p) ssrc])
                     (track_ssrcs (snd p))))"

definition group_block :: "string \<times> TrackInfo \<Rightarrow> ssrcGroup_attr list" where
  "group_block p = map group_line (track_groups (snd p))"

text \<open>
  The ids of a stream and a track that an msid carries unchanged: the stream id is not
  empty, the track has an id, and neither id has a space.
\<close>

definition wf_ids :: "string \<times> TrackInfo \<Rightarrow> bool" where
  "wf_ids p =
     (fst p \<noteq> [] \<and> CHR '' '' \<notin> set (fst p)
      \<and> (case track_id (snd p) of None \<Rightarrow> False | Some tid \<Rightarrow> CHR '' '' \<notin> set tid))"

text \<open>The track that process makes for an msid of an ssrc attribute.\<close>

definition new_track :: "string \<Rightarrow> TrackEncodingInfo list list \<Rightarrow> string option \<Rightarrow> TrackInfo" where
  "new_track media encodings trackId = (TrackInfo_new media trackId)\<lparr>track_encodings := encodings\<rparr>"

text \<open>The source that the attributes of a track leave for one of its ssrcs.\<close>

definition source_of :: "string \<times> TrackInfo \<Rightarrow> int \<Rightarrow> SourceInfo" where
  "source_of p x =
     \<lparr>source_ssrc = x, source_cname = Some (fst p),
      source_streamId = (if unified (snd p) then None else Some (fst p)),
      source_trackId = (if unified (snd p) then None else track_id (snd p))\<rparr>"

text \<open>A source table whose entries are keyed by their ssrc, each key once.\<close>

definition sources_ok :: "(int \<times> SourceInfo) list \<Rightarrow> bool" where
  "sources_ok sources =
     (distinct (map fst sources) \<and> list_all (\<lambda>(k, source). source_ssrc source = k) sources)"

text \<open>Two sessions that differ in their streams only.\<close>

definition same_frame :: "SDPInfo \<Rightarrow> SDPInfo \<Rightarrow> bool" where
  "same_frame s' s =
     (medias s' = medias s \<and> ice s' = ice s \<and> dtls s' = dtls s \<and> version s' = version s
      \<and> candidates s' = candidates s)"

text \<open>
  Tracks with different keys, whose ssrcs are owned by one track each.
\<close>

definition disjoint_ssrcs :: "(string \<times> TrackInfo) list \<Rightarrow> bool" where
  "disjoint_ssrcs TR =
     (\<forall>p \<in> set TR. \<forall>q \<in> set TR. p \<noteq> q \<longrightarrow>
        set (track_ssrcs (snd p)) \<inter> set (track_ssrcs (snd q)) = {})"

text \<open>
  An ssrc group whose ssrcs are numbers, the first an ssrc of the track; a source table
  in which every ssrc of every track names the stream and the track it belongs to.
\<close>

definition is_number :: "jsval \<Rightarrow> bool" where
  "is_number v = (case v of Number n \<Rightarrow> True | _ \<Rightarrow> False)"

definition wf_group :: "TrackInfo \<Rightarrow> SourceGroupInfo \<Rightarrow> bool" where
  "wf_group t g =
     (case group_ssrcs g of
        [] \<Rightarrow> False
      | v # vs \<Rightarrow> (case v of Number n \<Rightarrow> n \<in> set (track_ssrcs t) | _ \<Rightarrow> False)
                  \<and> list_all is_number vs)"

definition owned :: "(int \<times> SourceInfo) list \<Rightarrow> (string \<times> TrackInfo) list \<Rightarrow> bool" where
  "owned sources TR =
     (\<forall>p \<in> set TR. \<forall>x \<in> set (track_ssrcs (snd p)).
        \<exists>source. Map_get sources x = Some source \<and> source_streamId source = Some (fst p)
          \<and> source_trackId source = track_id (snd p))"

text \<open>
  The track that process makes for the msid of a media line, and the msid that the
  tracks attached to a media line leave on it.
\<close>

definition new_media_track ::
  "media_description \<Rightarrow> TrackEncodingInfo list list \<Rightarrow> string option \<Rightarrow> TrackInfo" where
  "new_media_track md encodings trackId =
     (TrackInfo_new (md_type md) trackId)
       \<lparr>track_mediaId := Some (md_mid md), track_encodings := encodings\<rparr>"

definition msid_of :: "(string \<times> TrackInfo) list \<Rightarrow> string option" where
  "msid_of TR =
     (case filter (\<lambda>p. unified (snd p)) TR of
        [] \<Rightarrow> None
      | u # us \<Rightarrow> Some (msid_text (fst (last (u # us))) (snd (last (u # us)))))"

text \<open>
  The media that process makes from the attributes of a media line other than those of
  its tracks, before it reads the simulcast attribute; an rtp entry that makes a codec;
  a simulcast attribute that names a list for each direction it names.
\<close>

definition media_part :: "media_description \<Rightarrow> MediaInfo" where
  "media_part md =
     fold process_rid (md_rids md)
       (fold (\<lambda>extmap. addExtension (ext_value extmap) (ext_uri extmap)) (md_ext md)
          (process_codecs md
             ((MediaInfo_new (md_mid md) (md_type md))
                \<lparr>media_direction := (if truthy (md_direction md)
                                      then Direction_byValue (js_str (md_direction md))
                                      else Some SENDRECV)\<rparr>)))"

definition makes_codec :: "string \<Rightarrow> bool" where
  "makes_codec name =
     (toUpperCase name \<noteq> ''RED'' \<and> toUpperCase name \<noteq> ''ULPFEC'' \<and> toUpperCase name \<noteq> ''RTX'')"

definition simulcast_ok :: "simulcast_attr option \<Rightarrow> bool" where
  "simulcast_ok a =
     (case a of
        None \<Rightarrow> True
      | Some b \<Rightarrow> (\<not> truthy (dir1 b) \<or> list1 b \<noteq> None) \<and> (\<not> truthy (dir2 b) \<or> list2 b \<noteq> None))"

text \<open>
  A track that process reads back from the attributes toString wrote for it: its ids
  are carried unchanged, it has an ssrc unless it is bound by a media id, and its
  groups are well formed. Tracks of which at most one is bound by a media id. The
  ssrcs and the groups of a track, which the round trip compares.
\<close>

definition wf_track :: "string \<times> TrackInfo \<Rightarrow> bool" where
  "wf_track p =
     (wf_ids p \<and> (unified (snd p) \<or> track_ssrcs (snd p) \<noteq> [])
      \<and> list_all (wf_group (snd p)) (track_groups (snd p)))"

definition single_unified :: "(string \<times> TrackInfo) list \<Rightarrow> bool" where
  "single_unified TR =
     (\<forall>p \<in> set TR. \<forall>q \<in> set TR. unified (snd p) \<and> unified (snd q) \<longrightarrow> p = q)"

definition same_track :: "TrackInfo \<Rightarrow> TrackInfo \<Rightarrow> bool" where
  "same_track t' t = (set (track_ssrcs t') = set (track_ssrcs t) \<and> track_groups t' = track_groups t)"

text \<open>
  The tracks of a session with the ids of their streams, in the order of the pass of
  toString; the media descriptions after the pass, line by line: a line gets the tracks
  that match it, the later lines get the others.
\<close>

definition all_tracks :: "(string \<times> StreamInfo) list \<Rightarrow> (string \<times> TrackInfo) list" where
  "all_tracks sts =
     concat (map (\<lambda>st. map (Pair (stream_id st)) (Map_values (tracks st))) (Map_values sts))"

fun lines :: "(string \<times> TrackInfo) list \<Rightarrow> media_description list \<Rightarrow> media_description list" where
  "lines TR [] = []"
| "lines TR (md # rest) =
     fold (\<lambda>p. attach (fst p) (snd p)) (filter (\<lambda>p. track_matches (snd p) md) TR) md
       # lines (filter (\<lambda>p. \<not> track_matches (snd p) md) TR) rest"

text \<open>
  A media description as toString makes it before the pass over the tracks, and tracks
  no two of which are bound by the same media id.
\<close>

definition base_md :: "media_description \<Rightarrow> bool" where
  "base_md md =
     (md_ssrcs md = [] \<and> md_ssrcGroups md = [] \<and> md_msid md = None
      \<and> md_fingerprint md \<noteq> None \<and> simulcast_ok (md_simulcast md))"

definition unified_distinct :: "(string \<times> TrackInfo) list \<Rightarrow> bool" where
  "unified_distinct TR =
     (\<forall>p \<in> set TR. \<forall>q \<in> set TR.
        unified (snd p) \<and> unified (snd q) \<and> track_mediaId (snd p) = track_mediaId (snd q)
        \<longrightarrow> p = q)"

text \<open>The payload types of the rtp entries of a media description that make a codec.\<close>

definition codec_payloads :: "media_description \<Rightarrow> int set" where
  "codec_payloads md = rtp_payload ` {f \<in> set (md_rtp md). makes_codec (rtp_codec f)}"

text \<open>
  toString and process with the text layer. toString ends with
  \<open>return SDPTransform.write(sdp)\<close> and process starts with
  \<open>const sdp = SDPTransform.parse(string)\<close>: the writer and the parser belong to
  the library sdp-transform, which is not part of the repository, so they are
  parameters here, and each may raise. The round trip is
  \<open>SDPInfo.process(G.toString())\<close>: process is called when toString has returned.
\<close>

definition toString_text ::
  "(sdp_tree \<Rightarrow> error + string) \<Rightarrow> int \<Rightarrow> SDPInfo \<Rightarrow> error + string" where
  "toString_text wr now s = (case toString now s of Inl e \<Rightarrow> Inl e | Inr t \<Rightarrow> wr t)"

definition process_text :: "(string \<Rightarrow> error + sdp_tree) \<Rightarrow> string \<Rightarrow> error + SDPInfo" where
  "process_text pa str = (case pa str of Inl e \<Rightarrow> Inl e | Inr t \<Rightarrow> process t)"

definition roundtrip ::
  "(sdp_tree \<Rightarrow> error + string) \<Rightarrow> (string \<Rightarrow> error + sdp_tree) \<Rightarrow> int \<Rightarrow> SDPInfo
     \<Rightarrow> error + SDPInfo" where
  "roundtrip wr pa now s =
     (case toString_text wr now s of Inl e \<Rightarrow> Inl e | Inr str \<Rightarrow> process_text pa str)"

text \<open>The payload types of the codecs of every media of a session.\<close>

definition payload_types :: "SDPInfo \<Rightarrow> int set list" where
  "payload_types s = map (\<lambda>m. fst ` set (media_codecs m)) (medias s)"

text \<open>
  The sessions of the round trip. The codecs of a media are stored under their payload
  types and none is named red, ulpfec or rtx; the streams and the tracks are stored
  under their ids; a track has a media line that the pass of toString attaches it to.
\<close>

definition wf_codecs :: "MediaInfo \<Rightarrow> bool" where
  "wf_codecs m =
     list_all (\<lambda>(k, c). codec_type c = k \<and> makes_codec (codec_name c)) (media_codecs m)"

definition wf_streams :: "(string \<times> StreamInfo) list \<Rightarrow> bool" where
  "wf_streams sts =
     (distinct (map fst sts)
      \<and> list_all (\<lambda>(k, st). stream_id st = k \<and> distinct (map fst (tracks st))
                    \<and> list_all (\<lambda>(k', t). track_id t = k') (tracks st)) sts)"

definition has_line :: "MediaInfo list \<Rightarrow> TrackInfo \<Rightarrow> bool" where
  "has_line ms t =
     list_ex (\<lambda>m. if truthy (track_mediaId t) then track_mediaId t = Some (media_id m)
                  else toLowerCase (media_type m) = toLowerCase (track_media t)) ms"

definition wf_session :: "SDPInfo \<Rightarrow> bool" where
  "wf_session s =
     (list_all wf_codecs (medias s) \<and> wf_streams (streams s)
      \<and> list_all (\<lambda>p. wf_track p \<and> has_line (medias s) (snd p)) (all_tracks (streams s))
      \<and> disjoint_ssrcs (all_tracks (streams s)) \<and> unified_distinct (all_tracks (streams s)))"

text \<open>
  A session with one audio media that has the codec opus of payload type 111, and one
  stream with one audio track of the ssrc 1.
\<close>

definition example_roundtrip_session :: SDPInfo where
  "example_roundtrip_session =
     example_session example_ice
       [example_media ''a'' ''audio'' [CodecInfo_new ''opus'' 111 []]]
       [example_stream ''s1'' [example_track ''audio'' ''t1'' None [1]]]"

section \<open>Properties\<close>

lemma getMediaById_loop_eq:
  "getMediaById_loop ms x =
     (if \<exists>m \<in> set ms. toLowerCase (media_id m) = toLowerCase x then Undefined else Null)"
  by (induction ms) auto

text \<open>
  C10. For every session and every id string, getMediaById returns \<open>undefined\<close> when a
  media of the session has that id (compared case-insensitively) and \<open>null\<close> when none
  has; in no case is its result a media of the session.
\<close>

theorem getMediaById_never_returns_media:
  "getMediaById s x =
     (if \<exists>m \<in> set (medias s). toLowerCase (media_id m) = toLowerCase x then Undefined else Null)
   \<and> (\<forall>m. getMediaById s x \<noteq> Ref m)"
  by (simp add: getMediaById_def getMediaById_loop_eq)


subsection \<open>clone and plain\<close>

lemma clone_streams_nonempty:
  "sts \<noteq> [] \<Longrightarrow> clone_streams sts c = Inl (NotAFunction ''clone'')"
  by (cases sts) (simp_all add: StreamInfo_clone_def)

lemma clone_always_throws: "\<exists>e. clone s = Inl e"
  by (simp add: clone_def Let_def ICEInfo_clone_def split: sum.splits option.splits)

lemma plain_of_constructor:
  "plain (SDPInfo_new v) =
     Inr \<lparr>plain_version = version (SDPInfo_new v), plain_streams = [], plain_medias = [],
          plain_candidates = [], plain_ice = None, plain_dtls = None\<rparr>"
  by (simp add: plain_def SDPInfo_new_def Map_values_def)

text \<open>
  C9. A session made by the constructor to which one stream was added has \<open>ice\<close> and
  \<open>dtls\<close> \<open>null\<close>. clone raises on it, and so does plain: the loop over the streams
  calls \<open>stream.plain()\<close>, a method StreamInfo does not have.
\<close>

theorem plain_throws_on_session_with_stream:
  "ice (addStream (StreamInfo_new ''s'') (SDPInfo_new None)) = None
   \<and> dtls (addStream (StreamInfo_new ''s'') (SDPInfo_new None)) = None
   \<and> clone (addStream (StreamInfo_new ''s'') (SDPInfo_new None)) = Inl (NotAFunction ''clone'')
   \<and> plain (addStream (StreamInfo_new ''s'') (SDPInfo_new None)) = Inl (NotAFunction ''plain'')"
  by (simp add: clone_def plain_def addStream_def SDPInfo_new_def StreamInfo_new_def
      Map_set_def Map_values_def StreamInfo_clone_def StreamInfo_plain_def)

subsection \<open>answer\<close>

lemma fold_addCandidate:
  "fold addCandidate cs a = a\<lparr>candidates := candidates a @ cs\<rparr>"
  by (induction cs arbitrary: a) (simp_all add: addCandidate_def)

lemma answer_medias_ok:
  "\<forall>m \<in> set ms. \<exists>r. ans m (caps (media_type m)) = Inr r \<Longrightarrow>
   \<exists>b. answer_medias ans (Some caps) ms a = Inr b
     \<and> ice b = ice a \<and> dtls b = dtls a \<and> candidates b = candidates a
     \<and> version b = version a \<and> streams b = streams a
     \<and> map Inr (medias b) = map Inr (medias a) @ map (\<lambda>m. ans m (caps (media_type m))) ms"
proof (induction ms arbitrary: a)
  case Nil
  then show ?case by simp
next
  case (Cons m ms)
  from Cons.prems obtain r where r: "ans m (caps (media_type m)) = Inr r"
    by auto
  from Cons.prems have rest: "\<forall>m \<in> set ms. \<exists>r. ans m (caps (media_type m)) = Inr r"
    by simp
  from Cons.IH [of "addMedia r a"] rest r show ?case
    by (auto simp: addMedia_def)
qed

text \<open>
  C6. When the parameters carry ice, dtls, candidates and capabilities, and the answer
  of every offered media to the capabilities of its type returns, answer returns a new
  session with the parameters' ice, dtls and candidates, and with one media per offered
  media, in the order of the offer, each the result of that media's own answer.
\<close>

theorem answer_result:
  assumes "params_ice params = Some i"
    and "params_dtls params = Some d"
    and "params_candidates params = Some cs"
    and "params_capabilities params = Some caps"
    and "\<forall>m \<in> set (medias offer). \<exists>r. ans m (caps (media_type m)) = Inr r"
  shows "\<exists>a. answer ans offer params = Inr a
     \<and> ice a = Some i \<and> dtls a = Some d \<and> candidates a = cs
     \<and> map Inr (medias a) = map (\<lambda>m. ans m (caps (media_type m))) (medias offer)"
proof -
  let ?a = "addCandidates cs (setICE (Some i) (setDTLS (Some d) (SDPInfo_new None)))"
  from answer_medias_ok [of "medias offer" ans caps ?a] assms(5)
  obtain b where b: "answer_medias ans (Some caps) (medias offer) ?a = Inr b"
    and f: "ice b = ice ?a" "dtls b = dtls ?a" "candidates b = candidates ?a"
      "map Inr (medias b) = map Inr (medias ?a) @ map (\<lambda>m. ans m (caps (media_type m))) (medias offer)"
    by blast
  have "answer ans offer params = Inr b"
    using b assms(1-4) by (simp add: answer_def)
  moreover have "ice ?a = Some i" "dtls ?a = Some d" "candidates ?a = cs" "medias ?a = []"
    by (simp_all add: addCandidates_def fold_addCandidate setICE_def setDTLS_def SDPInfo_new_def)
  ultimately show ?thesis
    using f by simp
qed

subsection \<open>Strings and format parameters\<close>


lemma split_no_sep: "sep \<notin> set s \<Longrightarrow> split sep s = [s]"
  by (induction s) auto

lemma split_append_sep:
  "sep \<notin> set k \<Longrightarrow> split sep (k @ sep # v) = k # split sep v"
  by (induction k) auto



lemma keys_Map_set: "fst ` set (Map_set k v m) = insert k (fst ` set m)"
  by (simp add: Map_set_def dom_update)





subsection \<open>Codecs and RTX\<close>

lemma process_rtp_without_rtx:
  "fst (process_rtp fmtps rtps (m, apts)) =
   fst (process_rtp fmtps (filter (\<lambda>fmt. toUpperCase (rtp_codec fmt) \<noteq> ''RTX'') rtps) (m, apts'))"
  by (induction rtps arbitrary: m apts apts') (simp_all add: Let_def)

lemma process_rtp_apts_distinct:
  "distinct (map fst apts) \<Longrightarrow> distinct (map fst (snd (process_rtp fmtps rtps (m, apts))))"
  by (induction rtps arbitrary: m apts) (simp_all add: Let_def Map_set_def distinct_update)

lemma process_rtp_codecs_distinct:
  "distinct (map fst (media_codecs m)) \<Longrightarrow>
   distinct (map fst (media_codecs (fst (process_rtp fmtps rtps (m, apts)))))"
  by (induction rtps arbitrary: m apts) (simp_all add: Let_def Map_set_def addCodec_def distinct_update)

lemma update_as_map:
  "distinct (map fst xs) \<Longrightarrow> map_of xs n = Some c \<Longrightarrow>
   AList.update n v xs = map (\<lambda>(k, c'). if k = n then (k, v) else (k, c')) xs"
proof (induction xs)
  case Nil
  then show ?case by simp
next
  case (Cons x xs)
  obtain k c' where x: "x = (k, c')" by (cases x)
  show ?case
  proof (cases "k = n")
    case True
    with Cons.prems x have "n \<notin> fst ` set xs" by auto
    then have "map (\<lambda>(k, c'). if k = n then (k, v) else (k, c')) xs = xs"
      by (induction xs) auto
    with True x show ?thesis by simp
  next
    case False
    with Cons x show ?thesis by simp
  qed
qed

lemma fold_set_rtx:
  "distinct (map fst apts) \<Longrightarrow> distinct (map fst (media_codecs m)) \<Longrightarrow>
   media_codecs (fold set_rtx apts m) =
     map (\<lambda>(k, c). (k, case Map_get apts (Number k) of None \<Rightarrow> c | Some r \<Rightarrow> setRTX r c))
       (media_codecs m)"
proof (induction apts arbitrary: m)
  case Nil
  then show ?case by (simp add: Map_get_def)
next
  case (Cons a apts)
  obtain t r where a: "a = (t, r)" by (cases a)
  from Cons.prems a have fresh: "t \<notin> fst ` set apts" and d: "distinct (map fst apts)"
    by auto
  show ?case
  proof (cases "getCodecForType m t")
    case None
    then have m': "set_rtx a m = m"
      by (simp add: set_rtx_def a)
    have "\<And>k c. (k, c) \<in> set (media_codecs m) \<Longrightarrow> t \<noteq> Number k"
      using None by (auto simp: getCodecForType_def Map_get_def weak_map_of_SomeI
          dest!: weak_map_of_SomeI)
    then show ?thesis
      using Cons.IH [OF d Cons.prems(2)] m' a
      by (fastforce simp: Map_get_def)
  next
    case (Some c)
    then obtain n where t: "t = Number n" and c: "map_of (media_codecs m) n = Some c"
      by (auto simp: getCodecForType_def Map_get_def split: jsval.splits)
    have m': "media_codecs (set_rtx a m) =
        map (\<lambda>(k, c'). if k = n then (k, setRTX r c) else (k, c')) (media_codecs m)"
      using Some t c Cons.prems(2)
      by (simp add: set_rtx_def a store_codec_def Map_set_def update_as_map)
    then have d': "distinct (map fst (media_codecs (set_rtx a m)))"
      using Cons.prems(2) by (simp add: comp_def case_prod_unfold if_distrib cong: if_cong)
    have none: "map_of apts (Number n) = None"
      using fresh t by (simp add: map_of_eq_None_iff)
    have same: "\<And>c'. (n, c') \<in> set (media_codecs m) \<Longrightarrow> c' = c"
      using c Cons.prems(2) by simp
    show ?thesis
      using Cons.IH [OF d d'] m' a t none same
      by (auto simp: Map_get_def)
  qed
qed

lemmas process_eval =
  process_def process_media_def process_codecs_def set_rtx_def store_codec_def getCodecForType_def
  fmtp_params_def parse_config_def set_param_def Map_set_def Map_get_def Map_values_def
  trim_def is_white_def parseInt_opt_def parseInt_def digit_def toUpperCase_def upper_char_def
  toLowerCase_def lower_char_def addCodec_def CodecInfo_new_def setRTX_def MediaInfo_new_def
  SDPInfo_new_def setVersion_def setICE_def setDTLS_def addMedia_def ICEInfo_new_def
  truthy_def js_str_def process_simulcast_def process_msid_def example_md_def example_tree_def
  example_rtp_def

lemma rtx_example:
  "map_sum id (\<lambda>s. map media_codecs (medias s)) (process (example_tree [example_rtx_md ''apt=100''])) =
     Inr [[(100, \<lparr>codec_name = ''VP9'', codec_type = 100, codec_params = [], codec_rtx = Some 101\<rparr>)]]"
  by (simp add: process_eval example_rtx_md_def)

lemma rtx_unmatched_example:
  "map_sum id (\<lambda>s. map media_codecs (medias s)) (process (example_tree [example_rtx_md ''apt=102''])) =
     Inr [[(100, \<lparr>codec_name = ''VP9'', codec_type = 100, codec_params = [], codec_rtx = None\<rparr>)]]"
  by (simp add: process_eval example_rtx_md_def)

text \<open>
  C4. The codecs of a media line are those that the rtp entries other than RTX make:
  an RTX entry makes no codec. After the loop over the rtp entries, the codec of
  payload type \<open>k\<close> has the RTX payload type \<open>r\<close> when the pair of \<open>k\<close> and \<open>r\<close> was
  recorded, and is unchanged otherwise; a recorded pair whose apt is the payload type
  of no codec changes nothing. For the entries VP9 of payload type 100 and RTX of
  payload type 101 with \<open>apt=100\<close>, process returns the codec VP9 with the RTX payload
  type 101; with \<open>apt=102\<close> it returns the codec VP9 with no RTX payload type.
\<close>

theorem rtx_association:
  "(let m0 = (MediaInfo_new mid mtype)\<lparr>media_direction := d\<rparr>;
        st = process_rtp (md_fmtp md) (md_rtp md) (m0, [])
    in fst st = fst (process_rtp (md_fmtp md)
                      (filter (\<lambda>fmt. toUpperCase (rtp_codec fmt) \<noteq> ''RTX'') (md_rtp md)) (m0, []))
     \<and> media_codecs (process_codecs md m0) =
         map (\<lambda>(k, c). (k, case Map_get (snd st) (Number k) of None \<Rightarrow> c | Some r \<Rightarrow> setRTX r c))
           (media_codecs (fst st)))
   \<and> map_sum id (\<lambda>s. map media_codecs (medias s)) (process (example_tree [example_rtx_md ''apt=100''])) =
       Inr [[(100, \<lparr>codec_name = ''VP9'', codec_type = 100, codec_params = [], codec_rtx = Some 101\<rparr>)]]
   \<and> map_sum id (\<lambda>s. map media_codecs (medias s)) (process (example_tree [example_rtx_md ''apt=102''])) =
       Inr [[(100, \<lparr>codec_name = ''VP9'', codec_type = 100, codec_params = [], codec_rtx = None\<rparr>)]]"
proof -
  let ?m0 = "(MediaInfo_new mid mtype)\<lparr>media_direction := d\<rparr>"
  let ?st = "process_rtp (md_fmtp md) (md_rtp md) (?m0, [])"
  have a: "fst ?st = fst (process_rtp (md_fmtp md)
                      (filter (\<lambda>fmt. toUpperCase (rtp_codec fmt) \<noteq> ''RTX'') (md_rtp md)) (?m0, []))"
    by (rule process_rtp_without_rtx)
  have d1: "distinct (map fst (snd ?st))"
    by (rule process_rtp_apts_distinct) simp
  have d2: "distinct (map fst (media_codecs (fst ?st)))"
    by (rule process_rtp_codecs_distinct) (simp add: MediaInfo_new_def)
  have b: "media_codecs (process_codecs md ?m0) =
         map (\<lambda>(k, c). (k, case Map_get (snd ?st) (Number k) of None \<Rightarrow> c | Some r \<Rightarrow> setRTX r c))
           (media_codecs (fst ?st))"
    using fold_set_rtx [OF d1 d2] by (simp add: process_codecs_def case_prod_unfold)
  show ?thesis
    using a b rtx_example rtx_unmatched_example by (simp add: Let_def)
qed

subsection \<open>Sources and ssrc groups\<close>

lemma Map_get_Map_set: "Map_get (Map_set k v m) k' = (if k' = k then Some v else Map_get m k')"
  by (simp add: Map_get_def Map_set_def update_conv')

lemma lookup_source_keys: "fst ` set (snd (lookup_source sources n)) = insert n (fst ` set sources)"
proof (cases "Map_get sources n")
  case None
  then show ?thesis by (simp add: lookup_source_def keys_Map_set)
next
  case (Some source)
  then have "n \<in> fst ` set sources"
    by (metis Map_get_def map_of_eq_None_iff option.distinct(1))
  with Some show ?thesis by (simp add: lookup_source_def insert_absorb)
qed

lemma lookup_source_get:
  "Map_get (snd (lookup_source sources n)) k =
     (if k = n then Some (fst (lookup_source sources n)) else Map_get sources k)"
  by (simp add: lookup_source_def Map_get_Map_set split: option.splits)

lemma process_ssrc_keys_case:
  "(case process_ssrc media encodings a st of
      Inl e \<Rightarrow> True
    | Inr st' \<Rightarrow> fst ` set (snd st') = insert (ssrc_id a) (fst ` set (snd st)))"
  by (simp add: process_ssrc_def Let_def keys_Map_set lookup_source_keys case_prod_unfold
      split: option.splits)

lemma process_ssrc_keys:
  "process_ssrc media encodings a st = Inr st' \<Longrightarrow>
   fst ` set (snd st') = insert (ssrc_id a) (fst ` set (snd st))"
  using process_ssrc_keys_case [where media = media and encodings = encodings and a = a and st = st]
  by simp

lemma process_ssrcs_keys:
  "process_ssrcs media encodings as st = Inr st' \<Longrightarrow>
   fst ` set (snd st') = ssrc_id ` set as \<union> fst ` set (snd st)"
proof (induction as arbitrary: st)
  case Nil
  then show ?case by simp
next
  case (Cons a as)
  then obtain st1 where 1: "process_ssrc media encodings a st = Inr st1"
    and 2: "process_ssrcs media encodings as st1 = Inr st'"
    by (auto split: sum.splits)
  from Cons.IH [OF 2] process_ssrc_keys [OF 1] show ?case by auto
qed


lemma process_ssrc_no_stream:
  assumes "process_ssrc media encodings a st = Inr st'"
    and "no_stream (snd st) n"
    and "ssrc_id a = n \<longrightarrow> toLowerCase (ssrc_attribute a) \<noteq> ''msid''"
  shows "no_stream (snd st') n"
  using assms
  by (auto simp: process_ssrc_def Let_def no_stream_def Map_get_Map_set lookup_source_get
      lookup_source_def SourceInfo_new_def case_prod_unfold split: if_splits option.splits)

lemma process_ssrcs_no_stream:
  assumes "process_ssrcs media encodings as st = Inr st'"
    and "no_stream (snd st) n"
    and "\<forall>a \<in> set as. ssrc_id a = n \<longrightarrow> toLowerCase (ssrc_attribute a) \<noteq> ''msid''"
  shows "no_stream (snd st') n"
  using assms
proof (induction as arbitrary: st)
  case Nil
  then show ?case by simp
next
  case (Cons a as)
  then obtain st1 where 1: "process_ssrc media encodings a st = Inr st1"
    and 2: "process_ssrcs media encodings as st1 = Inr st'"
    by (auto split: sum.splits)
  from process_ssrc_no_stream [OF 1 Cons.prems(2)] Cons.prems(3)
  have "no_stream (snd st1) n" by simp
  with Cons.IH [OF 2] Cons.prems(3) show ?case by simp
qed

lemma process_msid_keys: "fst ` set (snd (process_msid md encodings st)) = fst ` set (snd st)"
  by (simp add: process_msid_def Let_def case_prod_unfold image_image)

lemma process_msid_falsy: "\<not> truthy (md_msid md) \<Longrightarrow> process_msid md encodings st = st"
  by (simp add: process_msid_def)


lemma process_ssrcGroup_unresolved:
  "unresolved sources g \<Longrightarrow> \<exists>e. process_ssrcGroup sources g s = Inl e"
  by (auto simp: unresolved_def process_ssrcGroup_def Let_def split: option.splits)

lemma process_ssrcGroups_unresolved:
  "g \<in> set gs \<Longrightarrow> unresolved sources g \<Longrightarrow> \<exists>e. process_ssrcGroups sources gs s = Inl e"
proof (induction gs arbitrary: s)
  case Nil
  then show ?case by simp
next
  case (Cons a gs)
  show ?case
  proof (cases "process_ssrcGroup sources a s")
    case (Inl e)
    then show ?thesis by simp
  next
    case (Inr s1)
    with Cons.prems process_ssrcGroup_unresolved [of sources a s] have "g \<in> set gs"
      by auto
    from Cons.IH [OF this Cons.prems(2)] Inr show ?thesis by simp
  qed
qed

lemma process_medias_fails:
  "md \<in> set mds \<Longrightarrow> (\<And>s. \<exists>e. process_media fp md s = Inl e) \<Longrightarrow>
   \<exists>e. process_medias fp mds s = Inl e"
proof (induction mds arbitrary: s)
  case Nil
  then show ?case by simp
next
  case (Cons a mds)
  show ?case
  proof (cases "process_media fp a s")
    case (Inl e)
    then show ?thesis by simp
  next
    case (Inr s1)
    with Cons.prems have "md \<in> set mds"
      by (metis Inl_Inr_False set_ConsD)
    from Cons.IH [OF this Cons.prems(2)] Inr show ?thesis by simp
  qed
qed

lemma process_media_unresolved:
  assumes g: "g \<in> set (md_ssrcGroups md)"
    and k: "parseInt (first (split CHR '' '' (sg_ssrcs g))) = k"
    and u: "(\<forall>n. k = Number n \<longrightarrow> n \<notin> ssrc_id ` set (md_ssrcs md))
       \<or> (\<not> truthy (md_msid md)
          \<and> (\<forall>a \<in> set (md_ssrcs md). k = Number (ssrc_id a) \<longrightarrow> toLowerCase (ssrc_attribute a) \<noteq> ''msid''))"
  shows "\<exists>e. process_media fp md s = Inl e"
proof (cases "process_media fp md s")
  case (Inl e)
  then show ?thesis by simp
next
  case (Inr s')
  then obtain encodings s2 st where
    st: "process_ssrcs (md_type md) encodings (md_ssrcs md) (s2, []) = Inr st"
    and ok: "\<exists>x. process_ssrcGroups (snd (process_msid md encodings st)) (md_ssrcGroups md)
               (fst (process_msid md encodings st)) = Inr x"
    by (auto simp: process_media_def Let_def case_prod_unfold split: option.splits sum.splits)
  let ?sources = "snd (process_msid md encodings st)"
  have "unresolved ?sources g"
  proof (cases k)
    case (Number n)
    from u show ?thesis
    proof
      assume "\<forall>n. k = Number n \<longrightarrow> n \<notin> ssrc_id ` set (md_ssrcs md)"
      with Number have "n \<notin> ssrc_id ` set (md_ssrcs md)" by simp
      with process_ssrcs_keys [OF st] have "n \<notin> fst ` set ?sources"
        by (simp add: process_msid_keys)
      then have "Map_get ?sources n = None"
        by (simp add: Map_get_def map_of_eq_None_iff)
      with Number k show ?thesis
        by (simp add: unresolved_def get_source_def)
    next
      assume a: "\<not> truthy (md_msid md)
          \<and> (\<forall>a \<in> set (md_ssrcs md). k = Number (ssrc_id a) \<longrightarrow> toLowerCase (ssrc_attribute a) \<noteq> ''msid'')"
      with Number have "\<forall>a \<in> set (md_ssrcs md). ssrc_id a = n \<longrightarrow> toLowerCase (ssrc_attribute a) \<noteq> ''msid''"
        by auto
      from process_ssrcs_no_stream [OF st _ this] have "no_stream (snd st) n"
        by (simp add: no_stream_def Map_get_def)
      with a Number k show ?thesis
        by (simp add: process_msid_falsy unresolved_def get_source_def no_stream_def)
    qed
  qed (use k in \<open>simp_all add: unresolved_def get_source_def\<close>)
  from process_ssrcGroups_unresolved [OF g this] ok show ?thesis
    by (metis Inl_Inr_False)
qed


lemma getTrack_store_track:
  "Option.bind (getStream (store_track streamId trackId track stream s) streamId)
     (\<lambda>st. getTrack st trackId) = Some track"
  by (simp add: store_track_def getStream_def getTrack_def Map_get_Map_set)

lemma process_ssrcGroup_resolves:
  assumes "process_ssrcGroup sources g s = Inr s'"
  shows "\<exists>source streamId stream track.
       get_source sources (parseInt (first (split CHR '' '' (sg_ssrcs g)))) = Some source
     \<and> source_streamId source = Some streamId
     \<and> getStream s streamId = Some stream
     \<and> getTrack stream (source_trackId source) = Some track
     \<and> Option.bind (getStream s' streamId) (\<lambda>st. getTrack st (source_trackId source)) =
         Some (addSourceGroup
                 (SourceGroupInfo_new (sg_semantics g) (split CHR '' '' (sg_ssrcs g))) track)"
  using assms
  by (auto simp: process_ssrcGroup_def Let_def getTrack_store_track split: option.splits)

lemma process_unresolved:
  assumes "md \<in> set (sdp_media sdp)" and "g \<in> set (md_ssrcGroups md)"
    and "(\<forall>n. parseInt (first (split CHR '' '' (sg_ssrcs g))) = Number n \<longrightarrow>
            n \<notin> ssrc_id ` set (md_ssrcs md))
       \<or> (\<not> truthy (md_msid md)
          \<and> (\<forall>a \<in> set (md_ssrcs md).
                parseInt (first (split CHR '' '' (sg_ssrcs g))) = Number (ssrc_id a) \<longrightarrow>
                toLowerCase (ssrc_attribute a) \<noteq> ''msid''))"
  shows "\<exists>e. process sdp = Inl e"
  unfolding process_def
  by (rule process_medias_fails [OF assms(1)]) (rule process_media_unresolved [OF assms(2) refl assms(3)])

text \<open>
  C5. An ssrc group is added to the track that the source of its first ssrc names:
  when the step for a group returns, that source exists and has a stream id, the
  session has that stream and the stream has the track of the source's track id, and
  afterwards this track carries the group. When the first ssrc of a group of a media
  line has no ssrc attribute at all on the line, or has none with the name msid while
  the line has no msid of its own, process raises: it returns no session.
\<close>

theorem ssrc_group_resolution:
  "(process_ssrcGroup sources g s = Inr s' \<longrightarrow>
      (\<exists>source streamId stream track.
           get_source sources (parseInt (first (split CHR '' '' (sg_ssrcs g)))) = Some source
         \<and> source_streamId source = Some streamId
         \<and> getStream s streamId = Some stream
         \<and> getTrack stream (source_trackId source) = Some track
         \<and> Option.bind (getStream s' streamId) (\<lambda>st. getTrack st (source_trackId source)) =
             Some (addSourceGroup
                     (SourceGroupInfo_new (sg_semantics g) (split CHR '' '' (sg_ssrcs g))) track)))
   \<and> (md \<in> set (sdp_media sdp) \<and> h \<in> set (md_ssrcGroups md)
      \<and> ((\<forall>n. parseInt (first (split CHR '' '' (sg_ssrcs h))) = Number n \<longrightarrow>
                n \<notin> ssrc_id ` set (md_ssrcs md))
         \<or> (\<not> truthy (md_msid md)
            \<and> (\<forall>a \<in> set (md_ssrcs md).
                  parseInt (first (split CHR '' '' (sg_ssrcs h))) = Number (ssrc_id a) \<longrightarrow>
                  toLowerCase (ssrc_attribute a) \<noteq> ''msid'')))
      \<longrightarrow> (\<exists>e. process sdp = Inl e))"
  using process_ssrcGroup_resolves [of sources g s s'] process_unresolved [of md sdp h]
  by blast

lemmas tracks_eval =
  process_ssrc_def lookup_source_def lookup_stream_def lookup_track_def store_track_def
  getStream_def addStream_def getTrack_def addTrack_def StreamInfo_new_def TrackInfo_new_def
  addSSRC_def addSourceGroup_def SourceGroupInfo_new_def SourceInfo_new_def first_def second_def
  process_ssrcGroup_def get_source_def example_ssrc_def example_group_def example_group_md_def
  example_sources_def example_group_session_def example_session_def example_stream_def
  example_track_def example_dtls_def

lemma ssrc_group_example:
  "map_sum id streams
     (process (example_tree [example_group_md
        [example_ssrc 1111 ''cname'' ''x'', example_ssrc 1111 ''msid'' ''stream1 track1'']])) =
   Inr [(''stream1'',
         \<lparr>stream_id = ''stream1'',
          tracks = [(Some ''track1'',
            \<lparr>track_media = ''audio'', track_id = Some ''track1'', track_mediaId = None,
             track_ssrcs = [1111],
             track_groups = [\<lparr>group_semantics = ''FID'', group_ssrcs = [Number 1111, Number 2222]\<rparr>],
             track_encodings = []\<rparr>)]\<rparr>)]"
  by (simp add: process_eval tracks_eval Let_def)

theorem ssrc_group_resolution_witness:
  "process_ssrcGroup example_sources example_group example_group_session =
     Inr (projr (process_ssrcGroup example_sources example_group example_group_session))
   \<and> Option.bind (getStream (projr (process_ssrcGroup example_sources example_group
                                      example_group_session)) ''stream1'')
        (\<lambda>st. getTrack st (Some ''track1'')) =
       Some \<lparr>track_media = ''audio'', track_id = Some ''track1'', track_mediaId = None,
             track_ssrcs = [1111],
             track_groups = [\<lparr>group_semantics = ''FID'', group_ssrcs = [Number 1111, Number 2222]\<rparr>],
             track_encodings = []\<rparr>
   \<and> example_group \<in> set (md_ssrcGroups (example_group_md [example_ssrc 1111 ''cname'' ''x'']))
   \<and> \<not> truthy (md_msid (example_group_md [example_ssrc 1111 ''cname'' ''x'']))
   \<and> (\<exists>e. process (example_tree [example_group_md [example_ssrc 1111 ''cname'' ''x'']]) = Inl e)"
  using ssrc_group_resolution [of example_sources example_group example_group_session
      "projr (process_ssrcGroup example_sources example_group example_group_session)"
      "example_group_md [example_ssrc 1111 ''cname'' ''x'']"
      "example_tree [example_group_md [example_ssrc 1111 ''cname'' ''x'']]" example_group]
  by (simp add: process_eval tracks_eval Let_def)

subsection \<open>toString\<close>

lemmas toString_eval =
  toString_def toString_media_def toString_codec_def toString_tracks_def ICEInfo_isLite_def
  attach_unified_def attach_planB_def cname_line_def msid_line_def msid_text_def group_line_def
  strict_equals_def logical_not_def Number_toString_def string_of_nat.simps digit_char_def
  Direction_toString_def
  Setup_toString_def example_ice_def example_media_def example_video_session_def
  example_planB_session_def

text \<open>
  The answer to an offer of two audio medias, with a stand-in for the answer of a media.
\<close>

theorem answer_result_witness:
  "\<exists>a. answer example_answer example_planB_session example_params = Inr a
     \<and> ice a = Some example_ice \<and> dtls a = Some example_dtls \<and> candidates a = [example_candidate]
     \<and> medias a = [(example_media ''a1'' ''audio'' [])\<lparr>media_bitrate := 64\<rparr>,
                    (example_media ''a2'' ''audio'' [])\<lparr>media_bitrate := 64\<rparr>]"
  using answer_result [of example_params example_ice example_dtls "[example_candidate]"
      "\<lambda>t. if t = ''audio'' then Some 64 else None" example_planB_session example_answer]
  by (auto simp: example_params_def example_answer_def example_planB_session_def
      example_session_def example_media_def MediaInfo_new_def addMedia_def addStream_def
      setDTLS_def setICE_def SDPInfo_new_def)

lemma toString_codec_rtcpFb:
  "md_rtcpFb (toString_codec mtype codec md) =
     md_rtcpFb md @ [\<lparr>fb_payload = codec_type codec, fb_type = ''transport-cc'', fb_subtype = None\<rparr>]"
  by (simp add: toString_codec_def Let_def strict_equals_def logical_not_def split: option.splits)

lemma toString_ICEInfo: "ice s = Some (ICEInfo_new u p) \<Longrightarrow> toString now s = Inl (NotAFunction ''isLite'')"
  by (simp add: toString_def ICEInfo_isLite_def ICEInfo_new_def)

text \<open>
  C2. For every media type and every codec, the loop over the codecs adds one feedback
  entry, the one of type transport-cc: the condition of the block that adds the
  entries of type nack with subtype pli and of type goog-remb compares a boolean with a
  string and never holds. The tree of a session with the video codec VP8 of payload
  type 96 has the feedback entry transport-cc of that payload type and no other; with an
  ice object of the class ICEInfo, toString raises at its call of \<open>isLite\<close>.
\<close>

theorem video_codec_feedback:
  "md_rtcpFb (toString_codec mtype codec md) =
     md_rtcpFb md @ [\<lparr>fb_payload = codec_type codec, fb_type = ''transport-cc'', fb_subtype = None\<rparr>]
   \<and> map_sum id (\<lambda>t. map md_rtcpFb (sdp_media t)) (toString now (example_video_session example_ice)) =
       Inr [[\<lparr>fb_payload = 96, fb_type = ''transport-cc'', fb_subtype = None\<rparr>]]
   \<and> toString now (example_video_session (ICEInfo_new (Some ''u'') (Some ''p''))) =
       Inl (NotAFunction ''isLite'')"
proof -
  have "map_sum id (\<lambda>t. map md_rtcpFb (sdp_media t)) (toString now (example_video_session example_ice)) =
       Inr [[\<lparr>fb_payload = 96, fb_type = ''transport-cc'', fb_subtype = None\<rparr>]]"
    by (simp add: toString_eval process_eval tracks_eval Let_def)
  moreover have "toString now (example_video_session (ICEInfo_new (Some ''u'') (Some ''p''))) =
       Inl (NotAFunction ''isLite'')"
    by (rule toString_ICEInfo) (simp add: example_video_session_def example_session_def
        addStream_def addMedia_def setDTLS_def setICE_def)
  ultimately show ?thesis
    by (simp add: toString_codec_rtcpFb)
qed

lemma attach_track_eq:
  "attach_track streamId track mds =
     takeWhile (\<lambda>md. \<not> track_matches track md) mds @
     (case dropWhile (\<lambda>md. \<not> track_matches track md) mds of
        [] \<Rightarrow> []
      | md # rest \<Rightarrow> attach streamId track md # rest)"
  by (induction mds) (simp_all add: track_matches_def attach_def)

lemma attach_mid_type:
  "md_mid (attach streamId track md) = md_mid md \<and> md_type (attach streamId track md) = md_type md"
  by (simp add: attach_def attach_unified_def attach_planB_def)

lemma attach_track_mid_type:
  "map md_mid (attach_track streamId track mds) = map md_mid mds
   \<and> map md_type (attach_track streamId track mds) = map md_type mds"
  by (induction mds) (simp_all add: attach_unified_def attach_planB_def)

text \<open>
  C3 (as amended). The loop for a track leaves the media descriptions before the first
  one that matches the track as they are, attaches the track to that first one, and
  leaves all later ones as they are, whether they match or not; a media description
  matches a track with a media id when its mid is that id, and a track with no media id
  when its type is the media type of the track, compared case-insensitively. The loop
  changes no mid and no type, so the descriptions that match are the same for every
  track of the pass.
\<close>

theorem track_attachment:
  "attach_track streamId track mds =
     takeWhile (\<lambda>md. \<not> track_matches track md) mds @
     (case dropWhile (\<lambda>md. \<not> track_matches track md) mds of
        [] \<Rightarrow> []
      | md # rest \<Rightarrow> attach streamId track md # rest)
   \<and> map md_mid (attach_track streamId track mds) = map md_mid mds
   \<and> map md_type (attach_track streamId track mds) = map md_type mds"
  by (simp add: attach_track_eq [symmetric] attach_track_mid_type)

text \<open>
  A session with two audio medias and one audio track with no media id and the ssrc 1:
  the second audio media description gets no ssrc attribute.
\<close>

theorem planB_track_counterexample:
  "tree_ssrcs (toString 0 example_planB_session) =
   Inr [(''audio'', [\<lparr>ssrc_id = 1, ssrc_attribute = ''cname'', ssrc_value = Some ''s1''\<rparr>,
                     \<lparr>ssrc_id = 1, ssrc_attribute = ''msid'', ssrc_value = Some ''s1 t1''\<rparr>]),
        (''audio'', [])]"
  by (simp add: tree_ssrcs_def toString_eval process_eval tracks_eval Let_def)

text \<open>
  C8 (as amended). The tree that toString builds is a function of the session and of
  the reading of the clock: the results for two readings are the same error, or trees
  that differ in the session id of the origin only.
\<close>

theorem toString_clock:
  "toString now' s = map_sum id (with_sessionId now') (toString now s)"
  by (simp add: toString_def with_sessionId_def split: option.splits sum.splits)

text \<open>Two calls on one session at the clock readings 0 and 1 give different trees.\<close>

theorem toString_clock_counterexample:
  "toString 0 (example_video_session example_ice) \<noteq> toString 1 (example_video_session example_ice)"
  by (simp add: toString_eval process_eval tracks_eval Let_def)

subsection \<open>Numbers and their text\<close>

lemma digit_char_dec: "d < 10 \<Longrightarrow> digit_char d \<in> dec"
proof -
  assume "d < 10"
  then have "d \<in> {0, 1, 2, 3, 4, 5, 6, 7, 8, 9}" by auto
  then show ?thesis by (auto simp: digit_char_def dec_def)
qed

lemma digit_digit_char: "d < 10 \<Longrightarrow> digit 10 (digit_char d) = Some d"
proof -
  assume "d < 10"
  then have "d \<in> {0, 1, 2, 3, 4, 5, 6, 7, 8, 9}" by auto
  then show ?thesis by (auto simp: digit_char_def digit_def)
qed

lemma string_of_nat_dec: "set (string_of_nat n) \<subseteq> dec"
proof (induction n rule: string_of_nat.induct)
  case (1 n)
  show ?case
  proof (cases "n < 10")
    case True
    then show ?thesis by (simp add: digit_char_dec string_of_nat.simps)
  next
    case False
    with 1 have "set (string_of_nat (n div 10)) \<subseteq> dec" by simp
    moreover have "digit_char (n mod 10) \<in> dec" by (rule digit_char_dec) simp
    ultimately show ?thesis using False by (subst string_of_nat.simps) simp
  qed
qed

lemma string_of_nat_nonempty: "string_of_nat n \<noteq> []"
  by (subst string_of_nat.simps) simp

lemma digits_prefix_string_of_nat:
  "foldl (\<lambda>a d. a * 10 + d) 0 (digits_prefix 10 (string_of_nat n)) = n
   \<and> digits_prefix 10 (string_of_nat n) \<noteq> []"
proof -
  have app: "\<And>cs d. d < 10 \<Longrightarrow> set cs \<subseteq> dec \<Longrightarrow>
      digits_prefix 10 (cs @ [digit_char d]) = digits_prefix 10 cs @ [d]
      \<and> length (digits_prefix 10 cs) = length cs"
  proof -
    fix cs :: string and d :: nat
    assume d: "d < 10"
    show "set cs \<subseteq> dec \<Longrightarrow>
      digits_prefix 10 (cs @ [digit_char d]) = digits_prefix 10 cs @ [d]
      \<and> length (digits_prefix 10 cs) = length cs"
    proof (induction cs)
      case Nil
      then show ?case using d by (simp add: digit_digit_char)
    next
      case (Cons c cs)
      then have "c \<in> dec" by simp
      then obtain e where "digit 10 c = Some e"
        by (auto simp: dec_def digit_def)
      with Cons show ?case by simp
    qed
  qed
  show ?thesis
  proof (induction n rule: string_of_nat.induct)
    case (1 n)
    show ?case
    proof (cases "n < 10")
      case True
      then show ?thesis by (simp add: digit_digit_char string_of_nat.simps)
    next
      case False
      with 1 have IH: "foldl (\<lambda>a d. a * 10 + d) 0 (digits_prefix 10 (string_of_nat (n div 10))) = n div 10"
        by simp
      have "digits_prefix 10 (string_of_nat (n div 10) @ [digit_char (n mod 10)]) =
          digits_prefix 10 (string_of_nat (n div 10)) @ [n mod 10]"
        using app [of "n mod 10" "string_of_nat (n div 10)"] string_of_nat_dec by simp
      with IH False show ?thesis
        by (subst (1 2) string_of_nat.simps) simp
    qed
  qed
qed

lemma dec_not_special:
  "c \<in> dec \<Longrightarrow> \<not> is_white c \<and> c \<noteq> CHR ''-'' \<and> c \<noteq> CHR ''+'' \<and> c \<noteq> CHR ''x'' \<and> c \<noteq> CHR ''X''
     \<and> c \<noteq> CHR '' '' \<and> c \<noteq> CHR '';'' \<and> c \<noteq> CHR ''=''"
  by (auto simp: dec_def is_white_def)

lemma parseInt_digits:
  assumes "set s \<subseteq> dec" and "s \<noteq> []"
  shows "parseInt s = Number (int (foldl (\<lambda>a d. a * 10 + d) 0 (digits_prefix 10 s)))
     \<and> parseInt (CHR ''-'' # s) = Number (- int (foldl (\<lambda>a d. a * 10 + d) 0 (digits_prefix 10 s)))"
proof -
  from assms obtain c cs where s: "s = c # cs" and c: "c \<in> dec" and cs: "set cs \<subseteq> dec"
    by (cases s) auto
  from c obtain e where e: "digit 10 c = Some e"
    by (auto simp: dec_def digit_def)
  have nohex: "(case s of a # b # r \<Rightarrow> a = CHR ''0'' \<and> (b = CHR ''x'' \<or> b = CHR ''X'') | _ \<Rightarrow> False) = False"
    using s cs dec_not_special by (cases cs) auto
  have w: "\<not> is_white c" "c \<noteq> CHR ''-''" "c \<noteq> CHR ''+''" "\<not> is_white CHR ''-''"
    using dec_not_special [OF c] by (simp_all add: is_white_def)
  show ?thesis
    using nohex w e s by (simp add: parseInt_def Let_def)
qed

lemma parseInt_Number_toString: "parseInt (Number_toString n) = Number n"
proof (cases "n < 0")
  case True
  then show ?thesis
    using parseInt_digits [OF string_of_nat_dec string_of_nat_nonempty, of "nat (- n)"]
      digits_prefix_string_of_nat [of "nat (- n)"]
    by (simp add: Number_toString_def)
next
  case False
  then show ?thesis
    using parseInt_digits [OF string_of_nat_dec string_of_nat_nonempty, of "nat n"]
      digits_prefix_string_of_nat [of "nat n"]
    by (simp add: Number_toString_def)
qed

lemma Number_toString_no_space: "CHR '' '' \<notin> set (Number_toString n)"
proof
  assume "CHR '' '' \<in> set (Number_toString n)"
  then have "CHR '' '' \<in> dec"
    using string_of_nat_dec by (auto simp: Number_toString_def split: if_splits)
  then show False by (simp add: dec_def)
qed

lemma split_join:
  "xs \<noteq> [] \<Longrightarrow> \<forall>x \<in> set xs. sep \<notin> set x \<Longrightarrow> split sep (join [sep] xs) = xs"
proof (induction xs)
  case Nil
  then show ?case by simp
next
  case (Cons x xs)
  note IH = Cons.IH and prems = Cons.prems
  show ?case
  proof (cases xs)
    case Nil
    with prems show ?thesis by (simp add: split_no_sep)
  next
    case tl: (Cons y ys)
    from prems have x: "sep \<notin> set x" by simp
    have "split sep (join [sep] (x # y # ys)) = x # split sep (join [sep] (y # ys))"
      using x by (simp add: split_append_sep)
    moreover have "split sep (join [sep] (y # ys)) = y # ys"
      using IH prems unfolding tl by simp
    ultimately show ?thesis unfolding tl by simp
  qed
qed

subsection \<open>The tracks of a session as a map\<close>

lemma Map_get_Nil: "Map_get [] k = None"
  by (simp add: Map_get_def)

lemma track_at_upsert:
  assumes "track_id fresh = trackId"
  shows "track_at (upsert_track streamId trackId fresh f s) =
     (track_at s)((streamId, trackId) \<mapsto>
        f (case track_at s (streamId, trackId) of None \<Rightarrow> fresh | Some t \<Rightarrow> t))"
proof (rule ext)
  fix key :: "string \<times> string option"
  obtain sid tid where key: "key = (sid, tid)" by (cases key)
  show "track_at (upsert_track streamId trackId fresh f s) key =
     ((track_at s)((streamId, trackId) \<mapsto>
        f (case track_at s (streamId, trackId) of None \<Rightarrow> fresh | Some t \<Rightarrow> t))) key"
    using assms
    by (simp add: key track_at_def upsert_track_def lookup_stream_def lookup_track_def
        store_track_def getStream_def getTrack_def addStream_def addTrack_def StreamInfo_new_def
        Map_get_Map_set Map_get_Nil split: option.splits)
qed

lemma upsert_frame:
  "medias (upsert_track streamId trackId fresh f s) = medias s
   \<and> ice (upsert_track streamId trackId fresh f s) = ice s
   \<and> dtls (upsert_track streamId trackId fresh f s) = dtls s
   \<and> version (upsert_track streamId trackId fresh f s) = version s
   \<and> candidates (upsert_track streamId trackId fresh f s) = candidates s"
  by (simp add: upsert_track_def lookup_stream_def lookup_track_def store_track_def addStream_def
      split: option.splits prod.splits)

subsection \<open>The ssrc attributes of a track\<close>

lemma attach_fields:
  "md_ssrcs (attach sid t md) = md_ssrcs md @ ssrc_block (sid, t)
   \<and> md_ssrcGroups (attach sid t md) = md_ssrcGroups md @ group_block (sid, t)
   \<and> md_msid (attach sid t md) = (if unified t then Some (msid_text sid t) else md_msid md)"
  by (simp add: attach_def attach_unified_def attach_planB_def ssrc_block_def group_block_def
      unified_def)

lemma msid_ids:
  assumes "wf_ids (sid, t)"
  shows "first (split CHR '' '' (msid_text sid t)) = sid
     \<and> second (split CHR '' '' (msid_text sid t)) = track_id t"
  using assms
  by (auto simp: wf_ids_def msid_text_def js_str_def first_def second_def split_append_sep
      split_no_sep split: option.splits)

lemma sources_ok_Map_set:
  "sources_ok sources \<Longrightarrow> source_ssrc v = k \<Longrightarrow> sources_ok (Map_set k v sources)"
proof -
  assume a: "sources_ok sources" and v: "source_ssrc v = k"
  have "list_all (\<lambda>(k, source). source_ssrc source = k) (AList.update k v sources)"
    using a v by (induction sources) (auto simp: sources_ok_def)
  with a show ?thesis
    by (simp add: sources_ok_def Map_set_def distinct_update)
qed

lemma sources_ok_get:
  "sources_ok sources \<Longrightarrow> Map_get sources k = Some source \<Longrightarrow> source_ssrc source = k"
  by (auto simp: sources_ok_def Map_get_def list_all_iff dest!: map_of_SomeD)

lemma lookup_source_ok:
  assumes "sources_ok sources"
  shows "sources_ok (snd (lookup_source sources x)) \<and> source_ssrc (fst (lookup_source sources x)) = x"
  using assms sources_ok_get [OF assms, of x]
  by (auto simp: lookup_source_def sources_ok_Map_set SourceInfo_new_def split: option.splits)

lemma process_cname_line:
  "process_ssrc media encodings (cname_line sid x) (s, sources) =
     Inr (s, Map_set x ((fst (lookup_source sources x))\<lparr>source_cname := Some sid\<rparr>)
               (snd (lookup_source sources x)))"
  by (simp add: process_ssrc_def cname_line_def toLowerCase_def lower_char_def case_prod_unfold
      Let_def)

lemma process_msid_line:
  assumes "wf_ids (sid, t)"
  shows "process_ssrc media encodings (msid_line sid t x) (s, sources) =
     Inr (upsert_track sid (track_id t) (new_track media encodings (track_id t)) (addSSRC x) s,
          Map_set x ((fst (lookup_source sources x))
                       \<lparr>source_streamId := Some sid, source_trackId := track_id t\<rparr>)
            (snd (lookup_source sources x)))"
  using msid_ids [OF assms]
  by (simp add: process_ssrc_def msid_line_def toLowerCase_def lower_char_def case_prod_unfold
      upsert_track_def new_track_def Let_def)

lemma same_frame_refl: "same_frame s s"
  by (simp add: same_frame_def)

lemma same_frame_trans: "same_frame s'' s' \<Longrightarrow> same_frame s' s \<Longrightarrow> same_frame s'' s"
  by (simp add: same_frame_def)

lemma same_frame_upsert: "same_frame (upsert_track sid tid fresh f s) s"
  by (simp add: same_frame_def upsert_frame)

lemma process_ssrcs_append:
  "process_ssrcs media encodings (as @ bs) st =
     (case process_ssrcs media encodings as st of
        Inl e \<Rightarrow> Inl e
      | Inr st' \<Rightarrow> process_ssrcs media encodings bs st')"
  by (induction as arbitrary: st) (simp_all split: sum.splits)

lemma set_after_lookup: "Map_set x v (snd (lookup_source sources x)) = Map_set x v sources"
  by (simp add: lookup_source_def Map_set_def split: option.splits)

lemma lookup_after_set: "lookup_source (Map_set x v sources) x = (v, Map_set x v sources)"
  by (simp add: lookup_source_def Map_get_Map_set)

lemma Map_set_twice: "Map_set x v (Map_set x w sources) = Map_set x v sources"
  by (simp add: Map_set_def)

lemma base_source:
  "sources_ok sources \<Longrightarrow>
   (fst (lookup_source sources x))\<lparr>source_cname := c, source_streamId := i, source_trackId := j\<rparr> =
     \<lparr>source_ssrc = x, source_cname = c, source_streamId = i, source_trackId = j\<rparr>"
  using lookup_source_ok [of sources x] by (cases "fst (lookup_source sources x)") simp

lemma planB_pair:
  assumes "wf_ids (sid, t)" and "sources_ok sources"
  shows "process_ssrcs media encodings ([cname_line sid x, msid_line sid t x] @ rest) (s, sources) =
     process_ssrcs media encodings rest
       (upsert_track sid (track_id t) (new_track media encodings (track_id t)) (addSSRC x) s,
        Map_set x \<lparr>source_ssrc = x, source_cname = Some sid, source_streamId = Some sid,
                   source_trackId = track_id t\<rparr> sources)"
  using base_source [OF assms(2), where x = x and c = "Some sid" and i = "Some sid"
      and j = "track_id t"]
  by (simp add: process_cname_line process_msid_line [OF assms(1)] set_after_lookup
      lookup_after_set Map_set_twice)

lemma cname_step:
  "process_ssrcs media encodings (cname_line sid x # rest) (s, sources) =
     process_ssrcs media encodings rest
       (s, Map_set x ((fst (lookup_source sources x))\<lparr>source_cname := Some sid\<rparr>) sources)"
  by (simp add: process_cname_line set_after_lookup)

lemma track_at_addSSRC:
  "track_at (upsert_track sid tid (new_track media encodings tid) (addSSRC x) s) =
     (track_at s)((sid, tid) \<mapsto>
        addSSRC x (case track_at s (sid, tid) of None \<Rightarrow> new_track media encodings tid | Some t \<Rightarrow> t))"
  by (rule track_at_upsert) (simp add: new_track_def TrackInfo_new_def)

lemma planB_block:
  assumes "wf_ids (sid, t)" and "\<not> unified t" and "sources_ok sources"
  shows "\<exists>s' sources'.
       process_ssrcs media encodings
         (concat (map (\<lambda>x. [cname_line sid x, msid_line sid t x]) xs) @ rest) (s, sources) =
       process_ssrcs media encodings rest (s', sources')
     \<and> sources_ok sources' \<and> same_frame s' s
     \<and> (\<forall>y. Map_get sources' y =
            (if y \<in> set xs then Some (source_of (sid, t) y) else Map_get sources y))
     \<and> track_at s' =
         (if xs = [] then track_at s
          else (track_at s)((sid, track_id t) \<mapsto>
                 (case track_at s (sid, track_id t) of
                    None \<Rightarrow> (new_track media encodings (track_id t))\<lparr>track_ssrcs := xs\<rparr>
                  | Some t0 \<Rightarrow> t0\<lparr>track_ssrcs := track_ssrcs t0 @ xs\<rparr>)))"
  using assms(3)
proof (induction xs arbitrary: s sources)
  case Nil
  then show ?case
    by (intro exI [of _ s] exI [of _ sources]) (simp add: same_frame_refl)
next
  case (Cons x xs)
  let ?s1 = "upsert_track sid (track_id t) (new_track media encodings (track_id t)) (addSSRC x) s"
  let ?src = "\<lparr>source_ssrc = x, source_cname = Some sid, source_streamId = Some sid,
                   source_trackId = track_id t\<rparr>"
  let ?S1 = "Map_set x ?src sources"
  have ok1: "sources_ok ?S1"
    by (rule sources_ok_Map_set [OF Cons.prems]) simp
  from Cons.IH [OF ok1, of ?s1] obtain s' sources' where
    run: "process_ssrcs media encodings
         (concat (map (\<lambda>x. [cname_line sid x, msid_line sid t x]) xs) @ rest) (?s1, ?S1) =
       process_ssrcs media encodings rest (s', sources')"
    and ok: "sources_ok sources'" and fr: "same_frame s' ?s1"
    and src: "\<forall>y. Map_get sources' y =
            (if y \<in> set xs then Some (source_of (sid, t) y) else Map_get ?S1 y)"
    and tr: "track_at s' =
         (if xs = [] then track_at ?s1
          else (track_at ?s1)((sid, track_id t) \<mapsto>
                 (case track_at ?s1 (sid, track_id t) of
                    None \<Rightarrow> (new_track media encodings (track_id t))\<lparr>track_ssrcs := xs\<rparr>
                  | Some t0 \<Rightarrow> t0\<lparr>track_ssrcs := track_ssrcs t0 @ xs\<rparr>)))"
    by blast
  have run': "process_ssrcs media encodings
         (concat (map (\<lambda>x. [cname_line sid x, msid_line sid t x]) (x # xs)) @ rest) (s, sources) =
       process_ssrcs media encodings rest (s', sources')"
    using planB_pair [OF assms(1) Cons.prems, of media encodings x _ s] run by simp
  have src': "\<forall>y. Map_get sources' y =
            (if y \<in> set (x # xs) then Some (source_of (sid, t) y) else Map_get sources y)"
    using src assms(2) by (simp add: Map_get_Map_set source_of_def)
  have tr': "track_at s' =
         (track_at s)((sid, track_id t) \<mapsto>
                 (case track_at s (sid, track_id t) of
                    None \<Rightarrow> (new_track media encodings (track_id t))\<lparr>track_ssrcs := x # xs\<rparr>
                  | Some t0 \<Rightarrow> t0\<lparr>track_ssrcs := track_ssrcs t0 @ x # xs\<rparr>))"
    unfolding tr track_at_addSSRC
    by (auto simp: addSSRC_def new_track_def TrackInfo_new_def split: option.splits)
  show ?case
  proof (intro exI [of _ s'] exI [of _ sources'] conjI)
    show "process_ssrcs media encodings
         (concat (map (\<lambda>x. [cname_line sid x, msid_line sid t x]) (x # xs)) @ rest) (s, sources) =
       process_ssrcs media encodings rest (s', sources')"
      by (fact run')
    show "sources_ok sources'" by (fact ok)
    show "same_frame s' s" by (rule same_frame_trans [OF fr same_frame_upsert])
    show "\<forall>y. Map_get sources' y =
            (if y \<in> set (x # xs) then Some (source_of (sid, t) y) else Map_get sources y)"
      by (fact src')
    show "track_at s' =
         (if x # xs = [] then track_at s
          else (track_at s)((sid, track_id t) \<mapsto>
                 (case track_at s (sid, track_id t) of
                    None \<Rightarrow> (new_track media encodings (track_id t))\<lparr>track_ssrcs := x # xs\<rparr>
                  | Some t0 \<Rightarrow> t0\<lparr>track_ssrcs := track_ssrcs t0 @ x # xs\<rparr>)))"
      using tr' by simp
  qed
qed

lemma unified_block:
  assumes "unified t" and "sources_ok sources"
    and "\<forall>x \<in> set xs. Map_get sources x = None \<or> Map_get sources x = Some (source_of (sid, t) x)"
  shows "\<exists>sources'.
       process_ssrcs media encodings (map (cname_line sid) xs @ rest) (s, sources) =
       process_ssrcs media encodings rest (s, sources')
     \<and> sources_ok sources'
     \<and> (\<forall>y. Map_get sources' y =
            (if y \<in> set xs then Some (source_of (sid, t) y) else Map_get sources y))"
  using assms(2,3)
proof (induction xs arbitrary: sources)
  case Nil
  then show ?case
    by (intro exI [of _ sources]) simp
next
  case (Cons x xs)
  let ?S1 = "Map_set x ((fst (lookup_source sources x))\<lparr>source_cname := Some sid\<rparr>) sources"
  have val: "(fst (lookup_source sources x))\<lparr>source_cname := Some sid\<rparr> = source_of (sid, t) x"
    using Cons.prems(2) assms(1)
    by (auto simp: lookup_source_def source_of_def SourceInfo_new_def)
  have ok1: "sources_ok ?S1"
    by (rule sources_ok_Map_set [OF Cons.prems(1)]) (simp add: val source_of_def)
  have pre: "\<forall>y \<in> set xs. Map_get ?S1 y = None \<or> Map_get ?S1 y = Some (source_of (sid, t) y)"
    using Cons.prems(2) by (simp add: Map_get_Map_set val)
  from Cons.IH [OF ok1 pre] obtain sources' where
    run: "process_ssrcs media encodings (map (cname_line sid) xs @ rest) (s, ?S1) =
       process_ssrcs media encodings rest (s, sources')"
    and ok: "sources_ok sources'"
    and src: "\<forall>y. Map_get sources' y =
            (if y \<in> set xs then Some (source_of (sid, t) y) else Map_get ?S1 y)"
    by blast
  have "process_ssrcs media encodings (map (cname_line sid) (x # xs) @ rest) (s, sources) =
       process_ssrcs media encodings rest (s, sources')"
    using run by (simp add: cname_step del: process_ssrcs.simps)
  moreover have "\<forall>y. Map_get sources' y =
            (if y \<in> set (x # xs) then Some (source_of (sid, t) y) else Map_get sources y)"
    using src by (simp add: Map_get_Map_set val)
  ultimately show ?case using ok by (intro exI [of _ sources']) simp
qed

lemma ssrc_phase:
  assumes "\<forall>p \<in> set TR. wf_ids p"
    and "distinct (map track_key TR)"
    and "disjoint_ssrcs TR"
    and "sources_ok sources"
    and "\<forall>p \<in> set TR. \<forall>x \<in> set (track_ssrcs (snd p)). Map_get sources x = None"
    and "\<forall>p \<in> set TR. track_at s (track_key p) = None"
  shows "\<exists>s' sources'.
       process_ssrcs media encodings (concat (map ssrc_block TR) @ rest) (s, sources) =
       process_ssrcs media encodings rest (s', sources')
     \<and> sources_ok sources' \<and> same_frame s' s
     \<and> (\<forall>p \<in> set TR. \<forall>x \<in> set (track_ssrcs (snd p)). Map_get sources' x = Some (source_of p x))
     \<and> (\<forall>y. (\<forall>p \<in> set TR. y \<notin> set (track_ssrcs (snd p))) \<longrightarrow> Map_get sources' y = Map_get sources y)
     \<and> (\<forall>p \<in> set TR. track_at s' (track_key p) =
           (if unified (snd p) \<or> track_ssrcs (snd p) = [] then None
            else Some ((new_track media encodings (track_id (snd p)))
                         \<lparr>track_ssrcs := track_ssrcs (snd p)\<rparr>)))
     \<and> (\<forall>key. key \<notin> track_key ` set TR \<longrightarrow> track_at s' key = track_at s key)"
  using assms
proof (induction TR arbitrary: s sources)
  case Nil
  show ?case
    by (intro exI [of _ s] exI [of _ sources]) (simp add: same_frame_refl Nil.prems)
next
  case (Cons p TR)
  obtain sid t where p: "p = (sid, t)" by (cases p)
  from Cons.prems(1) p have wf: "wf_ids (sid, t)" by simp
  from Cons.prems(2) have key_p: "track_key p \<notin> track_key ` set TR" and dk: "distinct (map track_key TR)"
    by auto
  then have p_notin: "p \<notin> set TR" by auto
  from Cons.prems(3) have dj: "disjoint_ssrcs TR"
    by (auto simp: disjoint_ssrcs_def)
  from Cons.prems(3) p_notin
  have away: "\<forall>q \<in> set TR. \<forall>x \<in> set (track_ssrcs (snd q)). x \<notin> set (track_ssrcs t)"
    unfolding disjoint_ssrcs_def p by (metis IntI empty_iff list.set_intros(1,2) p snd_conv)
  \<comment> \<open>the block of the first track\<close>
  have "\<exists>s1 S1.
       process_ssrcs media encodings (concat (map ssrc_block (p # TR)) @ rest) (s, sources) =
       process_ssrcs media encodings (concat (map ssrc_block TR) @ rest) (s1, S1)
     \<and> sources_ok S1 \<and> same_frame s1 s
     \<and> (\<forall>y. Map_get S1 y = (if y \<in> set (track_ssrcs t) then Some (source_of p y) else Map_get sources y))
     \<and> track_at s1 =
         (if unified t \<or> track_ssrcs t = [] then track_at s
          else (track_at s)(track_key p \<mapsto>
                 (new_track media encodings (track_id t))\<lparr>track_ssrcs := track_ssrcs t\<rparr>))"
  proof (cases "unified t")
    case True
    have pre: "\<forall>x \<in> set (track_ssrcs t). Map_get sources x = None \<or> Map_get sources x = Some (source_of (sid, t) x)"
      using Cons.prems(5) p by simp
    from unified_block [OF True Cons.prems(4) pre, of media encodings "concat (map ssrc_block TR) @ rest" s]
    obtain S1 where
      "process_ssrcs media encodings (map (cname_line sid) (track_ssrcs t) @ concat (map ssrc_block TR) @ rest) (s, sources) =
         process_ssrcs media encodings (concat (map ssrc_block TR) @ rest) (s, S1)"
      "sources_ok S1"
      "\<forall>y. Map_get S1 y = (if y \<in> set (track_ssrcs t) then Some (source_of (sid, t) y) else Map_get sources y)"
      by blast
    with True show ?thesis
      by (intro exI [of _ s] exI [of _ S1]) (simp add: p ssrc_block_def same_frame_refl)
  next
    case False
    from planB_block [OF wf False Cons.prems(4), of media encodings "track_ssrcs t" "concat (map ssrc_block TR) @ rest" s]
    obtain s1 S1 where
      "process_ssrcs media encodings
         (concat (map (\<lambda>x. [cname_line sid x, msid_line sid t x]) (track_ssrcs t)) @ concat (map ssrc_block TR) @ rest) (s, sources) =
       process_ssrcs media encodings (concat (map ssrc_block TR) @ rest) (s1, S1)"
      "sources_ok S1" "same_frame s1 s"
      "\<forall>y. Map_get S1 y = (if y \<in> set (track_ssrcs t) then Some (source_of (sid, t) y) else Map_get sources y)"
      "track_at s1 =
         (if track_ssrcs t = [] then track_at s
          else (track_at s)((sid, track_id t) \<mapsto>
                 (case track_at s (sid, track_id t) of
                    None \<Rightarrow> (new_track media encodings (track_id t))\<lparr>track_ssrcs := track_ssrcs t\<rparr>
                  | Some t0 \<Rightarrow> t0\<lparr>track_ssrcs := track_ssrcs t0 @ track_ssrcs t\<rparr>)))"
      by blast
    moreover have "track_at s (sid, track_id t) = None"
      using Cons.prems(6) p by (simp add: track_key_def)
    ultimately show ?thesis using False
      by (intro exI [of _ s1] exI [of _ S1]) (simp add: p ssrc_block_def track_key_def)
  qed
  then obtain s1 S1 where
    run1: "process_ssrcs media encodings (concat (map ssrc_block (p # TR)) @ rest) (s, sources) =
       process_ssrcs media encodings (concat (map ssrc_block TR) @ rest) (s1, S1)"
    and ok1: "sources_ok S1" and fr1: "same_frame s1 s"
    and src1: "\<forall>y. Map_get S1 y = (if y \<in> set (track_ssrcs t) then Some (source_of p y) else Map_get sources y)"
    and tr1: "track_at s1 =
         (if unified t \<or> track_ssrcs t = [] then track_at s
          else (track_at s)(track_key p \<mapsto>
                 (new_track media encodings (track_id t))\<lparr>track_ssrcs := track_ssrcs t\<rparr>))"
    by blast
  have other: "\<And>key. key \<noteq> track_key p \<Longrightarrow> track_at s1 key = track_at s key"
    using tr1 by simp
  have pre5: "\<forall>q \<in> set TR. \<forall>x \<in> set (track_ssrcs (snd q)). Map_get S1 x = None"
    using src1 away Cons.prems(5) by simp
  have pre6: "\<forall>q \<in> set TR. track_at s1 (track_key q) = None"
    using other key_p Cons.prems(6) by (metis image_eqI list.set_intros(2))
  from Cons.IH [OF _ dk dj ok1 pre5 pre6] Cons.prems(1)
  obtain s' sources' where
    run: "process_ssrcs media encodings (concat (map ssrc_block TR) @ rest) (s1, S1) =
       process_ssrcs media encodings rest (s', sources')"
    and ok: "sources_ok sources'" and fr: "same_frame s' s1"
    and src: "\<forall>q \<in> set TR. \<forall>x \<in> set (track_ssrcs (snd q)). Map_get sources' x = Some (source_of q x)"
    and src_other: "\<forall>y. (\<forall>q \<in> set TR. y \<notin> set (track_ssrcs (snd q))) \<longrightarrow> Map_get sources' y = Map_get S1 y"
    and tr: "\<forall>q \<in> set TR. track_at s' (track_key q) =
           (if unified (snd q) \<or> track_ssrcs (snd q) = [] then None
            else Some ((new_track media encodings (track_id (snd q)))
                         \<lparr>track_ssrcs := track_ssrcs (snd q)\<rparr>))"
    and tr_other: "\<forall>key. key \<notin> track_key ` set TR \<longrightarrow> track_at s' key = track_at s1 key"
    by auto
  show ?case
  proof (intro exI [of _ s'] exI [of _ sources'] conjI)
    show "process_ssrcs media encodings (concat (map ssrc_block (p # TR)) @ rest) (s, sources) =
       process_ssrcs media encodings rest (s', sources')"
      using run1 run by simp
    show "sources_ok sources'" by (fact ok)
    show "same_frame s' s" by (rule same_frame_trans [OF fr fr1])
    have first: "\<forall>x \<in> set (track_ssrcs t). Map_get sources' x = Some (source_of p x)"
    proof
      fix x assume x: "x \<in> set (track_ssrcs t)"
      with away have "\<forall>q \<in> set TR. x \<notin> set (track_ssrcs (snd q))" by blast
      with src_other have "Map_get sources' x = Map_get S1 x" by simp
      with src1 x show "Map_get sources' x = Some (source_of p x)" by simp
    qed
    show "\<forall>q \<in> set (p # TR). \<forall>x \<in> set (track_ssrcs (snd q)). Map_get sources' x = Some (source_of q x)"
      using src first p by simp
    show "\<forall>y. (\<forall>q \<in> set (p # TR). y \<notin> set (track_ssrcs (snd q))) \<longrightarrow> Map_get sources' y = Map_get sources y"
      using src_other src1 p by simp
    show "\<forall>q \<in> set (p # TR). track_at s' (track_key q) =
           (if unified (snd q) \<or> track_ssrcs (snd q) = [] then None
            else Some ((new_track media encodings (track_id (snd q)))
                         \<lparr>track_ssrcs := track_ssrcs (snd q)\<rparr>))"
    proof -
      have "track_at s' (track_key p) = track_at s1 (track_key p)"
        by (rule tr_other [rule_format, OF key_p])
      moreover have "track_at s (track_key p) = None"
        using Cons.prems(6) by simp
      ultimately have "track_at s' (track_key p) =
           (if unified (snd p) \<or> track_ssrcs (snd p) = [] then None
            else Some ((new_track media encodings (track_id (snd p)))
                         \<lparr>track_ssrcs := track_ssrcs (snd p)\<rparr>))"
        using tr1 p by simp
      with tr show ?thesis by simp
    qed
    show "\<forall>key. key \<notin> track_key ` set (p # TR) \<longrightarrow> track_at s' key = track_at s key"
    proof (intro allI impI)
      fix key assume k: "key \<notin> track_key ` set (p # TR)"
      then have "key \<notin> track_key ` set TR" and "key \<noteq> track_key p" by auto
      with tr_other [rule_format, of key] other [of key] show "track_at s' key = track_at s key"
        by simp
    qed
  qed
qed

subsection \<open>The ssrc groups of a track\<close>

lemma all_numbers: "list_all is_number vs \<Longrightarrow> \<exists>ns. vs = map Number ns"
proof (induction vs)
  case Nil
  then show ?case by simp
next
  case (Cons v vs)
  then obtain ns where "vs = map Number ns" by auto
  moreover from Cons.prems obtain n where "v = Number n"
    by (auto simp: is_number_def split: jsval.splits)
  ultimately have "v # vs = map Number (n # ns)" by simp
  then show ?case by (rule exI [of _ "n # ns"])
qed

lemma wf_group_numbers:
  assumes "wf_group t g"
  shows "\<exists>n ns. group_ssrcs g = map Number (n # ns) \<and> n \<in> set (track_ssrcs t)"
proof -
  from assms obtain v vs where g: "group_ssrcs g = v # vs" and vs: "list_all is_number vs"
    and v: "(case v of Number n \<Rightarrow> n \<in> set (track_ssrcs t) | _ \<Rightarrow> False)"
    by (auto simp: wf_group_def split: list.splits)
  from v obtain n where n: "v = Number n" "n \<in> set (track_ssrcs t)"
    by (cases v) auto
  from all_numbers [OF vs] obtain ns where "vs = map Number ns" by blast
  with g n have "group_ssrcs g = map Number (n # ns)" by simp
  with n show ?thesis by blast
qed

lemma group_line_parsed:
  assumes "group_ssrcs g = map Number (n # ns)"
  shows "SourceGroupInfo_new (sg_semantics (group_line g)) (split CHR '' '' (sg_ssrcs (group_line g))) = g
     \<and> parseInt (first (split CHR '' '' (sg_ssrcs (group_line g)))) = Number n"
proof -
  have "split CHR '' '' (join '' '' (map Number_toString (n # ns))) = map Number_toString (n # ns)"
    by (rule split_join) (auto simp: Number_toString_no_space)
  then have sp: "split CHR '' '' (sg_ssrcs (group_line g)) = map Number_toString (n # ns)"
    using assms by (simp add: group_line_def jsval_toString_def comp_def)
  have "map parseInt (map Number_toString (n # ns)) = map Number (n # ns)"
    by (simp add: parseInt_Number_toString comp_def)
  with sp assms show ?thesis
    by (simp add: SourceGroupInfo_new_def group_line_def first_def parseInt_Number_toString)
qed

lemma track_at_store:
  "Map_get (streams s) sid = Some stream \<Longrightarrow>
   track_at (store_track sid tid t stream s) = (track_at s)((sid, tid) \<mapsto> t)"
  by (rule ext) (auto simp: track_at_def store_track_def Map_get_Map_set)

lemma group_step:
  assumes "wf_group t g"
    and "owned sources [(sid, t)]"
    and "track_at s (sid, track_id t) = Some t0"
  shows "\<exists>s'. process_ssrcGroup sources (group_line g) s = Inr s' \<and> same_frame s' s
     \<and> track_at s' = (track_at s)((sid, track_id t) \<mapsto> addSourceGroup g t0)"
proof -
  from wf_group_numbers [OF assms(1)] obtain n ns where
    g: "group_ssrcs g = map Number (n # ns)" and n: "n \<in> set (track_ssrcs t)"
    by blast
  from assms(2) n obtain source where src: "Map_get sources n = Some source"
    "source_streamId source = Some sid" "source_trackId source = track_id t"
    by (auto simp: owned_def)
  from assms(3) obtain stream where st: "Map_get (streams s) sid = Some stream"
    "Map_get (tracks stream) (track_id t) = Some t0"
    by (auto simp: track_at_def split: option.splits)
  let ?s' = "store_track sid (track_id t) (addSourceGroup g t0) stream s"
  have "process_ssrcGroup sources (group_line g) s = Inr ?s'"
    using group_line_parsed [OF g] src st
    by (simp add: process_ssrcGroup_def Let_def get_source_def getStream_def getTrack_def)
  moreover have "same_frame ?s' s"
    by (simp add: same_frame_def store_track_def)
  ultimately show ?thesis
    using track_at_store [OF st(1)] by blast
qed

lemma process_ssrcGroups_append:
  "process_ssrcGroups sources (as @ bs) s =
     (case process_ssrcGroups sources as s of
        Inl e \<Rightarrow> Inl e
      | Inr s' \<Rightarrow> process_ssrcGroups sources bs s')"
  by (induction as arbitrary: s) (simp_all split: sum.splits)

lemma groups_of_track:
  assumes "list_all (wf_group t) gs"
    and "owned sources [(sid, t)]"
    and "track_at s (sid, track_id t) = Some t0"
  shows "\<exists>s'. process_ssrcGroups sources (map group_line gs @ rest) s =
         process_ssrcGroups sources rest s'
     \<and> same_frame s' s
     \<and> track_at s' = (track_at s)((sid, track_id t) \<mapsto> t0\<lparr>track_groups := track_groups t0 @ gs\<rparr>)"
  using assms(1,3)
proof (induction gs arbitrary: s t0)
  case Nil
  show ?case
    using Nil.prems(2) by (intro exI [of _ s]) (auto simp: same_frame_refl)
next
  case (Cons g gs)
  from Cons.prems(1) have wf: "wf_group t g" and rest: "list_all (wf_group t) gs"
    by simp_all
  from group_step [OF wf assms(2) Cons.prems(2)] obtain s1 where
    s1: "process_ssrcGroup sources (group_line g) s = Inr s1" and fr1: "same_frame s1 s"
    and tr1: "track_at s1 = (track_at s)((sid, track_id t) \<mapsto> addSourceGroup g t0)"
    by blast
  have here: "track_at s1 (sid, track_id t) = Some (addSourceGroup g t0)"
    using tr1 by simp
  from Cons.IH [OF rest here] obtain s' where
    run: "process_ssrcGroups sources (map group_line gs @ rest) s1 =
         process_ssrcGroups sources rest s'"
    and fr: "same_frame s' s1"
    and tr: "track_at s' = (track_at s1)((sid, track_id t) \<mapsto>
               (addSourceGroup g t0)\<lparr>track_groups := track_groups (addSourceGroup g t0) @ gs\<rparr>)"
    by blast
  show ?case
  proof (intro exI [of _ s'] conjI)
    show "process_ssrcGroups sources (map group_line (g # gs) @ rest) s =
         process_ssrcGroups sources rest s'"
      using s1 run by simp
    show "same_frame s' s" by (rule same_frame_trans [OF fr fr1])
    show "track_at s' = (track_at s)((sid, track_id t) \<mapsto> t0\<lparr>track_groups := track_groups t0 @ g # gs\<rparr>)"
      unfolding tr tr1 by (simp add: addSourceGroup_def)
  qed
qed

lemma owned_subset: "owned sources TR \<Longrightarrow> set TR' \<subseteq> set TR \<Longrightarrow> owned sources TR'"
  by (auto simp: owned_def)

lemma group_phase:
  assumes "owned sources TR"
    and "\<forall>p \<in> set TR. list_all (wf_group (snd p)) (track_groups (snd p))"
    and "distinct (map track_key TR)"
    and "\<forall>p \<in> set TR. track_at s (track_key p) \<noteq> None"
  shows "\<exists>s'. process_ssrcGroups sources (concat (map group_block TR) @ rest) s =
         process_ssrcGroups sources rest s'
     \<and> same_frame s' s
     \<and> (\<forall>p \<in> set TR. track_at s' (track_key p) =
           map_option (\<lambda>t0. t0\<lparr>track_groups := track_groups t0 @ track_groups (snd p)\<rparr>)
             (track_at s (track_key p)))
     \<and> (\<forall>key. key \<notin> track_key ` set TR \<longrightarrow> track_at s' key = track_at s key)"
  using assms
proof (induction TR arbitrary: s)
  case Nil
  show ?case by (intro exI [of _ s]) (simp add: same_frame_refl)
next
  case (Cons p TR)
  obtain sid t where p: "p = (sid, t)" by (cases p)
  from Cons.prems(3) have key_p: "track_key p \<notin> track_key ` set TR" and dk: "distinct (map track_key TR)"
    by auto
  from Cons.prems(4) obtain t0 where t0: "track_at s (sid, track_id t) = Some t0"
    by (auto simp: p track_key_def)
  have own1: "owned sources [(sid, t)]"
    by (rule owned_subset [OF Cons.prems(1)]) (simp add: p)
  have wfs: "list_all (wf_group t) (track_groups t)"
    using Cons.prems(2) p by simp
  from groups_of_track [OF wfs own1 t0, of "concat (map group_block TR) @ rest"] obtain s1 where
    run1: "process_ssrcGroups sources (map group_line (track_groups t) @ concat (map group_block TR) @ rest) s =
         process_ssrcGroups sources (concat (map group_block TR) @ rest) s1"
    and fr1: "same_frame s1 s"
    and tr1: "track_at s1 = (track_at s)((sid, track_id t) \<mapsto> t0\<lparr>track_groups := track_groups t0 @ track_groups t\<rparr>)"
    by blast
  have other: "\<And>key. key \<noteq> track_key p \<Longrightarrow> track_at s1 key = track_at s key"
    using tr1 by (simp add: p track_key_def)
  have pre4: "\<forall>q \<in> set TR. track_at s1 (track_key q) \<noteq> None"
    using other key_p Cons.prems(4) by (metis image_eqI list.set_intros(2))
  have own: "owned sources TR"
    by (rule owned_subset [OF Cons.prems(1)]) auto
  from Cons.IH [OF own _ dk pre4] Cons.prems(2) obtain s' where
    run: "process_ssrcGroups sources (concat (map group_block TR) @ rest) s1 =
         process_ssrcGroups sources rest s'"
    and fr: "same_frame s' s1"
    and tr: "\<forall>q \<in> set TR. track_at s' (track_key q) =
           map_option (\<lambda>t0. t0\<lparr>track_groups := track_groups t0 @ track_groups (snd q)\<rparr>)
             (track_at s1 (track_key q))"
    and tr_other: "\<forall>key. key \<notin> track_key ` set TR \<longrightarrow> track_at s' key = track_at s1 key"
    by auto
  show ?case
  proof (intro exI [of _ s'] conjI)
    show "process_ssrcGroups sources (concat (map group_block (p # TR)) @ rest) s =
         process_ssrcGroups sources rest s'"
      using run1 run by (simp add: p group_block_def)
    show "same_frame s' s" by (rule same_frame_trans [OF fr fr1])
    show "\<forall>q \<in> set (p # TR). track_at s' (track_key q) =
           map_option (\<lambda>t0. t0\<lparr>track_groups := track_groups t0 @ track_groups (snd q)\<rparr>)
             (track_at s (track_key q))"
    proof
      fix q assume q: "q \<in> set (p # TR)"
      show "track_at s' (track_key q) =
           map_option (\<lambda>t0. t0\<lparr>track_groups := track_groups t0 @ track_groups (snd q)\<rparr>)
             (track_at s (track_key q))"
      proof (cases "q = p")
        case True
        have "track_at s' (track_key p) = track_at s1 (track_key p)"
          by (rule tr_other [rule_format, OF key_p])
        with tr1 t0 True show ?thesis by (simp add: p track_key_def)
      next
        case False
        with q have qin: "q \<in> set TR" by simp
        with key_p have "track_key q \<noteq> track_key p" by (metis image_eqI)
        with tr qin other show ?thesis by simp
      qed
    qed
    show "\<forall>key. key \<notin> track_key ` set (p # TR) \<longrightarrow> track_at s' key = track_at s key"
    proof (intro allI impI)
      fix key assume k: "key \<notin> track_key ` set (p # TR)"
      then have "key \<notin> track_key ` set TR" and "key \<noteq> track_key p" by auto
      with tr_other [rule_format, of key] other [of key] show "track_at s' key = track_at s key"
        by simp
    qed
  qed
qed

subsection \<open>The msid of a media line\<close>

lemma fold_addSSRC: "fold addSSRC xs t = t\<lparr>track_ssrcs := track_ssrcs t @ xs\<rparr>"
  by (induction xs arbitrary: t) (simp_all add: addSSRC_def)

lemma process_msid_upsert:
  assumes "md_msid md = Some (msid_text sid t)" and "wf_ids (sid, t)"
  shows "process_msid md encodings (s, sources) =
     (upsert_track sid (track_id t) (new_media_track md encodings (track_id t))
        (fold addSSRC (map fst (filter (\<lambda>(k, source). \<not> truthy (source_streamId source)) sources))) s,
      map (\<lambda>(k, source).
             (k, if \<not> truthy (source_streamId source)
                 then source\<lparr>source_streamId := Some sid, source_trackId := track_id t\<rparr>
                 else source)) sources)"
proof -
  have "truthy (md_msid md)"
    using assms(1) by (simp add: truthy_def msid_text_def)
  then show ?thesis
    using msid_ids [OF assms(2)] assms(1)
    by (simp add: process_msid_def Let_def js_str_def upsert_track_def new_media_track_def
        case_prod_unfold)
qed

lemma Map_get_map_values:
  "Map_get (map (\<lambda>(k, v). (k, f v)) m) x = map_option f (Map_get m x)"
  by (induction m) (auto simp: Map_get_def)

lemma filter_keys:
  assumes "distinct (map fst m)"
  shows "set (map fst (filter (\<lambda>(k, v). P v) m)) = {x. \<exists>v. Map_get m x = Some v \<and> P v}"
  using assms by (auto simp: Map_get_def image_iff)

lemma msid_phase:
  assumes wf: "\<forall>p \<in> set TR. wf_ids p"
    and dk: "distinct (map track_key TR)"
    and one: "\<forall>p \<in> set TR. \<forall>q \<in> set TR. unified (snd p) \<and> unified (snd q) \<longrightarrow> p = q"
    and msid: "md_msid md = msid_of TR"
    and ok: "sources_ok S1"
    and src: "\<forall>p \<in> set TR. \<forall>x \<in> set (track_ssrcs (snd p)). Map_get S1 x = Some (source_of p x)"
    and src_other: "\<forall>y. (\<forall>p \<in> set TR. y \<notin> set (track_ssrcs (snd p))) \<longrightarrow> Map_get S1 y = None"
    and tr: "\<forall>p \<in> set TR. track_at s1 (track_key p) =
           (if unified (snd p) \<or> track_ssrcs (snd p) = [] then None
            else Some ((new_track media encodings (track_id (snd p)))
                         \<lparr>track_ssrcs := track_ssrcs (snd p)\<rparr>))"
    and ne: "\<forall>p \<in> set TR. unified (snd p) \<or> track_ssrcs (snd p) \<noteq> []"
  shows "\<exists>s2 S2. process_msid md encodings (s1, S1) = (s2, S2) \<and> same_frame s2 s1
     \<and> owned S2 TR
     \<and> (\<forall>p \<in> set TR. \<exists>t'. track_at s2 (track_key p) = Some t'
            \<and> set (track_ssrcs t') = set (track_ssrcs (snd p)) \<and> track_groups t' = [])
     \<and> (\<forall>key. key \<notin> track_key ` set TR \<longrightarrow> track_at s2 key = track_at s1 key)"
proof (cases "filter (\<lambda>p. unified (snd p)) TR")
  case Nil
  then have planB: "\<forall>p \<in> set TR. \<not> unified (snd p)"
    by (simp add: filter_empty_conv)
  from Nil msid have "process_msid md encodings (s1, S1) = (s1, S1)"
    by (simp add: msid_of_def process_msid_def truthy_def)
  moreover have "owned S1 TR"
    using src planB by (simp add: owned_def source_of_def)
  moreover have "\<forall>p \<in> set TR. \<exists>t'. track_at s1 (track_key p) = Some t'
            \<and> set (track_ssrcs t') = set (track_ssrcs (snd p)) \<and> track_groups t' = []"
    using tr planB ne by (simp add: new_track_def TrackInfo_new_def)
  ultimately show ?thesis
    by (intro exI [of _ s1] exI [of _ S1]) (simp add: same_frame_refl)
next
  case (Cons v vs)
  define u where "u = last (v # vs)"
  have "u \<in> set (filter (\<lambda>p. unified (snd p)) TR)"
    unfolding u_def Cons by (rule last_in_set) simp
  then have u: "u \<in> set TR" "unified (snd u)" by simp_all
  have only: "\<And>p. p \<in> set TR \<Longrightarrow> unified (snd p) \<Longrightarrow> p = u"
    using one u by blast
  obtain sid t where ut: "u = (sid, t)" by (cases u)
  from wf u ut have wfu: "wf_ids (sid, t)" by auto
  have m: "md_msid md = Some (msid_text sid t)"
    using msid Cons ut by (simp add: msid_of_def u_def)
  let ?free = "map fst (filter (\<lambda>(k, source). \<not> truthy (source_streamId source)) S1)"
  let ?S2 = "map (\<lambda>(k, source).
             (k, if \<not> truthy (source_streamId source)
                 then source\<lparr>source_streamId := Some sid, source_trackId := track_id t\<rparr>
                 else source)) S1"
  let ?s2 = "upsert_track sid (track_id t) (new_media_track md encodings (track_id t))
        (fold addSSRC ?free) s1"
  have run: "process_msid md encodings (s1, S1) = (?s2, ?S2)"
    by (rule process_msid_upsert [OF m wfu])
  have truthy_planB: "\<And>p x. p \<in> set TR \<Longrightarrow> truthy (source_streamId (source_of p x)) = (\<not> unified (snd p))"
    using wf by (auto simp: source_of_def truthy_def wf_ids_def)
  have free: "set ?free = set (track_ssrcs t)"
  proof -
    have "set ?free = {x. \<exists>source. Map_get S1 x = Some source \<and> \<not> truthy (source_streamId source)}"
      using ok by (intro filter_keys) (simp add: sources_ok_def)
    also have "\<dots> = set (track_ssrcs t)"
    proof (intro set_eqI iffI)
      fix x assume "x \<in> {x. \<exists>source. Map_get S1 x = Some source \<and> \<not> truthy (source_streamId source)}"
      then obtain source where g: "Map_get S1 x = Some source" and f: "\<not> truthy (source_streamId source)"
        by blast
      from g src_other obtain p where p: "p \<in> set TR" "x \<in> set (track_ssrcs (snd p))"
        by (metis option.distinct(1))
      with src g have "source = source_of p x" by simp
      with f truthy_planB [OF p(1)] have "unified (snd p)" by simp
      with only p(1) have "p = u" by simp
      with p(2) ut show "x \<in> set (track_ssrcs t)" by simp
    next
      fix x assume x: "x \<in> set (track_ssrcs t)"
      with src u ut have "Map_get S1 x = Some (source_of u x)" by auto
      moreover have "\<not> truthy (source_streamId (source_of u x))"
        using truthy_planB [OF u(1)] u(2) by simp
      ultimately show "x \<in> {x. \<exists>source. Map_get S1 x = Some source \<and> \<not> truthy (source_streamId source)}"
        by blast
    qed
    finally show ?thesis .
  qed
  have key_u: "track_at s1 (sid, track_id t) = None"
    using tr u ut by (auto simp: track_key_def)
  have tr2: "track_at ?s2 =
      (track_at s1)((sid, track_id t) \<mapsto>
         (new_media_track md encodings (track_id t))\<lparr>track_ssrcs := ?free\<rparr>)"
    using key_u
    by (subst track_at_upsert)
      (simp_all add: new_media_track_def TrackInfo_new_def fold_addSSRC)
  show ?thesis
  proof (intro exI [of _ ?s2] exI [of _ ?S2] conjI)
    show "process_msid md encodings (s1, S1) = (?s2, ?S2)" by (fact run)
    show "same_frame ?s2 s1" by (rule same_frame_upsert)
    show "owned ?S2 TR"
      unfolding owned_def
    proof (intro ballI)
      fix p x assume p: "p \<in> set TR" and x: "x \<in> set (track_ssrcs (snd p))"
      from src p x have g: "Map_get S1 x = Some (source_of p x)" by simp
      show "\<exists>source. Map_get ?S2 x = Some source \<and> source_streamId source = Some (fst p)
          \<and> source_trackId source = track_id (snd p)"
      proof (cases "unified (snd p)")
        case True
        with only p have "p = u" by simp
        with g True truthy_planB [OF p] ut show ?thesis
          by (simp add: Map_get_map_values)
      next
        case False
        with g truthy_planB [OF p] show ?thesis
          by (simp add: Map_get_map_values source_of_def)
      qed
    qed
    show "\<forall>p \<in> set TR. \<exists>t'. track_at ?s2 (track_key p) = Some t'
            \<and> set (track_ssrcs t') = set (track_ssrcs (snd p)) \<and> track_groups t' = []"
    proof
      fix p assume p: "p \<in> set TR"
      show "\<exists>t'. track_at ?s2 (track_key p) = Some t'
            \<and> set (track_ssrcs t') = set (track_ssrcs (snd p)) \<and> track_groups t' = []"
      proof (cases "p = u")
        case True
        then show ?thesis
          unfolding tr2 using free ut
          by (simp add: track_key_def new_media_track_def TrackInfo_new_def)
      next
        case False
        with only p have planB: "\<not> unified (snd p)" by blast
        from False p u dk have "track_key p \<noteq> track_key u"
          by (metis distinct_map inj_on_def)
        then have "track_at ?s2 (track_key p) = track_at s1 (track_key p)"
          unfolding tr2 by (auto simp: ut track_key_def)
        with tr p planB ne show ?thesis
          by (auto simp: new_track_def TrackInfo_new_def)
      qed
    qed
    show "\<forall>key. key \<notin> track_key ` set TR \<longrightarrow> track_at ?s2 key = track_at s1 key"
    proof (intro allI impI)
      fix key assume "key \<notin> track_key ` set TR"
      with u have "key \<noteq> track_key u" by auto
      then show "track_at ?s2 key = track_at s1 key"
        unfolding tr2 by (auto simp: ut track_key_def)
    qed
  qed
qed

subsection \<open>The media of a media line\<close>

lemma process_rtp_keys:
  "fst ` set (media_codecs (fst (process_rtp fmtps rtps (m, apts)))) =
     fst ` set (media_codecs m) \<union> rtp_payload ` {f \<in> set rtps. makes_codec (rtp_codec f)}"
  by (induction rtps arbitrary: m apts)
    (auto simp: Let_def makes_codec_def addCodec_def keys_Map_set CodecInfo_new_def)

lemma process_rtp_id_type:
  "media_id (fst (process_rtp fmtps rtps (m, apts))) = media_id m
   \<and> media_type (fst (process_rtp fmtps rtps (m, apts))) = media_type m"
  by (induction rtps arbitrary: m apts) (simp_all add: Let_def addCodec_def)

lemma set_rtx_keys:
  "fst ` set (media_codecs (set_rtx a m)) = fst ` set (media_codecs m)
   \<and> media_id (set_rtx a m) = media_id m \<and> media_type (set_rtx a m) = media_type m"
proof (cases "getCodecForType m (fst a)")
  case None
  then show ?thesis by (simp add: set_rtx_def)
next
  case (Some c)
  then obtain n where n: "fst a = Number n" "Map_get (media_codecs m) n = Some c"
    by (auto simp: getCodecForType_def split: jsval.splits)
  then have "n \<in> fst ` set (media_codecs m)"
    by (metis Map_get_def map_of_eq_None_iff option.distinct(1))
  with Some n show ?thesis
    by (auto simp: set_rtx_def store_codec_def keys_Map_set)
qed

lemma fold_set_rtx_keys:
  "fst ` set (media_codecs (fold set_rtx apts m)) = fst ` set (media_codecs m)
   \<and> media_id (fold set_rtx apts m) = media_id m \<and> media_type (fold set_rtx apts m) = media_type m"
  by (induction apts arbitrary: m) (simp_all add: set_rtx_keys)

lemma process_rid_fields:
  "media_codecs (process_rid r m) = media_codecs m \<and> media_id (process_rid r m) = media_id m
   \<and> media_type (process_rid r m) = media_type m"
  by (simp add: process_rid_def Let_def addRID_def)

lemma fold_process_rid_fields:
  "media_codecs (fold process_rid rs m) = media_codecs m \<and> media_id (fold process_rid rs m) = media_id m
   \<and> media_type (fold process_rid rs m) = media_type m"
  by (induction rs arbitrary: m) (simp_all add: process_rid_fields)

lemma fold_addExtension_fields:
  "media_codecs (fold (\<lambda>e. addExtension (ext_value e) (ext_uri e)) es m) = media_codecs m
   \<and> media_id (fold (\<lambda>e. addExtension (ext_value e) (ext_uri e)) es m) = media_id m
   \<and> media_type (fold (\<lambda>e. addExtension (ext_value e) (ext_uri e)) es m) = media_type m"
  by (induction es arbitrary: m) (simp_all add: addExtension_def)

lemma media_part_fields:
  "media_id (media_part md) = md_mid md \<and> media_type (media_part md) = md_type md
   \<and> fst ` set (media_codecs (media_part md)) =
       rtp_payload ` {f \<in> set (md_rtp md). makes_codec (rtp_codec f)}"
  by (simp add: media_part_def fold_process_rid_fields fold_addExtension_fields process_codecs_def
      case_prod_unfold fold_set_rtx_keys process_rtp_keys process_rtp_id_type MediaInfo_new_def)

lemma process_simulcast_dir_ok:
  "\<not> truthy d \<or> l \<noteq> None \<Longrightarrow> \<exists>r. process_simulcast_dir d l sim = Inr r"
  by (auto simp: process_simulcast_dir_def)

lemma process_simulcast_ok:
  assumes "simulcast_ok (md_simulcast md)"
  shows "\<exists>m' encodings. process_simulcast md m = Inr (m', encodings)
     \<and> media_codecs m' = media_codecs m \<and> media_id m' = media_id m \<and> media_type m' = media_type m"
proof (cases "md_simulcast md")
  case None
  then show ?thesis by (simp add: process_simulcast_def)
next
  case (Some a)
  with assms have a: "\<not> truthy (dir1 a) \<or> list1 a \<noteq> None" "\<not> truthy (dir2 a) \<or> list2 a \<noteq> None"
    by (simp_all add: simulcast_ok_def)
  from process_simulcast_dir_ok [OF a(1)] obtain s1 where
    s1: "process_simulcast_dir (dir1 a) (list1 a) \<lparr>sim_send = [], sim_recv = []\<rparr> = Inr s1"
    by blast
  from process_simulcast_dir_ok [OF a(2)] obtain s2 where
    s2: "process_simulcast_dir (dir2 a) (list2 a) s1 = Inr s2"
    by blast
  from Some s1 s2 show ?thesis by (simp add: process_simulcast_def)
qed

lemma process_media_unfold:
  assumes "md_fingerprint md = Some f"
    and "process_simulcast md (media_part md) = Inr (m5, encodings)"
  shows "process_media fp md s =
     (case process_ssrcs (md_type md) encodings (md_ssrcs md)
             (setDTLS (Some \<lparr>dtls_setup = (if truthy (md_setup md)
                                            then Setup_byValue (js_str (md_setup md))
                                            else Some ACTPASS),
                              dtls_hash = fp_type f, dtls_fingerprint = fp_hash f\<rparr>)
                (setICE (Some (ICEInfo_new (md_iceUfrag md) (md_icePwd md))) s), []) of
        Inl e \<Rightarrow> Inl e
      | Inr st \<Rightarrow>
          (case process_msid md encodings st of
             (sdpInfo3, sources) \<Rightarrow>
               (case process_ssrcGroups sources (md_ssrcGroups md) sdpInfo3 of
                  Inl e \<Rightarrow> Inl e
                | Inr sdpInfo4 \<Rightarrow> Inr (addMedia m5 sdpInfo4))))"
  using assms by (simp add: process_media_def Let_def media_part_def)

subsection \<open>One media line\<close>

lemma track_at_frame:
  "streams s' = streams s \<Longrightarrow> track_at s' = track_at s"
  by (rule ext) (simp add: track_at_def)

lemma line:
  assumes ssrcs: "md_ssrcs md = concat (map ssrc_block TR)"
    and groups: "md_ssrcGroups md = concat (map group_block TR)"
    and msid: "md_msid md = msid_of TR"
    and fp: "md_fingerprint md = Some f"
    and sim: "simulcast_ok (md_simulcast md)"
    and wf: "\<forall>p \<in> set TR. wf_track p"
    and dk: "distinct (map track_key TR)"
    and dj: "disjoint_ssrcs TR"
    and one: "single_unified TR"
    and fresh: "\<forall>p \<in> set TR. track_at s (track_key p) = None"
  shows "\<exists>s' m. process_media gf md s = Inr s' \<and> medias s' = medias s @ [m]
     \<and> media_id m = md_mid md \<and> media_type m = md_type md
     \<and> fst ` set (media_codecs m) = rtp_payload ` {f \<in> set (md_rtp md). makes_codec (rtp_codec f)}
     \<and> (\<forall>p \<in> set TR. \<exists>t'. track_at s' (track_key p) = Some t' \<and> same_track t' (snd p))
     \<and> (\<forall>key. key \<notin> track_key ` set TR \<longrightarrow> track_at s' key = track_at s key)"
proof -
  from process_simulcast_ok [OF sim, of "media_part md"] obtain m5 encodings where
    m5: "process_simulcast md (media_part md) = Inr (m5, encodings)"
    and m5_fields: "media_codecs m5 = media_codecs (media_part md)"
      "media_id m5 = media_id (media_part md)" "media_type m5 = media_type (media_part md)"
    by blast
  let ?s0 = "setDTLS (Some \<lparr>dtls_setup = (if truthy (md_setup md)
                                            then Setup_byValue (js_str (md_setup md))
                                            else Some ACTPASS),
                              dtls_hash = fp_type f, dtls_fingerprint = fp_hash f\<rparr>)
                (setICE (Some (ICEInfo_new (md_iceUfrag md) (md_icePwd md))) s)"
  have "track_at ?s0 = track_at s"
    by (rule track_at_frame) (simp add: setDTLS_def setICE_def)
  moreover have "medias ?s0 = medias s"
    by (simp add: setDTLS_def setICE_def)
  ultimately have s0: "track_at ?s0 = track_at s" "medias ?s0 = medias s"
    by blast+
  have wf_ids: "\<forall>p \<in> set TR. wf_ids p" and ne: "\<forall>p \<in> set TR. unified (snd p) \<or> track_ssrcs (snd p) \<noteq> []"
    and wfg: "\<forall>p \<in> set TR. list_all (wf_group (snd p)) (track_groups (snd p))"
    using wf by (simp_all add: wf_track_def)
  have ok0: "sources_ok []" by (simp add: sources_ok_def)
  have none0: "\<forall>p \<in> set TR. \<forall>x \<in> set (track_ssrcs (snd p)). Map_get [] x = None"
    by (simp add: Map_get_Nil)
  have fresh0: "\<forall>p \<in> set TR. track_at ?s0 (track_key p) = None"
    using fresh s0 by simp
  have "\<exists>s1 S1.
       process_ssrcs (md_type md) encodings (md_ssrcs md) (?s0, []) = Inr (s1, S1)
     \<and> sources_ok S1 \<and> same_frame s1 ?s0
     \<and> (\<forall>p \<in> set TR. \<forall>x \<in> set (track_ssrcs (snd p)). Map_get S1 x = Some (source_of p x))
     \<and> (\<forall>y. (\<forall>p \<in> set TR. y \<notin> set (track_ssrcs (snd p))) \<longrightarrow> Map_get S1 y = None)
     \<and> (\<forall>p \<in> set TR. track_at s1 (track_key p) =
           (if unified (snd p) \<or> track_ssrcs (snd p) = [] then None
            else Some ((new_track (md_type md) encodings (track_id (snd p)))
                         \<lparr>track_ssrcs := track_ssrcs (snd p)\<rparr>)))
     \<and> (\<forall>key. key \<notin> track_key ` set TR \<longrightarrow> track_at s1 key = track_at ?s0 key)"
    using ssrc_phase [OF wf_ids dk dj ok0 none0 fresh0, of "md_type md" encodings "[]"]
    by (simp only: ssrcs append_Nil2 process_ssrcs.simps(1) Map_get_Nil)
  then obtain s1 S1 where
    run1: "process_ssrcs (md_type md) encodings (md_ssrcs md) (?s0, []) = Inr (s1, S1)"
    and ok1: "sources_ok S1" and fr1: "same_frame s1 ?s0"
    and src1: "\<forall>p \<in> set TR. \<forall>x \<in> set (track_ssrcs (snd p)). Map_get S1 x = Some (source_of p x)"
    and src_other1: "\<forall>y. (\<forall>p \<in> set TR. y \<notin> set (track_ssrcs (snd p))) \<longrightarrow> Map_get S1 y = None"
    and tr1: "\<forall>p \<in> set TR. track_at s1 (track_key p) =
           (if unified (snd p) \<or> track_ssrcs (snd p) = [] then None
            else Some ((new_track (md_type md) encodings (track_id (snd p)))
                         \<lparr>track_ssrcs := track_ssrcs (snd p)\<rparr>))"
    and tr_other1: "\<forall>key. key \<notin> track_key ` set TR \<longrightarrow> track_at s1 key = track_at ?s0 key"
    by blast
  from msid_phase [OF wf_ids dk one [unfolded single_unified_def] msid ok1 src1 src_other1 tr1 ne]
  obtain s2 S2 where
    run2: "process_msid md encodings (s1, S1) = (s2, S2)" and fr2: "same_frame s2 s1"
    and own: "owned S2 TR"
    and tr2: "\<forall>p \<in> set TR. \<exists>t'. track_at s2 (track_key p) = Some t'
            \<and> set (track_ssrcs t') = set (track_ssrcs (snd p)) \<and> track_groups t' = []"
    and tr_other2: "\<forall>key. key \<notin> track_key ` set TR \<longrightarrow> track_at s2 key = track_at s1 key"
    by blast
  have some2: "\<forall>p \<in> set TR. track_at s2 (track_key p) \<noteq> None"
    using tr2 by auto
  have "\<exists>s3. process_ssrcGroups S2 (md_ssrcGroups md) s2 = Inr s3 \<and> same_frame s3 s2
     \<and> (\<forall>p \<in> set TR. track_at s3 (track_key p) =
           map_option (\<lambda>t0. t0\<lparr>track_groups := track_groups t0 @ track_groups (snd p)\<rparr>)
             (track_at s2 (track_key p)))
     \<and> (\<forall>key. key \<notin> track_key ` set TR \<longrightarrow> track_at s3 key = track_at s2 key)"
    using group_phase [OF own wfg dk some2, of "[]"]
    by (simp only: groups append_Nil2 process_ssrcGroups.simps(1))
  then obtain s3 where
    run3: "process_ssrcGroups S2 (md_ssrcGroups md) s2 = Inr s3" and fr3: "same_frame s3 s2"
    and tr3: "\<forall>p \<in> set TR. track_at s3 (track_key p) =
           map_option (\<lambda>t0. t0\<lparr>track_groups := track_groups t0 @ track_groups (snd p)\<rparr>)
             (track_at s2 (track_key p))"
    and tr_other3: "\<forall>key. key \<notin> track_key ` set TR \<longrightarrow> track_at s3 key = track_at s2 key"
    by blast
  let ?s' = "addMedia m5 s3"
  have run: "process_media gf md s = Inr ?s'"
    using process_media_unfold [OF fp m5, of gf s] run1 run2 run3 by simp
  have fr: "same_frame s3 ?s0"
    by (rule same_frame_trans [OF fr3 same_frame_trans [OF fr2 fr1]])
  have med: "medias ?s' = medias s @ [m5]"
    using fr s0 by (simp add: addMedia_def same_frame_def)
  have tr': "track_at ?s' = track_at s3"
    by (rule track_at_frame) (simp add: addMedia_def)
  show ?thesis
  proof (intro exI [of _ ?s'] exI [of _ m5] conjI)
    show "process_media gf md s = Inr ?s'" by (fact run)
    show "medias ?s' = medias s @ [m5]" by (fact med)
    show "media_id m5 = md_mid md" "media_type m5 = md_type md"
      "fst ` set (media_codecs m5) = rtp_payload ` {f \<in> set (md_rtp md). makes_codec (rtp_codec f)}"
      using m5_fields media_part_fields [of md] by simp_all
    show "\<forall>p \<in> set TR. \<exists>t'. track_at ?s' (track_key p) = Some t' \<and> same_track t' (snd p)"
    proof
      fix p assume p: "p \<in> set TR"
      with tr2 obtain t2 where t2: "track_at s2 (track_key p) = Some t2"
        "set (track_ssrcs t2) = set (track_ssrcs (snd p))" "track_groups t2 = []"
        by blast
      with tr3 p have "track_at s3 (track_key p) = Some (t2\<lparr>track_groups := track_groups (snd p)\<rparr>)"
        by simp
      with t2 show "\<exists>t'. track_at ?s' (track_key p) = Some t' \<and> same_track t' (snd p)"
        unfolding tr' by (simp add: same_track_def)
    qed
    show "\<forall>key. key \<notin> track_key ` set TR \<longrightarrow> track_at ?s' key = track_at s key"
      using tr_other1 tr_other2 tr_other3 s0 unfolding tr' by simp
  qed
qed

subsection \<open>The pass over the tracks, line by line\<close>

lemma track_matches_attach: "track_matches t (attach sid t' md) = track_matches t md"
  by (simp add: track_matches_def attach_mid_type)

lemma attach_track_Cons:
  "attach_track sid t (md # rest) =
     (if track_matches t md then attach sid t md # rest else md # attach_track sid t rest)"
  by (auto simp: track_matches_def attach_def)

lemma fold_attach_track_Nil: "fold (\<lambda>p. attach_track (fst p) (snd p)) TR [] = []"
  by (induction TR) simp_all

lemma fold_attach_track_Cons:
  "fold (\<lambda>p. attach_track (fst p) (snd p)) TR (md # rest) =
     fold (\<lambda>p. attach (fst p) (snd p)) (filter (\<lambda>p. track_matches (snd p) md) TR) md
       # fold (\<lambda>p. attach_track (fst p) (snd p)) (filter (\<lambda>p. \<not> track_matches (snd p) md) TR) rest"
proof (induction TR arbitrary: md rest)
  case Nil
  show ?case by simp
next
  case (Cons p TR)
  show ?case
  proof (cases "track_matches (snd p) md")
    case True
    have "fold (\<lambda>p. attach_track (fst p) (snd p)) (p # TR) (md # rest) =
        fold (\<lambda>p. attach_track (fst p) (snd p)) TR (attach (fst p) (snd p) md # rest)"
      using True by (simp add: attach_track_Cons del: attach_track.simps)
    also have "\<dots> =
        fold (\<lambda>p. attach (fst p) (snd p)) (filter (\<lambda>q. track_matches (snd q) md) TR) (attach (fst p) (snd p) md)
          # fold (\<lambda>p. attach_track (fst p) (snd p)) (filter (\<lambda>q. \<not> track_matches (snd q) md) TR) rest"
      by (simp add: Cons.IH track_matches_attach)
    finally show ?thesis using True by simp
  next
    case False
    have "fold (\<lambda>p. attach_track (fst p) (snd p)) (p # TR) (md # rest) =
        fold (\<lambda>p. attach_track (fst p) (snd p)) TR (md # attach_track (fst p) (snd p) rest)"
      using False by (simp add: attach_track_Cons del: attach_track.simps)
    also have "\<dots> =
        fold (\<lambda>p. attach (fst p) (snd p)) (filter (\<lambda>q. track_matches (snd q) md) TR) md
          # fold (\<lambda>p. attach_track (fst p) (snd p)) (filter (\<lambda>q. \<not> track_matches (snd q) md) TR)
              (attach_track (fst p) (snd p) rest)"
      by (simp add: Cons.IH)
    finally show ?thesis using False by simp
  qed
qed

lemma fold_attach_track_lines:
  "fold (\<lambda>p. attach_track (fst p) (snd p)) TR mds = lines TR mds"
  by (induction mds arbitrary: TR) (simp_all add: fold_attach_track_Nil fold_attach_track_Cons)

lemma toString_tracks_lines: "toString_tracks sts mds = lines (all_tracks sts) mds"
proof -
  have inner: "\<And>sid ts m. fold (attach_track sid) ts m =
      fold (\<lambda>p. attach_track (fst p) (snd p)) (map (Pair sid) ts) m"
    by (simp add: fold_map comp_def)
  have "\<And>m. fold (\<lambda>stream. fold (attach_track (stream_id stream)) (Map_values (tracks stream))) xs m =
      fold (\<lambda>p. attach_track (fst p) (snd p))
        (concat (map (\<lambda>st. map (Pair (stream_id st)) (Map_values (tracks st))) xs)) m" for xs
    by (induction xs) (simp_all add: inner)
  then show ?thesis
    by (simp add: toString_tracks_def all_tracks_def fold_attach_track_lines)
qed

lemma msid_of_Cons:
  "msid_of (p # TR) =
     (case msid_of TR of
        None \<Rightarrow> if unified (snd p) then Some (msid_text (fst p) (snd p)) else None
      | Some m \<Rightarrow> Some m)"
  by (simp add: msid_of_def split: list.splits)

lemma fold_attach_fields:
  "md_ssrcs (fold (\<lambda>p. attach (fst p) (snd p)) TR md) = md_ssrcs md @ concat (map ssrc_block TR)
   \<and> md_ssrcGroups (fold (\<lambda>p. attach (fst p) (snd p)) TR md) =
       md_ssrcGroups md @ concat (map group_block TR)
   \<and> md_msid (fold (\<lambda>p. attach (fst p) (snd p)) TR md) =
       (case msid_of TR of None \<Rightarrow> md_msid md | Some m \<Rightarrow> Some m)
   \<and> md_fingerprint (fold (\<lambda>p. attach (fst p) (snd p)) TR md) = md_fingerprint md
   \<and> md_simulcast (fold (\<lambda>p. attach (fst p) (snd p)) TR md) = md_simulcast md
   \<and> md_rtp (fold (\<lambda>p. attach (fst p) (snd p)) TR md) = md_rtp md
   \<and> md_mid (fold (\<lambda>p. attach (fst p) (snd p)) TR md) = md_mid md
   \<and> md_type (fold (\<lambda>p. attach (fst p) (snd p)) TR md) = md_type md"
proof (induction TR arbitrary: md)
  case Nil
  show ?case by (simp add: msid_of_def)
next
  case (Cons p TR)
  have other: "md_fingerprint (attach (fst p) (snd p) md) = md_fingerprint md"
    "md_simulcast (attach (fst p) (snd p) md) = md_simulcast md"
    "md_rtp (attach (fst p) (snd p) md) = md_rtp md"
    by (simp_all add: attach_def attach_unified_def attach_planB_def)
  show ?case
    using Cons.IH [of "attach (fst p) (snd p) md"] attach_fields [of "fst p" "snd p" md]
      attach_mid_type [of "fst p" "snd p" md] other
    by (simp add: msid_of_Cons split: option.splits)
qed

subsection \<open>process on the media descriptions after the pass\<close>

lemma disjoint_ssrcs_filter: "disjoint_ssrcs TR \<Longrightarrow> disjoint_ssrcs (filter P TR)"
  by (simp add: disjoint_ssrcs_def)

lemma unified_distinct_filter: "unified_distinct TR \<Longrightarrow> unified_distinct (filter P TR)"
  by (simp add: unified_distinct_def)

lemma single_unified_matching:
  assumes "unified_distinct TR"
  shows "single_unified (filter (\<lambda>p. track_matches (snd p) md) TR)"
  unfolding single_unified_def
proof (intro ballI impI)
  fix p q
  assume p: "p \<in> set (filter (\<lambda>p. track_matches (snd p) md) TR)"
    and q: "q \<in> set (filter (\<lambda>p. track_matches (snd p) md) TR)"
    and u: "unified (snd p) \<and> unified (snd q)"
  then have "track_mediaId (snd p) = Some (md_mid md)" "track_mediaId (snd q) = Some (md_mid md)"
    by (auto simp: track_matches_def unified_def split: if_splits)
  with assms p q u show "p = q"
    by (simp add: unified_distinct_def)
qed

lemma line_of_tracks:
  assumes "base_md md"
    and "\<forall>p \<in> set TR. wf_track p"
    and "distinct (map track_key TR)"
    and "disjoint_ssrcs TR"
    and "single_unified TR"
    and "\<forall>p \<in> set TR. track_at s (track_key p) = None"
  shows "\<exists>s' m. process_media gf (fold (\<lambda>p. attach (fst p) (snd p)) TR md) s = Inr s'
     \<and> medias s' = medias s @ [m]
     \<and> media_id m = md_mid md \<and> media_type m = md_type md
     \<and> fst ` set (media_codecs m) = codec_payloads md
     \<and> (\<forall>p \<in> set TR. \<exists>t'. track_at s' (track_key p) = Some t' \<and> same_track t' (snd p))
     \<and> (\<forall>key. key \<notin> track_key ` set TR \<longrightarrow> track_at s' key = track_at s key)"
proof -
  let ?md = "fold (\<lambda>p. attach (fst p) (snd p)) TR md"
  from assms(1) obtain f where f: "md_fingerprint md = Some f"
    by (auto simp: base_md_def)
  have 1: "md_ssrcs ?md = concat (map ssrc_block TR)"
    and 2: "md_ssrcGroups ?md = concat (map group_block TR)"
    and 3: "md_msid ?md = msid_of TR"
    and 4: "md_fingerprint ?md = Some f"
    and 5: "simulcast_ok (md_simulcast ?md)"
    using fold_attach_fields [of TR md] assms(1) f
    by (simp_all add: base_md_def split: option.splits)
  from line [OF 1 2 3 4 5 assms(2-6), of gf] fold_attach_fields [of TR md]
  show ?thesis
    by (simp add: codec_payloads_def)
qed

lemma process_lines:
  assumes "\<forall>md \<in> set mds. base_md md"
    and "\<forall>p \<in> set TR. wf_track p"
    and "distinct (map track_key TR)"
    and "disjoint_ssrcs TR"
    and "unified_distinct TR"
    and "\<forall>p \<in> set TR. track_at s (track_key p) = None"
  shows "\<exists>s'. process_medias gf (lines TR mds) s = Inr s'
     \<and> map media_id (medias s') = map media_id (medias s) @ map md_mid mds
     \<and> map media_type (medias s') = map media_type (medias s) @ map md_type mds
     \<and> map (\<lambda>m. fst ` set (media_codecs m)) (medias s') =
         map (\<lambda>m. fst ` set (media_codecs m)) (medias s) @ map codec_payloads mds
     \<and> (\<forall>p \<in> set TR. (\<exists>md \<in> set mds. track_matches (snd p) md) \<longrightarrow>
            (\<exists>t'. track_at s' (track_key p) = Some t' \<and> same_track t' (snd p)))
     \<and> (\<forall>key. key \<notin> track_key ` {p \<in> set TR. \<exists>md \<in> set mds. track_matches (snd p) md} \<longrightarrow>
            track_at s' key = track_at s key)"
  using assms
proof (induction mds arbitrary: TR s)
  case Nil
  show ?case by (intro exI [of _ s]) simp
next
  case (Cons md mds)
  let ?T1 = "filter (\<lambda>p. track_matches (snd p) md) TR"
  let ?T2 = "filter (\<lambda>p. \<not> track_matches (snd p) md) TR"
  have base: "base_md md" and bases: "\<forall>md \<in> set mds. base_md md"
    using Cons.prems(1) by simp_all
  have wf1: "\<forall>p \<in> set ?T1. wf_track p" and wf2: "\<forall>p \<in> set ?T2. wf_track p"
    using Cons.prems(2) by simp_all
  have dk1: "distinct (map track_key ?T1)" and dk2: "distinct (map track_key ?T2)"
    using Cons.prems(3) by (simp_all add: distinct_map_filter)
  have fresh1: "\<forall>p \<in> set ?T1. track_at s (track_key p) = None"
    using Cons.prems(6) by simp
  from line_of_tracks [OF base wf1 dk1 disjoint_ssrcs_filter [OF Cons.prems(4)]
      single_unified_matching [OF Cons.prems(5)] fresh1, of gf]
  obtain s1 m where
    run1: "process_media gf (fold (\<lambda>p. attach (fst p) (snd p)) ?T1 md) s = Inr s1"
    and med1: "medias s1 = medias s @ [m]"
    and m: "media_id m = md_mid md" "media_type m = md_type md"
      "fst ` set (media_codecs m) = codec_payloads md"
    and tr1: "\<forall>p \<in> set ?T1. \<exists>t'. track_at s1 (track_key p) = Some t' \<and> same_track t' (snd p)"
    and tr_other1: "\<forall>key. key \<notin> track_key ` set ?T1 \<longrightarrow> track_at s1 key = track_at s key"
    by blast
  have keys12: "\<And>p. p \<in> set ?T2 \<Longrightarrow> track_key p \<notin> track_key ` set ?T1"
  proof
    fix p assume p: "p \<in> set ?T2" and "track_key p \<in> track_key ` set ?T1"
    then obtain q where q: "q \<in> set ?T1" "track_key q = track_key p" by auto
    with p Cons.prems(3) have "q = p"
      by (metis (mono_tags, lifting) distinct_map filter_is_subset inj_on_def subsetD)
    with p q show False by simp
  qed
  have fresh2: "\<forall>p \<in> set ?T2. track_at s1 (track_key p) = None"
  proof
    fix p assume p: "p \<in> set ?T2"
    from tr_other1 [rule_format, OF keys12 [OF p]]
    have "track_at s1 (track_key p) = track_at s (track_key p)" .
    with Cons.prems(6) p show "track_at s1 (track_key p) = None" by simp
  qed
  from Cons.IH [OF bases wf2 dk2 disjoint_ssrcs_filter [OF Cons.prems(4)]
      unified_distinct_filter [OF Cons.prems(5)] fresh2]
  obtain s' where
    run: "process_medias gf (lines ?T2 mds) s1 = Inr s'"
    and ids: "map media_id (medias s') = map media_id (medias s1) @ map md_mid mds"
    and types: "map media_type (medias s') = map media_type (medias s1) @ map md_type mds"
    and codecs: "map (\<lambda>m. fst ` set (media_codecs m)) (medias s') =
         map (\<lambda>m. fst ` set (media_codecs m)) (medias s1) @ map codec_payloads mds"
    and tr: "\<forall>p \<in> set ?T2. (\<exists>md \<in> set mds. track_matches (snd p) md) \<longrightarrow>
            (\<exists>t'. track_at s' (track_key p) = Some t' \<and> same_track t' (snd p))"
    and tr_other: "\<forall>key. key \<notin> track_key ` {p \<in> set ?T2. \<exists>md \<in> set mds. track_matches (snd p) md} \<longrightarrow>
            track_at s' key = track_at s1 key"
    by blast
  have keys21: "\<And>p. p \<in> set ?T1 \<Longrightarrow>
      track_key p \<notin> track_key ` {p \<in> set ?T2. \<exists>md \<in> set mds. track_matches (snd p) md}"
    using keys12 by (metis (no_types, lifting) image_iff mem_Collect_eq)
  show ?case
  proof (intro exI [of _ s'] conjI)
    show "process_medias gf (lines TR (md # mds)) s = Inr s'"
      using run1 run by simp
    show "map media_id (medias s') = map media_id (medias s) @ map md_mid (md # mds)"
      using ids med1 m by simp
    show "map media_type (medias s') = map media_type (medias s) @ map md_type (md # mds)"
      using types med1 m by simp
    show "map (\<lambda>m. fst ` set (media_codecs m)) (medias s') =
         map (\<lambda>m. fst ` set (media_codecs m)) (medias s) @ map codec_payloads (md # mds)"
      using codecs med1 m by simp
    show "\<forall>p \<in> set TR. (\<exists>md' \<in> set (md # mds). track_matches (snd p) md') \<longrightarrow>
            (\<exists>t'. track_at s' (track_key p) = Some t' \<and> same_track t' (snd p))"
    proof (intro ballI impI)
      fix p assume p: "p \<in> set TR" and ex: "\<exists>md' \<in> set (md # mds). track_matches (snd p) md'"
      show "\<exists>t'. track_at s' (track_key p) = Some t' \<and> same_track t' (snd p)"
      proof (cases "track_matches (snd p) md")
        case True
        with p have p1: "p \<in> set ?T1" by simp
        from tr_other [rule_format, OF keys21 [OF p1]]
        have "track_at s' (track_key p) = track_at s1 (track_key p)" .
        with tr1 [rule_format, OF p1] show ?thesis by simp
      next
        case False
        with p ex have "p \<in> set ?T2" "\<exists>md \<in> set mds. track_matches (snd p) md" by simp_all
        with tr show ?thesis by blast
      qed
    qed
    show "\<forall>key. key \<notin> track_key ` {p \<in> set TR. \<exists>md' \<in> set (md # mds). track_matches (snd p) md'} \<longrightarrow>
            track_at s' key = track_at s key"
    proof (intro allI impI)
      fix key
      assume k: "key \<notin> track_key ` {p \<in> set TR. \<exists>md' \<in> set (md # mds). track_matches (snd p) md'}"
      then have k1: "key \<notin> track_key ` set ?T1"
        and k2: "key \<notin> track_key ` {p \<in> set ?T2. \<exists>md \<in> set mds. track_matches (snd p) md}"
        by auto
      from tr_other1 [rule_format, OF k1] tr_other [rule_format, OF k2]
      show "track_at s' key = track_at s key" by simp
    qed
  qed
qed

subsection \<open>The media descriptions before the pass\<close>

lemma makes_codec_rtx: "\<not> makes_codec ''rtx''"
  by (simp add: makes_codec_def toUpperCase_def upper_char_def)

lemma codec_payloads_list:
  "codec_payloads md = set (map rtp_payload (filter (\<lambda>f. makes_codec (rtp_codec f)) (md_rtp md)))"
  by (auto simp: codec_payloads_def)

lemma toString_codec_rtp:
  "\<exists>main. md_rtp (toString_codec t c md) =
       md_rtp md @ main #
         (case codec_rtx c of None \<Rightarrow> []
          | Some r \<Rightarrow> [\<lparr>rtp_payload = r, rtp_codec = ''rtx'', rtp_rate = Some 90000,
                          rtp_encoding = None\<rparr>])
     \<and> rtp_payload main = codec_type c \<and> rtp_codec main = codec_name c"
  by (simp add: toString_codec_def Let_def split: option.splits)

lemma toString_codec_fields:
  "codec_payloads (toString_codec t c md) =
     codec_payloads md \<union> (if makes_codec (codec_name c) then {codec_type c} else {})
   \<and> md_ssrcs (toString_codec t c md) = md_ssrcs md
   \<and> md_ssrcGroups (toString_codec t c md) = md_ssrcGroups md
   \<and> md_msid (toString_codec t c md) = md_msid md
   \<and> md_fingerprint (toString_codec t c md) = md_fingerprint md
   \<and> md_simulcast (toString_codec t c md) = md_simulcast md
   \<and> md_mid (toString_codec t c md) = md_mid md
   \<and> md_type (toString_codec t c md) = md_type md"
proof -
  from toString_codec_rtp [of t c md] obtain main where
    m: "md_rtp (toString_codec t c md) =
       md_rtp md @ main #
         (case codec_rtx c of None \<Rightarrow> []
          | Some r \<Rightarrow> [\<lparr>rtp_payload = r, rtp_codec = ''rtx'', rtp_rate = Some 90000,
                          rtp_encoding = None\<rparr>])"
      "rtp_payload main = codec_type c" "rtp_codec main = codec_name c"
    by blast
  have "codec_payloads (toString_codec t c md) =
     codec_payloads md \<union> (if makes_codec (codec_name c) then {codec_type c} else {})"
    unfolding codec_payloads_list m(1)
    using m(2,3) by (cases "codec_rtx c") (simp_all add: makes_codec_rtx)
  moreover have "md_ssrcs (toString_codec t c md) = md_ssrcs md
   \<and> md_ssrcGroups (toString_codec t c md) = md_ssrcGroups md
   \<and> md_msid (toString_codec t c md) = md_msid md
   \<and> md_fingerprint (toString_codec t c md) = md_fingerprint md
   \<and> md_simulcast (toString_codec t c md) = md_simulcast md
   \<and> md_mid (toString_codec t c md) = md_mid md
   \<and> md_type (toString_codec t c md) = md_type md"
    by (simp add: toString_codec_def Let_def split: option.splits)
  ultimately show ?thesis by simp
qed

lemma fold_toString_codec_fields:
  "codec_payloads (fold (toString_codec t) cs md) =
     codec_payloads md \<union> codec_type ` {c \<in> set cs. makes_codec (codec_name c)}
   \<and> md_ssrcs (fold (toString_codec t) cs md) = md_ssrcs md
   \<and> md_ssrcGroups (fold (toString_codec t) cs md) = md_ssrcGroups md
   \<and> md_msid (fold (toString_codec t) cs md) = md_msid md
   \<and> md_fingerprint (fold (toString_codec t) cs md) = md_fingerprint md
   \<and> md_simulcast (fold (toString_codec t) cs md) = md_simulcast md
   \<and> md_mid (fold (toString_codec t) cs md) = md_mid md
   \<and> md_type (fold (toString_codec t) cs md) = md_type md"
proof (induction cs arbitrary: md)
  case Nil
  show ?case by simp
next
  case (Cons c cs)
  show ?case
    using Cons.IH [of "toString_codec t c md"] toString_codec_fields [of t c md]
    by auto
qed

lemma simulcast_line_ok: "simulcast_ok (map_option simulcast_line x)"
  by (cases x) (simp_all add: simulcast_ok_def simulcast_line_def Let_def truthy_def)

lemma toString_media_base:
  assumes "dtls s = Some d"
  shows "\<exists>md. toString_media s i m = Inr md \<and> md_mid md = media_id m \<and> md_type md = media_type m
     \<and> base_md md
     \<and> codec_payloads md =
         codec_type ` {c \<in> set (Map_values (media_codecs m)). makes_codec (codec_name c)}"
proof -
  let ?md0 = "\<lparr>md_type = media_type m, md_port = 9, md_protocol = ''UDP/TLS/RTP/SAVPF'',
                     md_payloads = [],
                     md_direction = Direction_toString (media_direction m),
                     md_rtcpMux = Some ''rtcp-mux'', md_rtcpRsize = Some ''rtcp-rsize'',
                     md_mid = media_id m,
                     md_bandwidth = (if media_bitrate m > 0
                                     then [\<lparr>bw_type = ''AS'', bw_limit = media_bitrate m\<rparr>]
                                     else []),
                     md_candidates = map candidate_line (candidates s),
                     md_iceUfrag = ufrag i, md_icePwd = pwd i,
                     md_fingerprint = Some \<lparr>fp_type = dtls_hash d, fp_hash = dtls_fingerprint d\<rparr>,
                     md_setup = Setup_toString (dtls_setup d),
                     md_rtp = [], md_fmtp = [], md_rtcpFb = [], md_ext = [], md_rids = [],
                     md_simulcast = None, md_ssrcGroups = [], md_ssrcs = [], md_msid = None\<rparr>"
  let ?md1 = "fold (toString_codec (media_type m)) (Map_values (media_codecs m)) ?md0"
  have f: "codec_payloads ?md1 =
        codec_type ` {c \<in> set (Map_values (media_codecs m)). makes_codec (codec_name c)}"
      "md_ssrcs ?md1 = []" "md_ssrcGroups ?md1 = []" "md_msid ?md1 = None"
      "md_fingerprint ?md1 = Some \<lparr>fp_type = dtls_hash d, fp_hash = dtls_fingerprint d\<rparr>"
      "md_mid ?md1 = media_id m" "md_type ?md1 = media_type m"
    using fold_toString_codec_fields [of "media_type m" "Map_values (media_codecs m)" ?md0]
    by (simp_all add: codec_payloads_def)
  let ?md = "?md1\<lparr>md_payloads := join '' '' (map (\<lambda>r. Number_toString (rtp_payload r)) (md_rtp ?md1)),
                  md_ext := map (\<lambda>(i, uri). \<lparr>ext_value = i, ext_uri = uri\<rparr>) (media_extensions m),
                  md_rids := map rid_line (Map_values (media_rids m)),
                  md_simulcast := map_option simulcast_line (media_simulcast m)\<rparr>"
  have run: "toString_media s i m = Inr ?md"
    using assms by (simp add: toString_media_def Let_def)
  have "codec_payloads ?md = codec_payloads ?md1"
    by (simp add: codec_payloads_def)
  with f have "md_mid ?md = media_id m \<and> md_type ?md = media_type m \<and> base_md ?md
     \<and> codec_payloads ?md =
         codec_type ` {c \<in> set (Map_values (media_codecs m)). makes_codec (codec_name c)}"
    by (simp add: base_md_def simulcast_line_ok)
  with run show ?thesis by blast
qed

lemma toString_medias_base:
  assumes "dtls s = Some d"
  shows "\<exists>mds. toString_medias s i ms = Inr mds \<and> map md_mid mds = map media_id ms
     \<and> map md_type mds = map media_type ms \<and> (\<forall>md \<in> set mds. base_md md)
     \<and> map codec_payloads mds =
         map (\<lambda>m. codec_type ` {c \<in> set (Map_values (media_codecs m)). makes_codec (codec_name c)}) ms"
proof (induction ms)
  case Nil
  show ?case by simp
next
  case (Cons m ms)
  from toString_media_base [OF assms, of i m] obtain md where
    md: "toString_media s i m = Inr md" "md_mid md = media_id m" "md_type md = media_type m"
      "base_md md"
      "codec_payloads md =
         codec_type ` {c \<in> set (Map_values (media_codecs m)). makes_codec (codec_name c)}"
    by blast
  from Cons.IH obtain mds where
    mds: "toString_medias s i ms = Inr mds" "map md_mid mds = map media_id ms"
      "map md_type mds = map media_type ms" "\<forall>md \<in> set mds. base_md md"
      "map codec_payloads mds =
         map (\<lambda>m. codec_type ` {c \<in> set (Map_values (media_codecs m)). makes_codec (codec_name c)}) ms"
    by blast
  from md mds show ?case
    by (intro exI [of _ "md # mds"]) simp
qed

subsection \<open>The tracks of a session\<close>

lemma wf_streams_Cons:
  "wf_streams ((k, st) # sts) =
     (k \<notin> fst ` set sts \<and> stream_id st = k \<and> distinct (map fst (tracks st))
      \<and> list_all (\<lambda>(k', t). track_id t = k') (tracks st) \<and> wf_streams sts)"
  by (auto simp: wf_streams_def)

lemma all_tracks_Cons:
  "all_tracks ((k, st) # sts) = map (Pair (stream_id st)) (map snd (tracks st)) @ all_tracks sts"
  by (simp add: all_tracks_def Map_values_def)

lemma all_tracks_Nil: "all_tracks [] = []"
  by (simp add: all_tracks_def Map_values_def)

lemma all_tracks_set:
  "set (all_tracks sts) = (\<Union>(k, st) \<in> set sts. Pair (stream_id st) ` snd ` set (tracks st))"
proof (induction sts)
  case Nil
  show ?case by (simp add: all_tracks_Nil)
next
  case (Cons a sts)
  obtain k st where a: "a = (k, st)" by (cases a)
  show ?case
    by (simp add: a all_tracks_Cons Cons.IH image_image)
qed

lemma all_tracks_memD:
  assumes "p \<in> set (all_tracks sts)"
  shows "\<exists>k st k'. (k, st) \<in> set sts \<and> (k', snd p) \<in> set (tracks st) \<and> fst p = stream_id st"
  using assms unfolding all_tracks_set by force

lemma all_tracks_memI:
  assumes "(k, st) \<in> set sts" and "(k', t) \<in> set (tracks st)"
  shows "(stream_id st, t) \<in> set (all_tracks sts)"
  using assms unfolding all_tracks_set by force

lemma all_tracks_at:
  assumes "wf_streams (streams s)" and "p \<in> set (all_tracks (streams s))"
  shows "track_at s (track_key p) = Some (snd p)"
proof -
  from assms(2) obtain k st k' where
    m: "(k, st) \<in> set (streams s)" "(k', snd p) \<in> set (tracks st)" "fst p = stream_id st"
    using all_tracks_memD by blast
  from assms(1) m(1) have st: "stream_id st = k" "distinct (map fst (tracks st))"
      "list_all (\<lambda>(k', t). track_id t = k') (tracks st)" "distinct (map fst (streams s))"
    by (auto simp: wf_streams_def list_all_iff)
  from st(3) m(2) have k': "track_id (snd p) = k'"
    by (auto simp: list_all_iff)
  from st(4) m(1) have "map_of (streams s) k = Some st"
    by (rule map_of_is_SomeI)
  moreover from st(2) m(2) have "map_of (tracks st) k' = Some (snd p)"
    by (rule map_of_is_SomeI)
  ultimately show ?thesis
    using m(3) st(1) k' by (simp add: track_at_def track_key_def Map_get_def)
qed

lemma track_at_all_tracks:
  assumes "wf_streams (streams s)" and "track_at s key = Some t"
  shows "(fst key, t) \<in> set (all_tracks (streams s)) \<and> track_key (fst key, t) = key"
proof -
  from assms(2) obtain st where
    st: "map_of (streams s) (fst key) = Some st" "map_of (tracks st) (snd key) = Some t"
    by (auto simp: track_at_def Map_get_def split: option.splits)
  then have m: "(fst key, st) \<in> set (streams s)" "(snd key, t) \<in> set (tracks st)"
    by (auto dest: map_of_SomeD)
  with assms(1) have "stream_id st = fst key" "track_id t = snd key"
    by (auto simp: wf_streams_def list_all_iff)
  with all_tracks_memI [OF m] show ?thesis
    by (simp add: track_key_def)
qed

lemma all_tracks_keys:
  assumes "wf_streams sts" and "p \<in> set (all_tracks sts)"
  shows "fst p \<in> fst ` set sts"
proof -
  from assms(2) obtain k st k' where
    m: "(k, st) \<in> set sts" "fst p = stream_id st"
    using all_tracks_memD by blast
  with assms(1) have "stream_id st = k"
    by (auto simp: wf_streams_def list_all_iff)
  with m show ?thesis by force
qed

lemma distinct_all_tracks: "wf_streams sts \<Longrightarrow> distinct (map track_key (all_tracks sts))"
proof (induction sts)
  case Nil
  show ?case by (simp add: all_tracks_Nil)
next
  case (Cons a sts)
  obtain k st where a: "a = (k, st)" by (cases a)
  from Cons.prems have wf: "k \<notin> fst ` set sts" "stream_id st = k" "distinct (map fst (tracks st))"
      "list_all (\<lambda>(k', t). track_id t = k') (tracks st)" "wf_streams sts"
    by (simp_all add: a wf_streams_Cons)
  let ?A = "map (Pair (stream_id st)) (map snd (tracks st))"
  have eq: "map track_key ?A = map (Pair k) (map fst (tracks st))"
    using wf(2,4) by (auto simp: track_key_def list_all_iff)
  have "distinct (map (Pair k) (map fst (tracks st)))"
    using wf(3) by (simp add: distinct_map inj_on_def)
  then have d: "distinct (map track_key ?A)"
    unfolding eq .
  have "\<forall>q \<in> set (all_tracks sts). fst (track_key q) \<noteq> k"
    using all_tracks_keys [OF wf(5)] wf(1) by (auto simp: track_key_def)
  then have "set (map (Pair k) (map fst (tracks st))) \<inter> set (map track_key (all_tracks sts)) = {}"
    by (auto simp: track_key_def)
  then have i: "set (map track_key ?A) \<inter> set (map track_key (all_tracks sts)) = {}"
    unfolding eq .
  show ?case
    unfolding a all_tracks_Cons map_append distinct_append
    using d i Cons.IH [OF wf(5)] by blast
qed

lemma has_line_matches:
  "map md_mid mds = map media_id ms \<Longrightarrow> map md_type mds = map media_type ms \<Longrightarrow>
   has_line ms t \<Longrightarrow> \<exists>md \<in> set mds. track_matches t md"
proof (induction ms arbitrary: mds)
  case Nil
  then show ?case by (simp add: has_line_def)
next
  case (Cons m ms)
  from Cons.prems(1) obtain md rest where mds: "mds = md # rest" by (cases mds) auto
  show ?case
  proof (cases "has_line ms t")
    case True
    with Cons.IH [of rest] Cons.prems(1,2) show ?thesis
      by (auto simp: mds)
  next
    case False
    with Cons.prems have "track_matches t md"
      by (auto simp: mds has_line_def track_matches_def split: if_splits)
    then show ?thesis by (simp add: mds)
  qed
qed

lemma wf_codecs_payloads:
  "wf_codecs m \<Longrightarrow>
   codec_type ` {c \<in> set (Map_values (media_codecs m)). makes_codec (codec_name c)} =
     fst ` set (media_codecs m)"
  by (force simp: wf_codecs_def list_all_iff Map_values_def)

subsection \<open>The round trip\<close>

lemma toString_lines:
  assumes "ice G = Some i" and "isLite i = Some l" and "dtls G = Some d"
  shows "\<exists>t mds. toString now G = Inr t \<and> sdp_media t = lines (all_tracks (streams G)) mds
     \<and> sdp_version t = 0
     \<and> map md_mid mds = map media_id (medias G) \<and> map md_type mds = map media_type (medias G)
     \<and> (\<forall>md \<in> set mds. base_md md)
     \<and> map codec_payloads mds =
         map (\<lambda>m. codec_type ` {c \<in> set (Map_values (media_codecs m)). makes_codec (codec_name c)})
           (medias G)"
proof -
  from toString_medias_base [OF assms(3), of i "medias G"] obtain mds where
    mds: "toString_medias G i (medias G) = Inr mds" "map md_mid mds = map media_id (medias G)"
      "map md_type mds = map media_type (medias G)" "\<forall>md \<in> set mds. base_md md"
      "map codec_payloads mds =
         map (\<lambda>m. codec_type ` {c \<in> set (Map_values (media_codecs m)). makes_codec (codec_name c)})
           (medias G)"
    by blast
  from assms(1,2) mds(1) have "\<exists>t. toString now G = Inr t
      \<and> sdp_media t = lines (all_tracks (streams G)) mds \<and> sdp_version t = 0"
    by (simp add: toString_def ICEInfo_isLite_def toString_tracks_lines)
  with mds(2-5) show ?thesis by blast
qed

lemma track_at_new: "track_at (setVersion v (SDPInfo_new x)) key = None"
  by (simp add: track_at_def setVersion_def SDPInfo_new_def Map_get_def)

text \<open>
  A text layer whose parser returns, for the text that the writer made of the tree of
  toString, that same tree; an ice object that answers \<open>isLite()\<close>; a session whose
  codecs are stored under their payload types with none named red, ulpfec or rtx, whose
  streams and tracks are stored under their ids, in which no two tracks share an ssrc
  or a media id, and every track has a stream id and a track id without spaces, an ssrc
  unless it is bound by a media id, groups of numbers that start with an ssrc of the
  track, and a media line that matches it. Then the round trip returns a session with
  the same media ids and media types in the same order, the same set of payload types
  for every media, and, under every stream id and track id, either no track in both or
  tracks with the same set of ssrcs and the same groups.
\<close>

lemma exact_text_layer_round_trip:
  assumes "ice G = Some i" and "isLite i = Some l" and "dtls G = Some d" and "wf_session G"
    and exact: "\<And>t. toString now G = Inr t \<Longrightarrow> \<exists>str. wr t = Inr str \<and> pa str = Inr t"
  shows "\<exists>G'. roundtrip wr pa now G = Inr G'
     \<and> map media_id (medias G') = map media_id (medias G)
     \<and> map media_type (medias G') = map media_type (medias G)
     \<and> payload_types G' = payload_types G
     \<and> (\<forall>key. rel_option same_track (track_at G' key) (track_at G key))"
proof -
  let ?TR = "all_tracks (streams G)"
  let ?s0 = "setVersion 0 (SDPInfo_new None)"
  from assms(4) have wf: "list_all wf_codecs (medias G)" "wf_streams (streams G)"
      "\<forall>p \<in> set ?TR. wf_track p" "\<forall>p \<in> set ?TR. has_line (medias G) (snd p)"
      "disjoint_ssrcs ?TR" "unified_distinct ?TR"
    by (simp_all add: wf_session_def list_all_iff)
  from toString_lines [OF assms(1-3), of now] obtain t mds where
    t: "toString now G = Inr t" "sdp_media t = lines ?TR mds" "sdp_version t = 0"
      "map md_mid mds = map media_id (medias G)" "map md_type mds = map media_type (medias G)"
      "\<forall>md \<in> set mds. base_md md"
      "map codec_payloads mds =
         map (\<lambda>m. codec_type ` {c \<in> set (Map_values (media_codecs m)). makes_codec (codec_name c)})
           (medias G)"
    by blast
  have fresh: "\<forall>p \<in> set ?TR. track_at ?s0 (track_key p) = None"
    by (simp add: track_at_new)
  have "\<exists>s'. process_medias (sdp_fingerprint t) (lines ?TR mds) ?s0 = Inr s'
          \<and> map media_id (medias s') = map media_id (medias ?s0) @ map md_mid mds
          \<and> map media_type (medias s') = map media_type (medias ?s0) @ map md_type mds
          \<and> map (\<lambda>m. fst ` set (media_codecs m)) (medias s') =
              map (\<lambda>m. fst ` set (media_codecs m)) (medias ?s0) @ map codec_payloads mds
          \<and> (\<forall>p \<in> set ?TR. (\<exists>md \<in> set mds. track_matches (snd p) md) \<longrightarrow>
                 (\<exists>t'. track_at s' (track_key p) = Some t' \<and> same_track t' (snd p)))
          \<and> (\<forall>key. key \<notin> track_key ` {p \<in> set ?TR. \<exists>md \<in> set mds. track_matches (snd p) md} \<longrightarrow>
                 track_at s' key = track_at ?s0 key)"
    by (rule process_lines [OF t(6) wf(3) distinct_all_tracks [OF wf(2)] wf(5) wf(6) fresh])
  then obtain G' where
    run: "process_medias (sdp_fingerprint t) (lines ?TR mds) ?s0 = Inr G'"
    and ids: "map media_id (medias G') = map media_id (medias ?s0) @ map md_mid mds"
    and types: "map media_type (medias G') = map media_type (medias ?s0) @ map md_type mds"
    and codecs: "map (\<lambda>m. fst ` set (media_codecs m)) (medias G') =
              map (\<lambda>m. fst ` set (media_codecs m)) (medias ?s0) @ map codec_payloads mds"
    and found: "\<forall>p \<in> set ?TR. (\<exists>md \<in> set mds. track_matches (snd p) md) \<longrightarrow>
                 (\<exists>t'. track_at G' (track_key p) = Some t' \<and> same_track t' (snd p))"
    and others: "\<forall>key. key \<notin> track_key ` {p \<in> set ?TR. \<exists>md \<in> set mds. track_matches (snd p) md} \<longrightarrow>
                 track_at G' key = track_at ?s0 key"
    by blast
  have empty: "medias ?s0 = []"
    by (simp add: setVersion_def SDPInfo_new_def)
  from exact [OF t(1)] obtain str where str: "wr t = Inr str" "pa str = Inr t"
    by blast
  have r: "roundtrip wr pa now G = Inr G'"
    using t(1,2,3) str run
    by (simp add: roundtrip_def toString_text_def process_text_def process_def)
  have c: "payload_types G' = payload_types G"
  proof -
    have "map (\<lambda>m. codec_type ` {c \<in> set (Map_values (media_codecs m)). makes_codec (codec_name c)})
            (medias G) = map (\<lambda>m. fst ` set (media_codecs m)) (medias G)"
      using wf(1) by (simp add: list_all_iff wf_codecs_payloads)
    with codecs t(7) empty show ?thesis
      by (simp add: payload_types_def)
  qed
  have tr: "rel_option same_track (track_at G' key) (track_at G key)" for key
  proof (cases "track_at G key")
    case None
    have "key \<notin> track_key ` set ?TR"
    proof
      assume "key \<in> track_key ` set ?TR"
      then obtain p where p: "p \<in> set ?TR" "key = track_key p" by blast
      from all_tracks_at [OF wf(2) p(1)] None p(2) show False by simp
    qed
    then have "key \<notin> track_key ` {p \<in> set ?TR. \<exists>md \<in> set mds. track_matches (snd p) md}"
      by blast
    with others have "track_at G' key = track_at ?s0 key"
      by blast
    with None show ?thesis
      by (simp add: track_at_new)
  next
    case (Some tk)
    from track_at_all_tracks [OF wf(2) Some] have
      p: "(fst key, tk) \<in> set ?TR" "track_key (fst key, tk) = key"
      by simp_all
    from wf(4) p(1) have "has_line (medias G) tk"
      by force
    from has_line_matches [OF t(4) t(5) this] have "\<exists>md \<in> set mds. track_matches tk md" .
    with found [rule_format, OF p(1)] p(2) obtain t' where
      "track_at G' key = Some t'" "same_track t' tk"
      by auto
    with Some show ?thesis by simp
  qed
  from r ids types c tr t(4,5) empty show ?thesis
    by (intro exI [of _ G']) simp
qed

lemma example_roundtrip_wf: "wf_session example_roundtrip_session"
  by (simp add: wf_session_def example_roundtrip_session_def wf_codecs_def wf_streams_def
      all_tracks_def wf_track_def wf_ids_def unified_def has_line_def disjoint_ssrcs_def
      unified_distinct_def makes_codec_def example_media_def
      toString_eval process_eval tracks_eval Let_def)

subsection \<open>The round trip with an object of the class ICEInfo\<close>

text \<open>
  C1. The first use that toString makes of the ice object of the session is the call
  \<open>this.getICE().isLite()\<close>. The class ICEInfo defines \<open>getLite\<close> and \<open>setLite\<close>
  and no \<open>isLite\<close>, so for a session whose ice object has no such method, as every
  object made by the constructor of ICEInfo, toString raises at that call, before it
  builds the tree: the writer is not reached, process is not called, and
  \<open>SDPInfo.process(G.toString())\<close> raises instead of returning a session, whatever
  the medias, the streams and the dtls of the session are and whatever the text layer
  does.
\<close>

theorem round_trip_raises:
  assumes "ice s = Some i" and "isLite i = None"
  shows "toString_text wr now s = Inl (NotAFunction ''isLite'')
     \<and> roundtrip wr pa now s = Inl (NotAFunction ''isLite'')"
  using assms by (simp add: roundtrip_def toString_text_def toString_def ICEInfo_isLite_def)

text \<open>
  The session with an ice object made by the constructor of ICEInfo, a dtls object and
  one video media with the codec VP8 of payload type 96.
\<close>

theorem round_trip_raises_witness:
  "ice (example_video_session (ICEInfo_new (Some ''u'') (Some ''p''))) =
     Some (ICEInfo_new (Some ''u'') (Some ''p''))
   \<and> isLite (ICEInfo_new (Some ''u'') (Some ''p'')) = None
   \<and> dtls (example_video_session (ICEInfo_new (Some ''u'') (Some ''p''))) = Some example_dtls
   \<and> map media_id (medias (example_video_session (ICEInfo_new (Some ''u'') (Some ''p'')))) = [''v'']
   \<and> (\<forall>wr pa now.
        toString_text wr now (example_video_session (ICEInfo_new (Some ''u'') (Some ''p''))) =
          Inl (NotAFunction ''isLite'')
        \<and> roundtrip wr pa now (example_video_session (ICEInfo_new (Some ''u'') (Some ''p''))) =
          Inl (NotAFunction ''isLite''))"
proof -
  let ?s = "example_video_session (ICEInfo_new (Some ''u'') (Some ''p''))"
  have i: "ice ?s = Some (ICEInfo_new (Some ''u'') (Some ''p''))"
    by (simp add: example_video_session_def example_session_def addMedia_def setDTLS_def
        setICE_def)
  have l: "isLite (ICEInfo_new (Some ''u'') (Some ''p'')) = None"
    by (simp add: ICEInfo_new_def)
  have d: "dtls ?s = Some example_dtls"
    by (simp add: example_video_session_def example_session_def addMedia_def setDTLS_def
        setICE_def)
  have m: "map media_id (medias ?s) = [''v'']"
    by (simp add: example_video_session_def example_session_def example_media_def addMedia_def
        setDTLS_def setICE_def SDPInfo_new_def MediaInfo_new_def addCodec_def)
  from round_trip_raises [OF i l] i l d m show ?thesis
    by blast
qed

end
